(* ===== verification/Zkool_Prelude.thy ===== *)
theory Zkool_Prelude
  imports Main "HOL-Library.Word" "HOL-Library.Monad_Syntax" "HOL-Library.Multiset"
    "HOL-Library.Code_Target_Nat" "HOL-Library.Code_Target_Int"
begin

text \<open>
  What every component of the development shares.

  \<^item> Rust's machine integers. A value of \<open>u8\<close>, \<open>u32\<close>, \<open>u64\<close> or \<open>usize\<close> is a \<open>nat\<close> and a
    value of \<open>i64\<close> an \<open>int\<close>; every operation of the source that can leave the width is one of the
    operations below, which writes the wrap-around (Rust's release profile, the one the
    wallet ships with) or the saturation out. Bit masks, where the source works bitwise,
    are \<open>8 word\<close>.
  \<^item> Panics. A Rust function that can panic (an index past the end of a vector, an
    \<open>unwrap\<close> of nothing) returns \<open>'a panics\<close>, with \<open>None\<close> for the panic; the option
    monad's do-notation sequences such calls.
  \<^item> Errors. A Rust \<open>Result\<close> is a sum, \<open>Inl\<close> the error and \<open>Inr\<close> the value.
  \<^item> The list facts that several components need: stable descending sorts, updates of one
    slot of an array, folds that can fail.
\<close>

section \<open>Lemma collections\<close>

named_theorems machine_defs \<open>definitions of the machine operations\<close>
named_theorems exact_arith \<open>an operation that stays inside its width is the exact one\<close>
named_theorems frame_simps \<open>what an operation leaves unchanged\<close>

section \<open>Machine integers\<close>

type_synonym u8 = nat
type_synonym u32 = nat
type_synonym u64 = nat
type_synonym usize = nat
type_synonym i64 = int

definition u8_max :: nat where "u8_max = 2 ^ 8 - 1"
definition u32_max :: nat where "u32_max = 2 ^ 32 - 1"
definition u64_max :: nat where "u64_max = 2 ^ 64 - 1"

text \<open>Wrapping \<open>+\<close>, \<open>-\<close> and \<open>*\<close>.\<close>

definition add8 :: "u8 \<Rightarrow> u8 \<Rightarrow> u8" where
  [machine_defs]: "add8 a b = (a + b) mod 2 ^ 8"

definition sub8 :: "u8 \<Rightarrow> u8 \<Rightarrow> u8" where
  [machine_defs]: "sub8 a b = (a + 2 ^ 8 - b) mod 2 ^ 8"

definition add32 :: "u32 \<Rightarrow> u32 \<Rightarrow> u32" where
  [machine_defs]: "add32 a b = (a + b) mod 2 ^ 32"

definition sub32 :: "u32 \<Rightarrow> u32 \<Rightarrow> u32" where
  [machine_defs]: "sub32 a b = (a + 2 ^ 32 - b) mod 2 ^ 32"

definition add64 :: "u64 \<Rightarrow> u64 \<Rightarrow> u64" where
  [machine_defs]: "add64 a b = (a + b) mod 2 ^ 64"

definition sub64 :: "u64 \<Rightarrow> u64 \<Rightarrow> u64" where
  [machine_defs]: "sub64 a b = (a + 2 ^ 64 - b) mod 2 ^ 64"

definition mul64 :: "u64 \<Rightarrow> u64 \<Rightarrow> u64" where
  [machine_defs]: "mul64 a b = (a * b) mod 2 ^ 64"

text \<open>\<open>saturating_add\<close> and \<open>saturating_sub\<close>; subtraction on \<open>nat\<close> stops at 0 as the latter does.\<close>

definition sat_add32 :: "u32 \<Rightarrow> u32 \<Rightarrow> u32" where
  [machine_defs]: "sat_add32 a b = min (a + b) u32_max"

definition sat_add64 :: "u64 \<Rightarrow> u64 \<Rightarrow> u64" where
  [machine_defs]: "sat_add64 a b = min (a + b) u64_max"

definition sat_sub :: "nat \<Rightarrow> nat \<Rightarrow> nat" where
  [machine_defs]: "sat_sub a b = a - b"

text \<open>\<open>u64::div_ceil\<close>.\<close>

definition div_ceil :: "u64 \<Rightarrow> u64 \<Rightarrow> u64" where
  [machine_defs]: "div_ceil a b = a div b + (if a mod b > 0 then 1 else 0)"

text \<open>The casts between \<open>u64\<close> and \<open>i64\<close>, wrapping \<open>i64\<close> addition, \<open>unsigned_abs\<close>, and the
  division of \<open>i64\<close>, which truncates towards zero.\<close>

definition wrap_i64 :: "int \<Rightarrow> i64" where
  [machine_defs]: "wrap_i64 x = (x + 2 ^ 63) mod 2 ^ 64 - 2 ^ 63"

definition as_i64 :: "u64 \<Rightarrow> i64" where
  [machine_defs]: "as_i64 v = wrap_i64 (int v)"

definition as_u64 :: "i64 \<Rightarrow> u64" where
  [machine_defs]: "as_u64 x = nat (x mod 2 ^ 64)"

definition unsigned_abs :: "i64 \<Rightarrow> u64" where
  [machine_defs]: "unsigned_abs x = nat \<bar>x\<bar>"

definition trunc_div :: "int \<Rightarrow> int \<Rightarrow> int" where
  [machine_defs]: "trunc_div a b = sgn a * sgn b * (\<bar>a\<bar> div \<bar>b\<bar>)"

lemma u8_max_eq [simp]: "u8_max = 255"
  by (simp add: u8_max_def)

lemma u32_max_eq [simp]: "u32_max = 4294967295"
  by (simp add: u32_max_def)

lemma u64_max_eq [simp]: "u64_max = 18446744073709551615"
  by (simp add: u64_max_def)

lemma add8_exact [exact_arith]: "a + b < 256 \<Longrightarrow> add8 a b = a + b"
  by (simp add: add8_def)

lemma sub8_exact [exact_arith]: "b \<le> a \<Longrightarrow> a < 256 \<Longrightarrow> sub8 a b = a - b"
proof -
  assume le: "b \<le> a" and lt: "a < 256"
  then have "a + 2 ^ 8 - b = (a - b) + 2 ^ 8" by simp
  then have "sub8 a b = ((a - b) + 2 ^ 8) mod 2 ^ 8" by (simp only: sub8_def)
  also have "\<dots> = a - b" using lt by simp
  finally show ?thesis .
qed

lemma add32_exact [exact_arith]: "a + b < 2 ^ 32 \<Longrightarrow> add32 a b = a + b"
  by (simp add: add32_def)

lemma sub32_exact [exact_arith]: "b \<le> a \<Longrightarrow> a < 2 ^ 32 \<Longrightarrow> sub32 a b = a - b"
proof -
  assume le: "b \<le> a" and lt: "a < 2 ^ 32"
  then have "a + 2 ^ 32 - b = (a - b) + 2 ^ 32" by simp
  then have "sub32 a b = ((a - b) + 2 ^ 32) mod 2 ^ 32" by (simp only: sub32_def)
  also have "\<dots> = a - b" using lt by simp
  finally show ?thesis .
qed

lemma add64_exact [exact_arith]: "a + b < 2 ^ 64 \<Longrightarrow> add64 a b = a + b"
  by (simp add: add64_def)

lemma add64_le: "add64 a b \<le> a + b"
  by (simp add: add64_def)

lemma sub64_exact [exact_arith]: "b \<le> a \<Longrightarrow> a < 2 ^ 64 \<Longrightarrow> sub64 a b = a - b"
proof -
  assume le: "b \<le> a" and lt: "a < 2 ^ 64"
  then have "a + 2 ^ 64 - b = (a - b) + 2 ^ 64" by simp
  then have "sub64 a b = ((a - b) + 2 ^ 64) mod 2 ^ 64" by (simp only: sub64_def)
  also have "\<dots> = a - b" using lt by simp
  finally show ?thesis .
qed

lemma mul64_exact [exact_arith]: "a * b < 2 ^ 64 \<Longrightarrow> mul64 a b = a * b"
  by (simp add: mul64_def)

lemma wrap_i64_exact [exact_arith]:
  assumes "- (2 ^ 63) \<le> x" and "x < 2 ^ 63"
  shows "wrap_i64 x = x"
proof -
  have "(x + 2 ^ 63) mod 2 ^ 64 = x + 2 ^ 63"
    using assms by (intro mod_pos_pos_trivial) auto
  then show ?thesis by (simp add: wrap_i64_def)
qed

lemma as_i64_exact [exact_arith]: "v < 2 ^ 63 \<Longrightarrow> as_i64 v = int v"
proof -
  assume "v < 2 ^ 63"
  then have "int v < int (2 ^ 63)" by (simp only: of_nat_less_iff)
  then show ?thesis by (simp add: as_i64_def wrap_i64_exact)
qed

lemma as_u64_exact [exact_arith]: "0 \<le> x \<Longrightarrow> x < 2 ^ 63 \<Longrightarrow> as_u64 x = nat x"
  by (simp add: as_u64_def)

lemma div_ceil_ge: "0 < b \<Longrightarrow> a \<le> b * div_ceil a b"
proof -
  assume b: "0 < b"
  have "a mod b < b" using b by simp
  moreover have "b * (a div b) + a mod b = a" by simp
  ultimately have "a \<le> b * (a div b) + b" and "a mod b = 0 \<Longrightarrow> a \<le> b * (a div b)"
    by linarith+
  then show ?thesis by (auto simp: div_ceil_def distrib_left)
qed

lemma div_ceil_mono: "0 < b \<Longrightarrow> a \<le> a' \<Longrightarrow> div_ceil a b \<le> div_ceil a' b"
proof -
  assume b: "0 < b" and le: "a \<le> a'"
  have d: "a div b \<le> a' div b" using le by (rule div_le_mono)
  show ?thesis
  proof (cases "a div b = a' div b")
    case True
    have "a mod b \<le> a' mod b"
    proof -
      have "a = b * (a div b) + a mod b" and "a' = b * (a' div b) + a' mod b" by simp_all
      with True le show ?thesis by (metis add_le_cancel_left)
    qed
    with True show ?thesis by (auto simp: div_ceil_def)
  next
    case False
    with d have "Suc (a div b) \<le> a' div b" by simp
    then show ?thesis by (auto simp: div_ceil_def)
  qed
qed

section \<open>Panics and fallible folds\<close>

type_synonym 'a panics = "'a option"

text \<open>A loop whose body can fail: the first \<open>None\<close> ends it.\<close>

fun foldM :: "('s \<Rightarrow> 'a \<Rightarrow> 's option) \<Rightarrow> 's \<Rightarrow> 'a list \<Rightarrow> 's option" where
  "foldM f s [] = Some s"
| "foldM f s (x # xs) = (case f s x of None \<Rightarrow> None | Some s' \<Rightarrow> foldM f s' xs)"

lemma foldM_append:
  "foldM f s (xs @ ys) = (case foldM f s xs of None \<Rightarrow> None | Some s' \<Rightarrow> foldM f s' ys)"
  by (induction xs arbitrary: s) (auto split: option.splits)

lemma foldM_snoc:
  "foldM f s (xs @ [x]) = (case foldM f s xs of None \<Rightarrow> None | Some s' \<Rightarrow> f s' x)"
  by (auto simp: foldM_append split: option.splits)

lemma foldM_invariant:
  assumes "foldM f s xs = Some t" and "P s"
    and "\<And>s x s'. P s \<Longrightarrow> x \<in> set xs \<Longrightarrow> f s x = Some s' \<Longrightarrow> P s'"
  shows "P t"
  using assms
proof (induction xs arbitrary: s)
  case Nil
  then show ?case by simp
next
  case (Cons x xs)
  from Cons.prems(1) obtain s' where s': "f s x = Some s'" and rest: "foldM f s' xs = Some t"
    by (auto split: option.splits)
  have "P s'" using Cons.prems(2,3) s' by auto
  with rest show ?case using Cons.IH Cons.prems(3) by (meson list.set_intros(2))
qed

lemma foldM_total:
  assumes "P s" and "\<And>s x. P s \<Longrightarrow> x \<in> set xs \<Longrightarrow> \<exists>s'. f s x = Some s' \<and> P s'"
  shows "\<exists>t. foldM f s xs = Some t \<and> P t"
  using assms
proof (induction xs arbitrary: s)
  case Nil
  then show ?case by simp
next
  case (Cons x xs)
  obtain s' where s': "f s x = Some s'" "P s'" using Cons.prems by (meson list.set_intros(1))
  have "\<exists>t. foldM f s' xs = Some t \<and> P t"
    using Cons.IH [OF s'(2)] Cons.prems(2) by (meson list.set_intros(2))
  with s' show ?case by simp
qed

section \<open>Arrays and sorts\<close>

text \<open>Update one slot of a fixed-size array with a function of its old value.\<close>

definition upd_at :: "nat \<Rightarrow> ('a \<Rightarrow> 'a) \<Rightarrow> 'a list \<Rightarrow> 'a list" where
  "upd_at i f xs = xs[i := f (xs ! i)]"

lemma length_upd_at [simp]: "length (upd_at i f xs) = length xs"
  by (simp add: upd_at_def)

lemma nth_upd_at: "j < length xs \<Longrightarrow> upd_at i f xs ! j = (if i = j then f (xs ! j) else xs ! j)"
  by (simp add: upd_at_def nth_list_update)

lemma upd_at_same [simp]: "i < length xs \<Longrightarrow> upd_at i f xs ! i = f (xs ! i)"
  by (simp add: nth_upd_at)

lemma upd_at_other [simp]: "i \<noteq> j \<Longrightarrow> upd_at i f xs ! j = xs ! j"
  by (simp add: upd_at_def)

lemma all_below_4: "(\<forall>p < (4::nat). P p) \<longleftrightarrow> P 0 \<and> P 1 \<and> P 2 \<and> P 3"
proof -
  have "p < 4 \<longleftrightarrow> p = 0 \<or> p = 1 \<or> p = 2 \<or> p = (3::nat)" for p by auto
  then show ?thesis by auto
qed

lemma upt_4: "[0..<4] = [0, 1, 2, 3 :: nat]"
  by (simp add: eval_nat_numeral)

lemma upt_1_4: "[1..<4] = [1, 2, 3 :: nat]"
  by (simp add: eval_nat_numeral)

text \<open>A stable sort by decreasing key, as \<open>sort_by(|a, b| key(b).cmp(&key(a)))\<close>.\<close>

definition sort_desc :: "('a \<Rightarrow> nat) \<Rightarrow> 'a list \<Rightarrow> 'a list" where
  "sort_desc key = sort_key (\<lambda>x. - int (key x))"

lemma mset_sort_desc [simp]: "mset (sort_desc key xs) = mset xs"
  by (simp add: sort_desc_def)

lemma set_sort_desc [simp]: "set (sort_desc key xs) = set xs"
  by (simp add: sort_desc_def)

lemma length_sort_desc [simp]: "length (sort_desc key xs) = length xs"
  by (simp add: sort_desc_def)

lemma distinct_sort_desc [simp]: "distinct (sort_desc key xs) = distinct xs"
  by (simp add: sort_desc_def)

lemma sum_list_mset_eq:
  fixes f :: "'a \<Rightarrow> nat"
  shows "mset xs = mset ys \<Longrightarrow> sum_list (map f xs) = sum_list (map f ys)"
  by (metis mset_map sum_mset_sum_list)

lemma sum_list_map_filter_le:
  fixes f :: "'a \<Rightarrow> nat"
  shows "sum_list (map f (filter P xs)) \<le> sum_list (map f xs)"
  by (induction xs) auto

lemma sum_list_map_le_distinct_subset:
  fixes f :: "nat \<Rightarrow> nat"
  assumes "distinct is" and "set is \<subseteq> {..<n}"
  shows "sum_list (map f is) \<le> sum_list (map f [0..<n])"
proof -
  have "sum_list (map f is) = sum f (set is)"
    using assms(1) by (simp add: sum_list_distinct_conv_sum_set)
  also have "\<dots> \<le> sum f {..<n}"
    using assms(2) by (intro sum_mono2) auto
  also have "\<dots> = sum_list (map f [0..<n])"
    by (simp add: sum_list_distinct_conv_sum_set atLeast0LessThan)
  finally show ?thesis .
qed

end
