(* ===== verification/Pools.thy ===== *)
theory Pools
  imports Zkool_Prelude
begin

unbundle bit_operations_syntax

text \<open>
  The pool masks of \<open>rust/src/pay/pool.rs\<close>: a byte whose bits 0 to 3 name the transparent,
  Sapling, Orchard and Ironwood pools. The mask is an \<open>8 word\<close>; a pool number is the index
  of its bit. Decoding an address is the job of the \<open>zcash_address\<close> crate: the two functions
  of it that the code calls are parameters of \<open>from_address\<close>.
\<close>

type_synonym pool_mask = "8 word"

definition num_pools :: nat where "num_pools = 4"
definition all_pools :: pool_mask where "all_pools = 0b1111"
definition all_shielded_pools :: pool_mask where "all_shielded_pools = 0b1110"

text \<open>\<open>1 << p\<close> on a \<open>u8\<close>: the shift distance is taken modulo the width.\<close>

definition shl_one :: "nat \<Rightarrow> pool_mask" where
  "shl_one p = push_bit (p mod 8) 1"

definition mask_empty :: pool_mask where
  "mask_empty = 0"

definition from_pool :: "nat \<Rightarrow> pool_mask" where
  "from_pool p = shl_one p"

definition has_pool :: "pool_mask \<Rightarrow> nat \<Rightarrow> bool" where
  "has_pool m p \<longleftrightarrow> m AND shl_one p \<noteq> 0"

definition to_best_pool :: "pool_mask \<Rightarrow> nat option" where
  "to_best_pool m =
     (if m AND 8 \<noteq> 0 then Some 3
      else if m AND 4 \<noteq> 0 then Some 2
      else if m AND 2 \<noteq> 0 then Some 1
      else if m AND 1 \<noteq> 0 then Some 0
      else None)"

definition single_pool :: "pool_mask \<Rightarrow> bool" where
  "single_pool m = (if m \<noteq> 0 then m AND (m - 1) = 0 else False)"

definition mask_is_empty :: "pool_mask \<Rightarrow> bool" where
  "mask_is_empty m \<longleftrightarrow> m = 0"

definition intersect :: "pool_mask \<Rightarrow> pool_mask \<Rightarrow> pool_mask" where
  "intersect a b = a AND b"

definition mask_union :: "pool_mask \<Rightarrow> pool_mask \<Rightarrow> pool_mask" where
  "mask_union a b = a OR b"

datatype pool_type = Transparent_Pool | Sapling_Pool | Orchard_Pool

datatype pay_error = InvalidPoolMask | NotEnoughFunds string | NoFeasibleSelection | NoSigningKey
  | Sqlx string | Other string

definition from_address ::
  "(string \<Rightarrow> 'addr option) \<Rightarrow> ('addr \<Rightarrow> pool_type \<Rightarrow> bool) \<Rightarrow> string \<Rightarrow> pay_error + pool_mask" where
  "from_address try_from_encoded can_receive_as address =
     (case try_from_encoded address of
        None \<Rightarrow> Inl (Other ''invalid address'')
      | Some a \<Rightarrow>
          (let m0 = (0 :: pool_mask);
               m1 = (if can_receive_as a Transparent_Pool then m0 OR 1 else m0);
               m2 = (if can_receive_as a Sapling_Pool then m1 OR 2 else m1);
               m3 = (if can_receive_as a Orchard_Pool then m2 OR (4 OR 8) else m2)
           in Inr m3))"

definition trim_transparent :: "pool_mask \<Rightarrow> pay_error + pool_mask" where
  "trim_transparent m =
     (if m = 0 then Inl InvalidPoolMask
      else if m = 1 then Inr 1
      else Inr (m AND 0b1110))"

definition mask_of_option :: "nat option \<Rightarrow> pool_mask" where
  "mask_of_option v = (case v of Some p \<Rightarrow> shl_one p | None \<Rightarrow> 0)"

section \<open>Membership\<close>

lemma pools_below_4: "p < 4 \<longleftrightarrow> p = 0 \<or> p = 1 \<or> p = 2 \<or> p = (3::nat)"
  by auto

lemma shl_one_values [simp]:
  "shl_one 0 = 1" "shl_one (Suc 0) = 2" "shl_one 2 = 4" "shl_one 3 = 8"
  by (simp_all add: shl_one_def)

lemma has_pool_bit: "p < 8 \<Longrightarrow> has_pool m p \<longleftrightarrow> bit m p"
proof -
  assume p: "p < 8"
  have "m AND push_bit p 1 \<noteq> 0 \<longleftrightarrow> bit m p"
  proof
    assume "bit m p"
    with p have "bit (m AND push_bit p 1) p" by (simp add: bit_simps)
    then show "m AND push_bit p 1 \<noteq> 0" by auto
  next
    assume "m AND push_bit p 1 \<noteq> 0"
    then obtain n where "bit (m AND push_bit p 1) n" by (metis bit_eqI bit_0_eq bot_apply bot_bool_def)
    then show "bit m p" by (auto simp: bit_simps)
  qed
  with p show ?thesis by (simp add: has_pool_def shl_one_def)
qed

lemma has_pool_from_pool: "p < 8 \<Longrightarrow> q < 8 \<Longrightarrow> has_pool (from_pool p) q \<longleftrightarrow> p = q"
  by (auto simp: has_pool_bit from_pool_def shl_one_def bit_simps)

lemma has_pool_union: "p < 8 \<Longrightarrow> has_pool (mask_union a b) p \<longleftrightarrow> has_pool a p \<or> has_pool b p"
  by (simp add: has_pool_bit mask_union_def bit_simps)

lemma has_pool_intersect: "p < 8 \<Longrightarrow> has_pool (intersect a b) p \<longleftrightarrow> has_pool a p \<and> has_pool b p"
  by (simp add: has_pool_bit intersect_def bit_simps)

lemma to_best_pool_cases:
  "to_best_pool m =
     (if has_pool m 3 then Some 3 else if has_pool m 2 then Some 2
      else if has_pool m 1 then Some 1 else if has_pool m 0 then Some 0 else None)"
  by (simp add: to_best_pool_def has_pool_def)

lemma to_best_pool_bound: "to_best_pool m = Some p \<Longrightarrow> p < 4"
  by (auto simp: to_best_pool_cases split: if_splits)

lemma to_best_pool_from_pool: "p < 4 \<Longrightarrow> to_best_pool (from_pool p) = Some p"
  by (auto simp: to_best_pool_cases has_pool_from_pool pools_below_4)

end
