(* ===== verification/Fees.thy ===== *)
theory Fees
  imports Pools
begin

text \<open>
  The fee schedule and the fee counter of \<open>rust/src/pay/fee.rs\<close>, with the networks of
  \<open>rust/src/api/coin.rs\<close> it depends on. \<open>FeeManager\<close> is the record \<open>fee_manager\<close>; its two
  arrays of \<open>u8\<close> counters are lists of length 4 and its counters wrap as the code's do.
\<close>

section \<open>Networks\<close>

datatype orchard_mode = OrchardNormal | OrchardZsa

record local_network =
  ln_overwinter :: "nat option"
  ln_sapling :: "nat option"
  ln_blossom :: "nat option"
  ln_heartwood :: "nat option"
  ln_canopy :: "nat option"
  ln_nu5 :: "nat option"
  ln_nu6 :: "nat option"
  ln_nu6_1 :: "nat option"
  ln_nu6_2 :: "nat option"
  ln_nu6_3 :: "nat option"
  ln_nu7 :: "nat option"
  ln_zsa :: "nat option"
  ln_orchard_mode :: orchard_mode

datatype network = NetMain | NetTest | NetRegtest local_network | NetZsaRegtest local_network

definition network_for_coin :: "u8 \<Rightarrow> network" where
  "network_for_coin coin =
     (if coin = 0 then NetMain
      else if coin = 1 then NetTest
      else if coin = 2 then NetRegtest
        \<lparr> ln_overwinter = Some 1, ln_sapling = Some 1, ln_blossom = Some 1,
          ln_heartwood = Some 1, ln_canopy = Some 1, ln_nu5 = Some 1, ln_nu6 = Some 1,
          ln_nu6_1 = Some 1, ln_nu6_2 = Some 1, ln_nu6_3 = Some 250, ln_nu7 = None,
          ln_zsa = None, ln_orchard_mode = OrchardNormal \<rparr>
      else if coin = 3 then NetZsaRegtest
        \<lparr> ln_overwinter = Some 1, ln_sapling = Some 1, ln_blossom = Some 1,
          ln_heartwood = Some 1, ln_canopy = Some 1, ln_nu5 = Some 1, ln_nu6 = Some 1,
          ln_nu6_1 = Some 1, ln_nu6_2 = Some 1, ln_nu6_3 = None, ln_nu7 = None,
          ln_zsa = Some 1, ln_orchard_mode = OrchardZsa \<rparr>
      else NetMain)"

section \<open>The marginal fee\<close>

definition legacy_cost_per_action :: u64 where "legacy_cost_per_action = 5000"
definition reduced_cost_per_action :: u64 where "reduced_cost_per_action = 1000"
definition mainnet_fee_reduction_height :: u32 where "mainnet_fee_reduction_height = 3590000"
definition testnet_fee_reduction_height :: u32 where "testnet_fee_reduction_height = 4465026"
definition p2pkh_input_size :: u64 where "p2pkh_input_size = 150"
definition p2pkh_uncompressed_input_size :: u64 where "p2pkh_uncompressed_input_size = 181"
definition creation_cost :: u64 where "creation_cost = 0"
definition grace_actions :: u64 where "grace_actions = 2"

lemmas fee_constants = legacy_cost_per_action_def reduced_cost_per_action_def
  mainnet_fee_reduction_height_def testnet_fee_reduction_height_def
  p2pkh_input_size_def p2pkh_uncompressed_input_size_def creation_cost_def grace_actions_def

definition cost_per_action :: "network \<Rightarrow> u32 \<Rightarrow> u64 option \<Rightarrow> u64" where
  "cost_per_action net target_height override_fee =
     (case Option.bind override_fee (\<lambda>fee. if fee > 0 then Some fee else None) of
        Some fee \<Rightarrow> fee
      | None \<Rightarrow>
          (case net of
             NetZsaRegtest _ \<Rightarrow> legacy_cost_per_action
           | _ \<Rightarrow>
               (let reduction_height =
                      (case net of NetMain \<Rightarrow> mainnet_fee_reduction_height
                       | NetTest \<Rightarrow> testnet_fee_reduction_height
                       | _ \<Rightarrow> 0)
                in if target_height \<ge> reduction_height
                   then reduced_cost_per_action else legacy_cost_per_action)))"

text \<open>
  The user's override is a property of the wallet, a text that \<open>str::trim\<close> and
  \<open>str::parse::<u64>\<close> read: an optional \<open>+\<close>, then one or more digits, and no value above
  \<open>u64::MAX\<close>. White space is the ASCII one (a property is typed by the user as digits).
\<close>

definition is_space :: "char \<Rightarrow> bool" where
  "is_space c \<longleftrightarrow> c \<in> {CHR '' '', CHR 0x09, CHR 0x0A, CHR 0x0B, CHR 0x0C, CHR 0x0D}"

definition str_trim :: "string \<Rightarrow> string" where
  "str_trim s = rev (dropWhile is_space (rev (dropWhile is_space s)))"

definition digit_value :: "char \<Rightarrow> nat option" where
  "digit_value c =
     (let n = of_char c :: nat in if 48 \<le> n \<and> n \<le> 57 then Some (n - 48) else None)"

fun parse_digits :: "nat \<Rightarrow> string \<Rightarrow> u64 option" where
  "parse_digits acc [] = Some acc"
| "parse_digits acc (c # cs) =
     (case digit_value c of
        None \<Rightarrow> None
      | Some d \<Rightarrow> (if acc * 10 + d > u64_max then None else parse_digits (acc * 10 + d) cs))"

definition parse_u64 :: "string \<Rightarrow> u64 option" where
  "parse_u64 s =
     (let body = (case s of c # cs \<Rightarrow> if c = CHR ''+'' then cs else s | [] \<Rightarrow> s)
      in if body = [] then None else parse_digits 0 body)"

definition fee_override_prop :: string where
  "fee_override_prop = ''fee_per_action''"

text \<open>\<open>get_prop\<close> reads the wallet's property table and can fail as any query can.\<close>

definition fee_override :: "(string \<Rightarrow> 'e + string option) \<Rightarrow> 'e + u64 option" where
  "fee_override get_prop =
     (case get_prop fee_override_prop of
        Inl e \<Rightarrow> Inl e
      | Inr v \<Rightarrow>
          Inr (Option.bind (Option.bind v (\<lambda>value. parse_u64 (str_trim value)))
                 (\<lambda>fee. if fee > 0 then Some fee else None)))"

definition resolve_cost_per_action ::
  "network \<Rightarrow> (string \<Rightarrow> 'e + string option) \<Rightarrow> u32 \<Rightarrow> 'e + u64" where
  "resolve_cost_per_action net get_prop target_height =
     (case fee_override get_prop of
        Inl e \<Rightarrow> Inl e
      | Inr override_fee \<Rightarrow> Inr (cost_per_action net target_height override_fee))"

section \<open>The fee counter\<close>

record fee_manager =
  fm_cost_per_action :: u64
  fm_num_inputs :: "u8 list"
  fm_num_outputs :: "u8 list"
  fm_t_in_size :: u64
  fm_issuance_actions :: u64
  fm_migration :: bool

definition fm_new :: "u64 \<Rightarrow> fee_manager" where
  "fm_new cost = \<lparr> fm_cost_per_action = cost, fm_num_inputs = [0, 0, 0, 0],
     fm_num_outputs = [0, 0, 0, 0], fm_t_in_size = 0, fm_issuance_actions = 0,
     fm_migration = False \<rparr>"

definition add_transparent_input :: "bool \<Rightarrow> fee_manager \<Rightarrow> fee_manager" where
  "add_transparent_input uncompressed fm =
     fm\<lparr> fm_num_inputs := upd_at 0 (\<lambda>n. add8 n 1) (fm_num_inputs fm),
         fm_t_in_size := add64 (fm_t_in_size fm)
           (if uncompressed then p2pkh_uncompressed_input_size else p2pkh_input_size) \<rparr>"

definition add_input :: "nat \<Rightarrow> fee_manager \<Rightarrow> fee_manager" where
  "add_input pool fm =
     (if pool = 0 then add_transparent_input False fm
      else fm\<lparr> fm_num_inputs := upd_at pool (\<lambda>n. add8 n 1) (fm_num_inputs fm) \<rparr>)"

definition add_output :: "nat \<Rightarrow> fee_manager \<Rightarrow> fee_manager" where
  "add_output pool fm =
     fm\<lparr> fm_num_outputs := upd_at pool (\<lambda>n. add8 n 1) (fm_num_outputs fm) \<rparr>"

definition remove_output :: "nat \<Rightarrow> fee_manager \<Rightarrow> fee_manager" where
  "remove_output pool fm =
     fm\<lparr> fm_num_outputs := upd_at pool (\<lambda>n. sub8 n 1) (fm_num_outputs fm) \<rparr>"

definition add_issuance_actions :: "u64 \<Rightarrow> u64 \<Rightarrow> fee_manager \<Rightarrow> fee_manager" where
  "add_issuance_actions issue_note_count asset_creation_count fm =
     fm\<lparr> fm_issuance_actions := add64 (fm_issuance_actions fm)
           (add64 issue_note_count (mul64 creation_cost asset_creation_count)) \<rparr>"

text \<open>
  The logical actions of one shielded pool: none when the pool is not used, otherwise the
  larger of spends and outputs, padded to 2. In migration mode an Orchard bundle pays for
  spends and outputs separately.
\<close>

definition pool_actions :: "nat \<Rightarrow> nat \<Rightarrow> nat" where
  "pool_actions n_in n_out = (if n_in > 0 \<or> n_out > 0 then max (max n_in n_out) 2 else 0)"

definition migration_actions :: "nat \<Rightarrow> nat \<Rightarrow> nat" where
  "migration_actions n_in n_out = (if n_in > 0 \<or> n_out > 0 then max (n_in + n_out) 2 else 0)"

definition fm_actions :: "fee_manager \<Rightarrow> u64" where
  "fm_actions fm =
     (let num_in = (\<lambda>p. fm_num_inputs fm ! p);
          num_out = (\<lambda>p. fm_num_outputs fm ! p);
          t = max (div_ceil (fm_t_in_size fm) p2pkh_input_size) (num_out 0);
          s = pool_actions (num_in 1) (num_out 1);
          o' = (if fm_migration fm then migration_actions (num_in 2) (num_out 2)
                else pool_actions (num_in 2) (num_out 2));
          i = pool_actions (num_in 3) (num_out 3)
      in max (t + s + o' + i) 2)"

definition fm_fee :: "fee_manager \<Rightarrow> u64" where
  "fm_fee fm = mul64 (fm_actions fm) (fm_cost_per_action fm)"

section \<open>What the counter guarantees\<close>

definition fm_wf :: "fee_manager \<Rightarrow> bool" where
  "fm_wf fm \<longleftrightarrow> length (fm_num_inputs fm) = 4 \<and> length (fm_num_outputs fm) = 4
     \<and> (\<forall>p < 4. fm_num_inputs fm ! p < 256 \<and> fm_num_outputs fm ! p < 256)"

lemma fm_wf_new [simp]: "fm_wf (fm_new c)"
  by (simp add: fm_wf_def fm_new_def all_below_4)

lemma fm_wf_add_input [simp]: "fm_wf fm \<Longrightarrow> fm_wf (add_input p fm)"
  by (simp add: fm_wf_def add_input_def add_transparent_input_def nth_upd_at add8_def)

lemma fm_wf_add_output [simp]: "fm_wf fm \<Longrightarrow> fm_wf (add_output p fm)"
  by (simp add: fm_wf_def add_output_def nth_upd_at add8_def)

lemma fm_wf_remove_output [simp]: "fm_wf fm \<Longrightarrow> fm_wf (remove_output p fm)"
  by (simp add: fm_wf_def remove_output_def nth_upd_at sub8_def)

lemma fm_actions_ge_2: "2 \<le> fm_actions fm"
  by (simp add: fm_actions_def Let_def)

lemma pool_actions_mono: "i \<le> i' \<Longrightarrow> o1 \<le> o2 \<Longrightarrow> pool_actions i o1 \<le> pool_actions i' o2"
  by (auto simp: pool_actions_def)

lemma migration_actions_mono:
  "i \<le> i' \<Longrightarrow> o1 \<le> o2 \<Longrightarrow> migration_actions i o1 \<le> migration_actions i' o2"
  by (auto simp: migration_actions_def)

lemma fm_actions_mono:
  assumes "fm_t_in_size a \<le> fm_t_in_size b"
    and "\<forall>p < 4. fm_num_inputs a ! p \<le> fm_num_inputs b ! p"
    and "\<forall>p < 4. fm_num_outputs a ! p \<le> fm_num_outputs b ! p"
    and "fm_migration a = fm_migration b"
  shows "fm_actions a \<le> fm_actions b"
proof -
  have t: "max (div_ceil (fm_t_in_size a) p2pkh_input_size) (fm_num_outputs a ! 0)
      \<le> max (div_ceil (fm_t_in_size b) p2pkh_input_size) (fm_num_outputs b ! 0)"
    using assms(1,3)
    by (intro max.mono div_ceil_mono) (auto simp: p2pkh_input_size_def all_below_4)
  have d: "pool_actions (fm_num_inputs a ! p) (fm_num_outputs a ! p)
      \<le> pool_actions (fm_num_inputs b ! p) (fm_num_outputs b ! p)" if "p < 4" for p
    using assms(2,3) that by (intro pool_actions_mono) auto
  have "migration_actions (fm_num_inputs a ! 2) (fm_num_outputs a ! 2)
      \<le> migration_actions (fm_num_inputs b ! 2) (fm_num_outputs b ! 2)"
    using assms(2,3) by (intro migration_actions_mono) auto
  with d [of 2] have o':
    "(if m then migration_actions (fm_num_inputs a ! 2) (fm_num_outputs a ! 2)
      else pool_actions (fm_num_inputs a ! 2) (fm_num_outputs a ! 2))
     \<le> (if m then migration_actions (fm_num_inputs b ! 2) (fm_num_outputs b ! 2)
      else pool_actions (fm_num_inputs b ! 2) (fm_num_outputs b ! 2))" for m
    by simp
  show ?thesis
    unfolding fm_actions_def Let_def assms(4)
    by (rule max.mono [OF add_mono [OF add_mono [OF add_mono [OF t d] o'] d] order.refl]) simp_all
qed

end
