(* ===== verification/Solver.thy ===== *)
theory Solver
  imports Fees "HOL-Library.Product_Lexorder"
begin

text \<open>
  The note selection of \<open>rust/src/pay/solve.rs\<close>: a greedy baseline followed by a best-first
  branch and bound with a node and a time budget. Arrays over the four pools are lists of
  length 4, the vectors over the assets lists of length \<open>n_assets\<close>. The wall clock is the
  parameter \<open>elapsed\<close>: whether the time limit was exceeded at the k-th node. The binary heap
  of the search is a list from which the item with the least \<open>(bound, seq)\<close> is taken.
\<close>

definition n_pools :: nat where "n_pools = 4"

record snote =
  sn_pool :: u8
  sn_amount :: u64
  sn_pool_index :: usize
  sn_uncompressed :: bool
  sn_asset_index :: u8

record soutput =
  so_pool :: u8
  so_amount :: u64
  so_asset_index :: u8

record selection =
  sel_inputs :: "snote list"
  sel_per_pool_indices :: "usize list list"
  sel_change_pool :: u8
  sel_fee :: u64

record sstate =
  asset_sums :: "u64 list"
  balance :: "i64 list"
  n_inputs :: "u32 list"
  t_in_size :: u64
  orchard_asset_inputs :: "u32 list"
  tin :: u64
  tout :: u64
  selected :: "usize list"

record sctx =
  c_notes :: "snote list"
  c_n_assets :: u8
  c_asset_output_amounts :: "u64 list"
  c_output_amounts :: "u64 list"
  c_n_outputs :: "u32 list"
  c_orchard_asset_outputs :: "u32 list"
  c_f_unit :: u64
  c_migration :: bool
  c_recipient_pays_fee :: bool
  c_first_recipient_amount :: u64
  c_change_pools :: pool_mask

definition all_change_pools :: pool_mask where "all_change_pools = 15"

section \<open>Budget\<close>

definition max_nodes :: nat where "max_nodes = 100000"
definition beam_width :: nat where "beam_width = 24"

text \<open>\<open>BudgetTracker::exceeded\<close> counts the call and compares: the new count and the answer.\<close>

definition exceeded :: "(nat \<Rightarrow> bool) \<Rightarrow> nat \<Rightarrow> nat \<times> bool" where
  "exceeded elapsed nodes = (nodes + 1, nodes + 1 > max_nodes \<or> elapsed (nodes + 1))"

section \<open>Fee of a state\<close>

definition compute_fee ::
  "u64 \<Rightarrow> u32 list \<Rightarrow> u32 list \<Rightarrow> u8 \<Rightarrow> u64 \<Rightarrow> bool \<Rightarrow> u64 option \<Rightarrow> u64" where
  "compute_fee t_size n_ins n_outputs change_pool f_unit migration orchard_actions =
     (let n_outs = upd_at change_pool (\<lambda>n. sat_add32 n 1) n_outputs;
          t = max (div_ceil t_size p2pkh_input_size) (n_outs ! 0);
          s = pool_actions (n_ins ! 1) (n_outs ! 1);
          o' = (case orchard_actions of
                  Some a \<Rightarrow> a
                | None \<Rightarrow> if migration then migration_actions (n_ins ! 2) (n_outs ! 2)
                          else pool_actions (n_ins ! 2) (n_outs ! 2));
          iw = pool_actions (n_ins ! 3) (n_outs ! 3);
          logical = max (t + s + o' + iw) grace_actions
      in mul64 logical f_unit)"

definition zsa_orchard_actions :: "sstate \<Rightarrow> sctx \<Rightarrow> u8 \<Rightarrow> u64 option" where
  "zsa_orchard_actions st ctx change_pool =
     (if c_n_assets ctx \<le> 1 then None
      else
        (let actions = sum_list (map (\<lambda>asset.
               (let outputs0 = c_orchard_asset_outputs ctx ! asset;
                    outputs = (if asset = 0 \<and> change_pool = 2 then sat_add32 outputs0 1
                               else if asset > 0
                                 \<and> asset_sums st ! asset > c_asset_output_amounts ctx ! asset
                               then sat_add32 outputs0 1
                               else outputs0)
                in max (orchard_asset_inputs st ! asset) outputs)) [0..<c_n_assets ctx])
         in Some (if actions > 0 then max actions 2 else 0)))"

definition fee_for_change_pool :: "sstate \<Rightarrow> sctx \<Rightarrow> u8 \<Rightarrow> u64" where
  "fee_for_change_pool st ctx change_pool =
     compute_fee (t_in_size st) (n_inputs st) (c_n_outputs ctx) change_pool
       (c_f_unit ctx) (c_migration ctx) (zsa_orchard_actions st ctx change_pool)"

section \<open>Cost of a state\<close>

definition zec_needed :: "sctx \<Rightarrow> u64 \<Rightarrow> u64" where
  "zec_needed ctx fee =
     (if c_recipient_pays_fee ctx then c_asset_output_amounts ctx ! 0
      else sat_add64 (c_asset_output_amounts ctx ! 0) fee)"

definition is_feasible :: "sstate \<Rightarrow> sctx \<Rightarrow> u64 \<Rightarrow> bool" where
  "is_feasible st ctx fee \<longleftrightarrow>
     \<not> asset_sums st ! 0 < zec_needed ctx fee
     \<and> list_all (\<lambda>i. \<not> asset_sums st ! i < c_asset_output_amounts ctx ! i) [1..<c_n_assets ctx]"

definition is_better_solution :: "u64 \<Rightarrow> u64 \<Rightarrow> u64 \<Rightarrow> u64 \<Rightarrow> bool" where
  "is_better_solution cost fee best_cost best_fee \<longleftrightarrow> (cost, fee) < (best_cost, best_fee)"

definition bound_can_beat :: "u64 \<Rightarrow> u64 \<Rightarrow> bool" where
  "bound_can_beat bound best_cost \<longleftrightarrow> bound \<le> best_cost"

definition turnstile :: "sstate \<Rightarrow> u64 \<Rightarrow> u8 \<Rightarrow> u64" where
  "turnstile st change cp =
     add64 (add64 (tin st) (tout st))
       (foldl add64 0 (map (\<lambda>p.
          (let bal = balance st ! p
           in if p = cp then unsigned_abs (wrap_i64 (bal - as_i64 change))
              else unsigned_abs bal)) [1..<n_pools]))"

text \<open>
  One round of the loop over the change pools: the best turnstile, its fee and its pool so
  far. A pool that is masked out, whose fee the first recipient cannot pay, or under which
  the state does not cover the outputs is skipped.
\<close>

definition try_change_pool :: "sstate \<Rightarrow> sctx \<Rightarrow> u64 \<times> u64 \<times> u8 \<Rightarrow> u8 \<Rightarrow> u64 \<times> u64 \<times> u8" where
  "try_change_pool st ctx best cp =
     (let (best_turnstile, best_fee, best_pool) = best in
      if c_change_pools ctx AND shl_one cp = 0 then best
      else
        (let fee = fee_for_change_pool st ctx cp in
         if c_recipient_pays_fee ctx \<and> fee > c_first_recipient_amount ctx then best
         else if \<not> is_feasible st ctx fee then best
         else
           (let change = sat_sub (asset_sums st ! 0) (zec_needed ctx fee);
                ts = turnstile st change cp
            in if (ts, fee) < (best_turnstile, best_fee) then (ts, fee, cp) else best)))"

definition evaluate_privacy :: "sstate \<Rightarrow> sctx \<Rightarrow> u64 \<times> u8" where
  "evaluate_privacy st ctx =
     (case foldl (try_change_pool st ctx) (u64_max, u64_max, 0) [0..<n_pools] of
        (best_turnstile, best_fee, best_pool) \<Rightarrow> (best_turnstile, best_pool))"

definition evaluate_state :: "sstate \<Rightarrow> sctx \<Rightarrow> u64 \<times> u8" where
  "evaluate_state st ctx = evaluate_privacy st ctx"

text \<open>The value left in each pool; indexing the four counters panics past pool 3.\<close>

definition remaining_by_pool :: "snote list \<Rightarrow> usize list \<Rightarrow> u64 list panics" where
  "remaining_by_pool notes chosen =
     foldM (\<lambda>acc (i, n).
        if i \<in> set chosen then Some acc
        else if sn_pool n < n_pools
             then Some (upd_at (sn_pool n) (\<lambda>v. add64 v (sn_amount n)) acc)
             else None)
       [0, 0, 0, 0] (enumerate 0 notes)"

definition lower_bound_privacy :: "sstate \<Rightarrow> sctx \<Rightarrow> u64 panics" where
  "lower_bound_privacy st ctx =
     do {
       remaining \<leftarrow> remaining_by_pool (c_notes ctx) (selected st);
       Some (foldl (\<lambda>bound p.
              add64 bound (sat_sub (unsigned_abs (balance st ! p)) (remaining ! p)))
            (add64 (tin st) (tout st)) [1..<n_pools])
     }"

definition lower_bound_of :: "sstate \<Rightarrow> sctx \<Rightarrow> u64 panics" where
  "lower_bound_of st ctx = lower_bound_privacy st ctx"

section \<open>State transitions\<close>

definition initial_state :: "sctx \<Rightarrow> sstate" where
  "initial_state ctx =
     \<lparr> asset_sums = replicate (c_n_assets ctx) 0,
       balance = map (\<lambda>p. wrap_i64 (- as_i64 (c_output_amounts ctx ! p))) [0..<n_pools],
       n_inputs = [0, 0, 0, 0],
       t_in_size = 0,
       orchard_asset_inputs = replicate (c_n_assets ctx) 0,
       tin = 0,
       tout = c_output_amounts ctx ! 0,
       selected = [] \<rparr>"

definition input_size :: "snote \<Rightarrow> u64" where
  "input_size n = (if sn_uncompressed n then p2pkh_uncompressed_input_size else p2pkh_input_size)"

definition apply_note :: "sstate \<Rightarrow> usize \<Rightarrow> snote \<Rightarrow> sstate panics" where
  "apply_note st note_idx n =
     (let a = sn_asset_index n; p = sn_pool n in
      if \<not> a < length (asset_sums st) then None
      else if \<not> p < n_pools then None
      else Some
        (st\<lparr> selected := selected st @ [note_idx],
             asset_sums := upd_at a (\<lambda>v. add64 v (sn_amount n)) (asset_sums st),
             n_inputs := upd_at p (\<lambda>v. sat_add32 v 1) (n_inputs st),
             t_in_size := (if p = 0 then add64 (t_in_size st) (input_size n) else t_in_size st),
             orchard_asset_inputs :=
               (if p = 2 then upd_at a (\<lambda>v. sat_add32 v 1) (orchard_asset_inputs st)
                else orchard_asset_inputs st),
             tin := (if p = 0 then add64 (tin st) (sn_amount n) else tin st),
             balance := (if p = 1 \<or> p = 2 \<or> p = 3
                         then upd_at p (\<lambda>b. wrap_i64 (b + as_i64 (sn_amount n))) (balance st)
                         else balance st) \<rparr>))"

definition remaining_notes :: "sctx \<Rightarrow> sstate \<Rightarrow> (usize \<times> snote) list" where
  "remaining_notes ctx st =
     filter (\<lambda>(i, _). i \<notin> set (selected st)) (enumerate 0 (c_notes ctx))"

section \<open>Beam heuristic and state key\<close>

text \<open>
  \<open>local_score\<close> indexes the balances by the note's pool. It is called on unselected notes of
  a state whose lower bound was computed, which already panicked on a pool past 3.
\<close>

definition local_score :: "snote \<Rightarrow> sstate \<Rightarrow> i64" where
  "local_score n st =
     (let bal = balance st ! sn_pool n;
          old_abs = as_i64 (unsigned_abs bal);
          new_abs = as_i64 (unsigned_abs (wrap_i64 (bal + as_i64 (sn_amount n))));
          reduction = wrap_i64 (old_abs - new_abs)
      in wrap_i64 (reduction - trunc_div (as_i64 (sn_amount n)) 1000))"

definition top_k_by_local_heuristic ::
  "(usize \<times> snote) list \<Rightarrow> sstate \<Rightarrow> nat \<Rightarrow> (usize \<times> snote) list" where
  "top_k_by_local_heuristic remaining st k =
     (if length remaining \<le> k then remaining
      else take k (sort_key (\<lambda>(_, n). - local_score n st) remaining))"

definition quant :: int where "quant = 1000"

type_synonym state_key = "i64 list \<times> i64 list \<times> u64 \<times> u32 list \<times> u32 list"

definition state_key :: "sstate \<Rightarrow> state_key" where
  "state_key st =
     (let q = (\<lambda>b. trunc_div b quant * quant);
          q_u64 = (\<lambda>v. trunc_div (as_i64 v) quant * quant)
      in (map q_u64 (asset_sums st),
          [q (balance st ! 0), q (balance st ! 1), q (balance st ! 2), q (balance st ! 3)],
          tout st, n_inputs st, orchard_asset_inputs st))"

section \<open>Greedy baseline\<close>

fun greedy_loop :: "sctx \<Rightarrow> sstate \<Rightarrow> usize list \<Rightarrow> (sstate \<times> u64 \<times> u8) option panics" where
  "greedy_loop ctx st [] =
     (let (cost, pool) = evaluate_state st ctx
      in Some (if cost \<noteq> u64_max then Some (st, cost, pool) else None))"
| "greedy_loop ctx st (idx # order) =
     (let (cost, pool) = evaluate_state st ctx
      in if cost \<noteq> u64_max then Some (Some (st, cost, pool))
         else do { st' \<leftarrow> apply_note st idx (c_notes ctx ! idx); greedy_loop ctx st' order })"

definition greedy_order :: "sctx \<Rightarrow> usize list" where
  "greedy_order ctx = sort_desc (\<lambda>i. sn_amount (c_notes ctx ! i)) [0..<length (c_notes ctx)]"

definition greedy_solution :: "sctx \<Rightarrow> (sstate \<times> u64 \<times> u8) option panics" where
  "greedy_solution ctx = greedy_loop ctx (initial_state ctx) (greedy_order ctx)"

section \<open>Priority queue\<close>

record qitem =
  qi_bound :: u64
  qi_seq :: u64
  qi_state :: sstate

text \<open>\<open>QueueItem::cmp\<close>: by bound, then by sequence number.\<close>

definition qi_key :: "qitem \<Rightarrow> u64 \<times> u64" where
  "qi_key x = (qi_bound x, qi_seq x)"

definition heap_push :: "qitem \<Rightarrow> qitem list \<Rightarrow> qitem list" where
  "heap_push x q = x # q"

fun heap_pop :: "qitem list \<Rightarrow> (qitem \<times> qitem list) option" where
  "heap_pop [] = None"
| "heap_pop (x # xs) =
     (case heap_pop xs of
        None \<Rightarrow> Some (x, [])
      | Some (m, rest) \<Rightarrow> if qi_key x \<le> qi_key m then Some (x, xs) else Some (m, x # rest))"

section \<open>Branch and bound\<close>

record search =
  sr_best_cost :: u64
  sr_best_fee :: u64
  sr_best_pool :: u8
  sr_best_state :: sstate
  sr_heap :: "qitem list"
  sr_seen :: "state_key \<Rightarrow> u64 option"
  sr_seq :: u64

text \<open>
  One candidate of the expansion: the child is pruned by its bound or by a state with the
  same key and no greater bound, and queued otherwise.
\<close>

definition expand_child :: "sctx \<Rightarrow> sstate \<Rightarrow> search \<Rightarrow> usize \<times> snote \<Rightarrow> search panics" where
  "expand_child ctx st sr cand =
     do {
       child \<leftarrow> apply_note st (fst cand) (snd cand);
       child_bound \<leftarrow> lower_bound_of child ctx;
       Some
         (if \<not> bound_can_beat child_bound (sr_best_cost sr) then sr
          else
            (let key = state_key child;
                 dominated = (case sr_seen sr key of
                                Some existing_bound \<Rightarrow> existing_bound \<le> child_bound
                              | None \<Rightarrow> False)
             in if dominated then sr
                else
                  (let seq = sat_add64 (sr_seq sr) 1
                   in sr\<lparr> sr_seen := (sr_seen sr)(key \<mapsto> child_bound),
                          sr_seq := seq,
                          sr_heap := heap_push
                            \<lparr> qi_bound = child_bound, qi_seq = seq, qi_state = child \<rparr>
                            (sr_heap sr) \<rparr>)))
     }"

text \<open>A feasible state that improves on the incumbent replaces it.\<close>

definition update_best :: "sctx \<Rightarrow> sstate \<Rightarrow> search \<Rightarrow> search" where
  "update_best ctx st sr =
     (let (cost, pool) = evaluate_state st ctx;
          fee = fee_for_change_pool st ctx pool
      in if cost \<noteq> u64_max \<and> is_better_solution cost fee (sr_best_cost sr) (sr_best_fee sr)
         then sr\<lparr> sr_best_cost := cost, sr_best_fee := fee, sr_best_state := st,
                  sr_best_pool := pool \<rparr>
         else sr)"

text \<open>The body of the search loop for one popped item, after the budget check.\<close>

definition visit_item :: "sctx \<Rightarrow> qitem \<Rightarrow> search \<Rightarrow> search panics" where
  "visit_item ctx item sr =
     (if \<not> bound_can_beat (qi_bound item) (sr_best_cost sr) then Some sr
      else
        (let st = qi_state item;
             sr1 = update_best ctx st sr;
             remaining = remaining_notes ctx st
         in if remaining = [] then Some sr1
            else
              (let max_remaining = Max (set (map (\<lambda>(_, n). sn_amount n) remaining))
               in if asset_sums st ! 0
                     > sat_add64 (c_asset_output_amounts ctx ! 0) max_remaining
                  then Some sr1
                  else foldM (expand_child ctx st) sr1
                         (top_k_by_local_heuristic remaining st beam_width))))"

function search_loop :: "(nat \<Rightarrow> bool) \<Rightarrow> sctx \<Rightarrow> nat \<Rightarrow> search \<Rightarrow> search panics" where
  "search_loop elapsed ctx nodes sr =
     (case heap_pop (sr_heap sr) of
        None \<Rightarrow> Some sr
      | Some (item, rest) \<Rightarrow>
          (let sr0 = sr\<lparr> sr_heap := rest \<rparr>
           in if snd (exceeded elapsed nodes) then Some sr0
              else (case visit_item ctx item sr0 of
                      None \<Rightarrow> None
                    | Some sr' \<Rightarrow> search_loop elapsed ctx (fst (exceeded elapsed nodes)) sr')))"
  by pat_completeness auto
termination
  by (relation "measure (\<lambda>(elapsed, ctx, nodes, sr). max_nodes + 1 - nodes)")
    (auto simp: exceeded_def)

declare search_loop.simps [simp del]

lemma search_loop_empty: "heap_pop (sr_heap sr) = None \<Longrightarrow> search_loop elapsed ctx nodes sr = Some sr"
  by (simp add: search_loop.simps [of elapsed ctx nodes sr])

lemma search_loop_cut:
  "heap_pop (sr_heap sr) = Some (item, rest) \<Longrightarrow> elapsed (nodes + 1)
   \<Longrightarrow> search_loop elapsed ctx nodes sr = Some (sr\<lparr> sr_heap := rest \<rparr>)"
  by (simp add: search_loop.simps [of elapsed ctx nodes sr] exceeded_def)

lemma search_loop_step:
  "heap_pop (sr_heap sr) = Some (item, rest) \<Longrightarrow> \<not> elapsed (nodes + 1) \<Longrightarrow> nodes < max_nodes
   \<Longrightarrow> visit_item ctx item (sr\<lparr> sr_heap := rest \<rparr>) = Some sr'
   \<Longrightarrow> search_loop elapsed ctx nodes sr = search_loop elapsed ctx (nodes + 1) sr'"
  by (simp add: search_loop.simps [of elapsed ctx nodes sr] exceeded_def)

lemmas search_loop_run = search_loop_empty search_loop_cut search_loop_step

section \<open>Entry point\<close>

definition dust_filter :: "u64 \<Rightarrow> snote list \<Rightarrow> snote list" where
  "dust_filter f_unit = filter (\<lambda>n. sn_asset_index n \<noteq> 0 \<or> sn_amount n \<ge> f_unit)"

definition count_assets :: "soutput list \<Rightarrow> u8" where
  "count_assets outputs = add8 (foldr max (map so_asset_index outputs) 0) 1"

text \<open>
  The output aggregates: amounts and counts per pool, amounts per asset, Orchard outputs
  per asset. The two vectors over the assets are indexed by the output's asset, which
  panics when the count of assets wrapped.
\<close>

definition add_output_to ::
  "u64 list \<times> u32 list \<times> u64 list \<times> u32 list \<Rightarrow> soutput
   \<Rightarrow> (u64 list \<times> u32 list \<times> u64 list \<times> u32 list) panics" where
  "add_output_to agg o' =
     (let (output_amounts, n_outputs, asset_amounts, orchard_outputs) = agg;
          p = so_pool o'; a = so_asset_index o'
      in if \<not> a < length asset_amounts then None
         else Some
           (if p < n_pools then upd_at p (\<lambda>v. sat_add64 v (so_amount o')) output_amounts
            else output_amounts,
            if p < n_pools then upd_at p (\<lambda>v. sat_add32 v 1) n_outputs else n_outputs,
            upd_at a (\<lambda>v. add64 v (so_amount o')) asset_amounts,
            if p = 2 then upd_at a (\<lambda>v. sat_add32 v 1) orchard_outputs else orchard_outputs))"

definition aggregate_outputs ::
  "soutput list \<Rightarrow> (u64 list \<times> u32 list \<times> u64 list \<times> u32 list) panics" where
  "aggregate_outputs outputs =
     (let n = count_assets outputs
      in foldM add_output_to
           ([0, 0, 0, 0], [0, 0, 0, 0], replicate n 0, replicate n 0) outputs)"

text \<open>Shielded pools first, then transparent; within each by decreasing amount.\<close>

definition sort_notes :: "snote list \<Rightarrow> snote list" where
  "sort_notes = sort_key (\<lambda>n. (if sn_pool n = 0 then 1 else 0 :: int, - int (sn_amount n)))"

definition apply_all_notes :: "sctx \<Rightarrow> sstate panics" where
  "apply_all_notes ctx =
     foldM (\<lambda>s idx. apply_note s idx (c_notes ctx ! idx)) (initial_state ctx)
       [0..<length (c_notes ctx)]"

definition baseline :: "sctx \<Rightarrow> (sstate \<times> u64 \<times> u8) option panics" where
  "baseline ctx =
     do {
       greedy \<leftarrow> greedy_solution ctx;
       (case greedy of
          Some sol \<Rightarrow> Some (Some sol)
        | None \<Rightarrow>
            do {
              st \<leftarrow> apply_all_notes ctx;
              (let (cost, pool) = evaluate_state st ctx
               in Some (if cost = u64_max then None else Some (st, cost, pool)))
            })
     }"

definition start_search :: "sctx \<Rightarrow> sstate \<times> u64 \<times> u8 \<Rightarrow> search panics" where
  "start_search ctx sol =
     (let (best_state, best_cost, best_pool) = sol;
          start = initial_state ctx
      in do {
           start_bound \<leftarrow> lower_bound_of start ctx;
           Some \<lparr> sr_best_cost = best_cost,
                  sr_best_fee = fee_for_change_pool best_state ctx best_pool,
                  sr_best_pool = best_pool,
                  sr_best_state = best_state,
                  sr_heap = (if bound_can_beat start_bound best_cost
                             then heap_push \<lparr> qi_bound = start_bound, qi_seq = 0,
                                              qi_state = start \<rparr> []
                             else []),
                  sr_seen = Map.empty,
                  sr_seq = 0 \<rparr>
         })"

definition build_selection :: "sctx \<Rightarrow> search \<Rightarrow> selection" where
  "build_selection ctx sr =
     (let inputs = map (\<lambda>idx. c_notes ctx ! idx) (selected (sr_best_state sr))
      in \<lparr> sel_inputs = inputs,
           sel_per_pool_indices =
             map (\<lambda>p. map sn_pool_index (filter (\<lambda>n. sn_pool n = p) inputs)) [0..<n_pools],
           sel_change_pool = sr_best_pool sr,
           sel_fee = sr_best_fee sr \<rparr>)"

definition make_context ::
  "snote list \<Rightarrow> u64 list \<times> u32 list \<times> u64 list \<times> u32 list \<Rightarrow> u8 \<Rightarrow> u64 \<Rightarrow> bool \<Rightarrow> bool \<Rightarrow> u64
   \<Rightarrow> pool_mask \<Rightarrow> sctx" where
  "make_context notes agg n_assets f_unit migration rpf first_amount change_pools =
     (case agg of (output_amounts, n_outputs, asset_amounts, orchard_outputs) \<Rightarrow>
        \<lparr> c_notes = sort_notes notes, c_n_assets = n_assets,
          c_asset_output_amounts = asset_amounts, c_output_amounts = output_amounts,
          c_n_outputs = n_outputs, c_orchard_asset_outputs = orchard_outputs,
          c_f_unit = f_unit, c_migration = migration, c_recipient_pays_fee = rpf,
          c_first_recipient_amount = first_amount, c_change_pools = change_pools \<rparr>)"

definition solve_context :: "(nat \<Rightarrow> bool) \<Rightarrow> sctx \<Rightarrow> selection option panics" where
  "solve_context elapsed ctx =
     do {
       base \<leftarrow> baseline ctx;
       (case base of
          None \<Rightarrow> Some None
        | Some sol \<Rightarrow>
            do {
              sr0 \<leftarrow> start_search ctx sol;
              sr \<leftarrow> search_loop elapsed ctx 0 sr0;
              Some (Some (build_selection ctx sr))
            })
     }"

definition select_notes ::
  "(nat \<Rightarrow> bool) \<Rightarrow> snote list \<Rightarrow> soutput list \<Rightarrow> u64 \<Rightarrow> bool \<Rightarrow> bool \<Rightarrow> u64 \<Rightarrow> pool_mask
   \<Rightarrow> selection option panics" where
  "select_notes elapsed notes outputs f_unit migration recipient_pays_fee
     first_recipient_amount change_pools =
     (let filtered = dust_filter f_unit notes
      in if filtered = [] then Some None
         else do {
           agg \<leftarrow> aggregate_outputs outputs;
           solve_context elapsed
             (make_context filtered agg (count_assets outputs) f_unit migration
                recipient_pays_fee first_recipient_amount change_pools)
         })"

end
