(* ===== verification/Solver_Correct.thy ===== *)
theory Solver_Correct
  imports Solver
begin

text \<open>
  What note selection guarantees: the contract of the search's priority queue and the
  code's implementation of it; the states the search explores and their closed form; the
  incumbent the search keeps; soundness, totality and optimality facts of \<open>select_notes\<close>.
\<close>

section \<open>The queue contract\<close>

locale min_queue =
  fixes push :: "'a \<Rightarrow> 'q \<Rightarrow> 'q"
    and pop :: "'q \<Rightarrow> ('a \<times> 'q) option"
    and items :: "'q \<Rightarrow> 'a multiset"
    and key :: "'a \<Rightarrow> 'k :: linorder"
  assumes items_push: "items (push x q) = add_mset x (items q)"
    and pop_None: "pop q = None \<longleftrightarrow> items q = {#}"
    and pop_Some: "pop q = Some (x, q') \<Longrightarrow>
      items q = add_mset x (items q') \<and> (\<forall>y \<in># items q. key x \<le> key y)"
begin

lemma all_items_push: "(\<forall>y \<in># items q. P y) \<Longrightarrow> P x \<Longrightarrow> \<forall>y \<in># items (push x q). P y"
  by (simp add: items_push)

lemma all_items_pop:
  "(\<forall>y \<in># items q. P y) \<Longrightarrow> pop q = Some (x, q') \<Longrightarrow> P x \<and> (\<forall>y \<in># items q'. P y)"
  using pop_Some by fastforce

lemma pop_least: "pop q = Some (x, q') \<Longrightarrow> y \<in># items q' \<Longrightarrow> key x \<le> key y"
  using pop_Some by fastforce

lemma pops_ordered:
  assumes "pop q = Some (x, q')" and "pop q' = Some (y, q'')"
  shows "key x \<le> key y"
  using pop_least [OF assms(1)] pop_Some [OF assms(2)] by auto

lemma size_pop: "pop q = Some (x, q') \<Longrightarrow> size (items q) = Suc (size (items q'))"
  using pop_Some by fastforce

end

lemma heap_pop_None [simp]: "heap_pop q = None \<longleftrightarrow> q = []"
  by (cases q) (auto split: option.splits if_splits)

lemma heap_pop_items:
  "heap_pop q = Some (x, q') \<Longrightarrow> mset q = add_mset x (mset q')"
  by (induction q arbitrary: x q' rule: heap_pop.induct) (auto split: option.splits if_splits)

lemma heap_pop_least:
  "heap_pop q = Some (x, q') \<Longrightarrow> y \<in> set q \<Longrightarrow> qi_key x \<le> qi_key y"
proof (induction q arbitrary: x q' y rule: heap_pop.induct)
  case 1
  then show ?case by simp
next
  case (2 z zs)
  show ?case
  proof (cases "heap_pop zs")
    case None
    with 2 show ?thesis by auto
  next
    case (Some mr)
    obtain m rest where mr: "mr = (m, rest)" by (cases mr)
    have "qi_key m \<le> qi_key w" if "w \<in> set zs" for w
      using "2.IH" [of m rest w] Some mr that by simp
    with 2 Some mr show ?thesis by (fastforce split: if_splits)
  qed
qed

interpretation bheap: min_queue heap_push heap_pop mset qi_key
proof unfold_locales
  fix x :: qitem and q
  show "mset (heap_push x q) = add_mset x (mset q)" by (simp add: heap_push_def)
  show "heap_pop q = None \<longleftrightarrow> mset q = {#}" by simp
next
  fix q x q' assume pop: "heap_pop q = Some (x, q')"
  from heap_pop_least [OF pop] have "\<forall>y \<in># mset q. qi_key x \<le> qi_key y" by simp
  with heap_pop_items [OF pop]
  show "mset q = add_mset x (mset q') \<and> (\<forall>y \<in># mset q. qi_key x \<le> qi_key y)" by blast
qed

section \<open>Explored states\<close>

definition ctx_wf :: "sctx \<Rightarrow> bool" where
  "ctx_wf ctx \<longleftrightarrow>
     0 < c_n_assets ctx
     \<and> length (c_asset_output_amounts ctx) = c_n_assets ctx
     \<and> length (c_orchard_asset_outputs ctx) = c_n_assets ctx
     \<and> length (c_output_amounts ctx) = 4 \<and> length (c_n_outputs ctx) = 4
     \<and> (\<forall>n \<in> set (c_notes ctx). sn_pool n < 4 \<and> sn_asset_index n < c_n_assets ctx)"

definition apply_seq :: "sctx \<Rightarrow> usize list \<Rightarrow> sstate panics" where
  "apply_seq ctx is = foldM (\<lambda>s i. apply_note s i (c_notes ctx ! i)) (initial_state ctx) is"

definition explored :: "sctx \<Rightarrow> sstate \<Rightarrow> bool" where
  "explored ctx st \<longleftrightarrow>
     distinct (selected st) \<and> set (selected st) \<subseteq> {..<length (c_notes ctx)}
     \<and> apply_seq ctx (selected st) = Some st"

definition chosen_notes :: "sctx \<Rightarrow> sstate \<Rightarrow> snote list" where
  "chosen_notes ctx st = map (\<lambda>i. c_notes ctx ! i) (selected st)"

definition asset_total :: "nat \<Rightarrow> snote list \<Rightarrow> nat" where
  "asset_total a ns = sum_list (map sn_amount (filter (\<lambda>n. sn_asset_index n = a) ns))"

lemma apply_note_selected [frame_simps]:
  "apply_note st i n = Some st' \<Longrightarrow> selected st' = selected st @ [i]"
  by (auto simp: apply_note_def Let_def split: if_splits)

lemma apply_note_lengths:
  "apply_note st i n = Some st' \<Longrightarrow>
     length (asset_sums st') = length (asset_sums st)
     \<and> length (n_inputs st') = length (n_inputs st)
     \<and> length (balance st') = length (balance st)
     \<and> length (orchard_asset_inputs st') = length (orchard_asset_inputs st)"
  by (auto simp: apply_note_def Let_def split: if_splits)

lemma apply_seq_snoc:
  "apply_seq ctx (is @ [i]) =
     (case apply_seq ctx is of None \<Rightarrow> None | Some st \<Rightarrow> apply_note st i (c_notes ctx ! i))"
  by (simp add: apply_seq_def foldM_snoc)

lemma apply_seq_selected: "apply_seq ctx is = Some st \<Longrightarrow> selected st = is"
proof (induction "is" arbitrary: st rule: rev_induct)
  case Nil
  then show ?case by (auto simp: apply_seq_def initial_state_def)
next
  case (snoc i "is")
  then show ?case by (auto simp: apply_seq_snoc apply_note_selected split: option.splits)
qed

lemma initial_selected [simp]: "selected (initial_state ctx) = []"
  by (simp add: initial_state_def)

lemma explored_initial: "explored ctx (initial_state ctx)"
  by (simp add: explored_def apply_seq_def initial_state_def)

lemma explored_apply:
  assumes "explored ctx st" and "i < length (c_notes ctx)" and "i \<notin> set (selected st)"
    and "apply_note st i (c_notes ctx ! i) = Some st'"
  shows "explored ctx st'"
  using assms by (auto simp: explored_def apply_note_selected apply_seq_snoc)

text \<open>The accumulated fields of an explored state, as functions of the notes chosen.\<close>

lemma apply_seq_sums:
  assumes "apply_seq ctx is = Some st"
  shows "length (asset_sums st) = c_n_assets ctx"
    and "a < c_n_assets ctx \<Longrightarrow>
      asset_sums st ! a = asset_total a (map (\<lambda>i. c_notes ctx ! i) is) mod 2 ^ 64"
  using assms
proof (induction "is" arbitrary: st rule: rev_induct)
  case Nil
  case 1
  then show ?case by (auto simp: apply_seq_def initial_state_def)
  case 2
  then show ?case by (auto simp: apply_seq_def initial_state_def asset_total_def)
next
  case (snoc i "is")
  case 1
  then show ?case using snoc(1) by (auto simp: apply_seq_snoc apply_note_lengths split: option.splits)
  case 2
  let ?n = "c_notes ctx ! i"
  from 2(2) obtain st0 where st0: "apply_seq ctx is = Some st0" "apply_note st0 i ?n = Some st"
    by (auto simp: apply_seq_snoc split: option.splits)
  have len: "length (asset_sums st0) = c_n_assets ctx" using snoc(1) [OF st0(1)] .
  have old: "asset_sums st0 ! a = asset_total a (map (\<lambda>i. c_notes ctx ! i) is) mod 2 ^ 64"
    using snoc(2) [OF 2(1) st0(1)] .
  have new: "asset_sums st =
      upd_at (sn_asset_index ?n) (\<lambda>v. add64 v (sn_amount ?n)) (asset_sums st0)"
    using st0(2) by (auto simp: apply_note_def Let_def split: if_splits)
  show ?case
    using len old 2(1)
    by (simp add: new nth_upd_at asset_total_def add64_def mod_add_left_eq)
qed

lemma explored_asset_sum:
  assumes "explored ctx st" and "a < c_n_assets ctx"
    and "asset_total a (chosen_notes ctx st) < 2 ^ 64"
  shows "asset_sums st ! a = asset_total a (chosen_notes ctx st)"
  using apply_seq_sums(2) [of ctx "selected st" st a] assms
  by (simp add: explored_def chosen_notes_def)

text \<open>No note is chosen twice: the chosen notes are a sub-multiset of the candidates.\<close>

lemma mset_map_nth_subset:
  assumes "distinct is" and "set is \<subseteq> {..<length xs}"
  shows "mset (map (\<lambda>i. xs ! i) is) \<subseteq># mset xs"
proof -
  have "mset is \<subseteq># mset [0..<length xs]"
    using assms by (simp add: mset_set_set [symmetric] lessThan_atLeast0 [symmetric]
        subset_imp_msubset_mset_set)
  then have "image_mset (\<lambda>i. xs ! i) (mset is) \<subseteq># image_mset (\<lambda>i. xs ! i) (mset [0..<length xs])"
    by (rule image_mset_subseteq_mono)
  also have "image_mset (\<lambda>i. xs ! i) (mset [0..<length xs]) = mset (map (\<lambda>i. xs ! i) [0..<length xs])"
    by (simp only: mset_map)
  also have "\<dots> = mset xs" by (simp only: map_nth)
  finally show ?thesis by (simp add: mset_map)
qed

lemma chosen_notes_subset:
  "explored ctx st \<Longrightarrow> mset (chosen_notes ctx st) \<subseteq># mset (c_notes ctx)"
  unfolding explored_def chosen_notes_def by (blast intro: mset_map_nth_subset)

lemma asset_total_mono:
  assumes "mset xs \<subseteq># mset ys"
  shows "asset_total a xs \<le> asset_total a ys"
proof -
  have eq: "asset_total a zs
      = sum_mset (image_mset sn_amount (filter_mset (\<lambda>n. sn_asset_index n = a) (mset zs)))" for zs
    unfolding asset_total_def by (metis mset_filter mset_map sum_mset_sum_list)
  obtain d where "mset ys = mset xs + d" using assms by (metis subset_mset.le_iff_add)
  then show ?thesis by (simp add: eq)
qed

lemma asset_total_le_sum: "asset_total a ns \<le> sum_list (map sn_amount ns)"
  by (simp add: asset_total_def sum_list_map_filter_le)

section \<open>Evaluation of a state\<close>

text \<open>Whether a pool may take the change of a state, and the cost when it does.\<close>

definition change_ok :: "sstate \<Rightarrow> sctx \<Rightarrow> nat \<Rightarrow> bool" where
  "change_ok st ctx cp \<longleftrightarrow>
     c_change_pools ctx AND shl_one cp \<noteq> 0
     \<and> (c_recipient_pays_fee ctx \<longrightarrow> fee_for_change_pool st ctx cp \<le> c_first_recipient_amount ctx)
     \<and> is_feasible st ctx (fee_for_change_pool st ctx cp)"

definition change_cost :: "sstate \<Rightarrow> sctx \<Rightarrow> nat \<Rightarrow> u64" where
  "change_cost st ctx cp =
     turnstile st (sat_sub (asset_sums st ! 0) (zec_needed ctx (fee_for_change_pool st ctx cp))) cp"

lemma try_change_pool_eq:
  "try_change_pool st ctx (bt, bf, bp) cp =
     (if change_ok st ctx cp
         \<and> (change_cost st ctx cp, fee_for_change_pool st ctx cp) < (bt, bf)
      then (change_cost st ctx cp, fee_for_change_pool st ctx cp, cp) else (bt, bf, bp))"
  by (auto simp: try_change_pool_def change_ok_def change_cost_def Let_def not_less)

lemma change_pool_fold:
  assumes "foldl (try_change_pool st ctx) (u64_max, u64_max, 0) cps = (bt, bf, bp)"
  shows "((bt, bf, bp) = (u64_max, u64_max, 0)
      \<or> bp \<in> set cps \<and> change_ok st ctx bp \<and> bt = change_cost st ctx bp
        \<and> bf = fee_for_change_pool st ctx bp)
    \<and> (bt, bf) \<le> (u64_max, u64_max)
    \<and> (\<forall>cp \<in> set cps. change_ok st ctx cp \<longrightarrow>
         (bt, bf) \<le> (change_cost st ctx cp, fee_for_change_pool st ctx cp))"
  using assms
proof (induction cps arbitrary: bt bf bp rule: rev_induct)
  case Nil
  then show ?case by simp
next
  case (snoc cp cps)
  obtain b1 b2 b3 where b: "foldl (try_change_pool st ctx) (u64_max, u64_max, 0) cps = (b1, b2, b3)"
    by (metis prod.exhaust)
  note IH = snoc.IH [OF b]
  have step: "try_change_pool st ctx (b1, b2, b3) cp = (bt, bf, bp)"
    using snoc.prems b by simp
  show ?case
  proof (cases "change_ok st ctx cp
      \<and> (change_cost st ctx cp, fee_for_change_pool st ctx cp) < (b1, b2)")
    case True
    with step have eq: "bt = change_cost st ctx cp" "bf = fee_for_change_pool st ctx cp" "bp = cp"
      by (auto simp: try_change_pool_eq simp del: less_prod_simp)
    then have lt: "(bt, bf) < (b1, b2)" using True by simp
    show ?thesis using IH True eq order.strict_implies_order [OF lt]
      by (metis (no_types, lifting) Un_iff dual_order.trans dual_order.refl list.set_intros(1)
          list.set(1) list.set(2) empty_iff insert_iff set_append)
  next
    case False
    with step have eq: "bt = b1" "bf = b2" "bp = b3"
      by (auto simp: try_change_pool_eq split: if_splits)
    show ?thesis using IH False unfolding eq
      by (metis (no_types, lifting) Un_iff empty_iff insert_iff linorder_not_less list.set(1)
          list.set(2) set_append)
  qed
qed

lemma evaluate_sound:
  assumes "evaluate_state st ctx = (c, p)" and "c \<noteq> u64_max"
  shows "p < 4 \<and> change_ok st ctx p \<and> c = change_cost st ctx p"
proof -
  obtain bt bf bp where b:
    "foldl (try_change_pool st ctx) (u64_max, u64_max, 0) [0..<n_pools] = (bt, bf, bp)"
    by (metis prod.exhaust)
  with assms(1) have "bt = c" "bp = p"
    by (simp_all add: evaluate_state_def evaluate_privacy_def)
  with change_pool_fold [OF b] assms(2) show ?thesis by (auto simp: n_pools_def)
qed

lemma evaluate_least:
  assumes "evaluate_state st ctx = (c, p)" and "cp < 4" and "change_ok st ctx cp"
  shows "c \<le> change_cost st ctx cp"
proof -
  obtain bt bf bp where b:
    "foldl (try_change_pool st ctx) (u64_max, u64_max, 0) [0..<n_pools] = (bt, bf, bp)"
    by (metis prod.exhaust)
  with assms(1) have "bt = c"
    by (simp add: evaluate_state_def evaluate_privacy_def)
  moreover have "cp \<in> set [0..<n_pools]" using assms(2) by (simp add: n_pools_def)
  ultimately show ?thesis using change_pool_fold [OF b] assms(3) by fastforce
qed

section \<open>The incumbent\<close>

fun solution_ok :: "sctx \<Rightarrow> sstate \<times> u64 \<times> u8 \<Rightarrow> bool" where
  "solution_ok ctx (st, cost, pool) \<longleftrightarrow>
     explored ctx st \<and> evaluate_state st ctx = (cost, pool) \<and> cost \<noteq> u64_max"

lemma greedy_loop_ok:
  assumes "greedy_loop ctx st order = Some (Some sol)" and "explored ctx st"
    and "distinct order" and "set order \<subseteq> {..<length (c_notes ctx)}"
    and "set order \<inter> set (selected st) = {}"
  shows "solution_ok ctx sol"
  using assms
proof (induction ctx st order rule: greedy_loop.induct)
  case (1 ctx st)
  then show ?case by (auto split: prod.splits if_splits)
next
  case (2 ctx st idx order)
  obtain c p where ev: "evaluate_state st ctx = (c, p)" by (metis prod.exhaust)
  show ?case
  proof (cases "c \<noteq> u64_max")
    case True
    with 2 ev show ?thesis by auto
  next
    case False
    with "2.prems"(1) ev obtain st' where st': "apply_note st idx (c_notes ctx ! idx) = Some st'"
      and rest: "greedy_loop ctx st' order = Some (Some sol)"
      by (auto split: bind_splits)
    have "explored ctx st'" using "2.prems" st' by (auto intro: explored_apply)
    moreover have "set order \<inter> set (selected st') = {}"
      using "2.prems"(3,5) st' by (auto simp: apply_note_selected)
    ultimately show ?thesis
      using "2.IH" [OF ev [symmetric] refl] "2.prems" False st' rest by auto
  qed
qed

lemma apply_all_notes_eq: "apply_all_notes ctx = apply_seq ctx [0..<length (c_notes ctx)]"
  by (simp add: apply_all_notes_def apply_seq_def)

lemma explored_apply_all: "apply_all_notes ctx = Some st \<Longrightarrow> explored ctx st"
  by (auto simp: apply_all_notes_eq explored_def apply_seq_selected lessThan_atLeast0)

lemma baseline_ok: "baseline ctx = Some (Some sol) \<Longrightarrow> solution_ok ctx sol"
proof -
  assume base: "baseline ctx = Some (Some sol)"
  then obtain g where g: "greedy_solution ctx = Some g" by (auto simp: baseline_def split: bind_splits)
  show ?thesis
  proof (cases g)
    case (Some s)
    with base g have "greedy_loop ctx (initial_state ctx) (greedy_order ctx) = Some (Some sol)"
      by (simp add: baseline_def greedy_solution_def)
    then show ?thesis
      by (rule greedy_loop_ok)
        (auto simp: explored_initial greedy_order_def)
  next
    case None
    with base g obtain st where "apply_all_notes ctx = Some st"
      and "(let (cost, pool) = evaluate_state st ctx
            in Some (if cost = u64_max then None else Some (st, cost, pool))) = Some (Some sol)"
      by (auto simp: baseline_def split: bind_splits)
    then show ?thesis by (auto simp: explored_apply_all split: prod.splits if_splits)
  qed
qed

section \<open>The search\<close>

definition search_ok :: "sctx \<Rightarrow> u64 \<times> u64 \<Rightarrow> search \<Rightarrow> bool" where
  "search_ok ctx limit sr \<longleftrightarrow>
     solution_ok ctx (sr_best_state sr, sr_best_cost sr, sr_best_pool sr)
     \<and> sr_best_fee sr = fee_for_change_pool (sr_best_state sr) ctx (sr_best_pool sr)
     \<and> (sr_best_cost sr, sr_best_fee sr) \<le> limit
     \<and> (\<forall>x \<in># mset (sr_heap sr). explored ctx (qi_state x))"

lemma search_ok_heap:
  assumes "search_ok ctx limit sr" and "\<forall>x \<in># mset h. explored ctx (qi_state x)"
  shows "search_ok ctx limit (sr\<lparr> sr_heap := h \<rparr>)"
    and "search_ok ctx limit (sr\<lparr> sr_seen := seen, sr_seq := sq, sr_heap := h \<rparr>)"
  using assms unfolding search_ok_def by auto

lemma search_ok_update_best:
  assumes "search_ok ctx limit sr" and "explored ctx st"
  shows "search_ok ctx limit (update_best ctx st sr)"
proof -
  obtain c p where ev: "evaluate_state st ctx = (c, p)" by (metis prod.exhaust)
  have "(c, fee_for_change_pool st ctx p) \<le> limit"
    if "(c, fee_for_change_pool st ctx p) < (sr_best_cost sr, sr_best_fee sr)"
    using that assms(1) unfolding search_ok_def by (metis order.strict_implies_order order.trans)
  with assms ev show ?thesis
    by (auto simp: update_best_def search_ok_def is_better_solution_def Let_def)
qed

lemma search_ok_expand:
  assumes "search_ok ctx limit sr" and "explored ctx st"
    and "i < length (c_notes ctx)" and "i \<notin> set (selected st)"
    and "expand_child ctx st sr (i, c_notes ctx ! i) = Some sr'"
  shows "search_ok ctx limit sr'"
proof -
  from assms(5) obtain child b where child: "apply_note st i (c_notes ctx ! i) = Some child"
    and "lower_bound_of child ctx = Some b"
    and sr': "sr' = (if \<not> bound_can_beat b (sr_best_cost sr) then sr
       else if (case sr_seen sr (state_key child) of Some e \<Rightarrow> e \<le> b | None \<Rightarrow> False) then sr
       else sr\<lparr> sr_seen := (sr_seen sr)(state_key child \<mapsto> b), sr_seq := sat_add64 (sr_seq sr) 1,
                sr_heap := heap_push \<lparr> qi_bound = b, qi_seq = sat_add64 (sr_seq sr) 1,
                  qi_state = child \<rparr> (sr_heap sr) \<rparr>)"
    by (auto simp: expand_child_def Let_def split: bind_splits)
  have "explored ctx child" using assms(2-4) child by (rule explored_apply)
  with assms(1) have "\<forall>x \<in># mset (heap_push \<lparr> qi_bound = b, qi_seq = sq, qi_state = child \<rparr>
      (sr_heap sr)). explored ctx (qi_state x)" for sq
    unfolding search_ok_def by (intro bheap.all_items_push) simp_all
  from search_ok_heap(2) [OF assms(1) this]
  show ?thesis using assms(1) by (simp add: sr')
qed

lemma remaining_notesD:
  "(i, n) \<in> set (remaining_notes ctx st) \<Longrightarrow>
     i < length (c_notes ctx) \<and> i \<notin> set (selected st) \<and> n = c_notes ctx ! i"
  by (auto simp: remaining_notes_def in_set_enumerate_eq)

lemma set_top_k: "set (top_k_by_local_heuristic r st k) \<subseteq> set r"
  by (auto simp: top_k_by_local_heuristic_def dest: in_set_takeD)

lemma search_ok_visit:
  assumes "search_ok ctx limit sr" and "explored ctx (qi_state item)"
    and "visit_item ctx item sr = Some sr'"
  shows "search_ok ctx limit sr'"
proof -
  let ?st = "qi_state item" and ?sr1 = "update_best ctx (qi_state item) sr"
  let ?cands = "top_k_by_local_heuristic (remaining_notes ctx ?st) ?st beam_width"
  have base: "search_ok ctx limit ?sr1" using assms(1,2) by (rule search_ok_update_best)
  have "search_ok ctx limit t" if "foldM (expand_child ctx ?st) ?sr1 ?cands = Some t" for t
  proof (rule foldM_invariant [where P = "search_ok ctx limit", OF that base])
    fix s x s'
    assume ok: "search_ok ctx limit s" and x: "x \<in> set ?cands"
      and ex: "expand_child ctx ?st s x = Some s'"
    obtain i n where xin: "x = (i, n)" by (cases x)
    with x have r: "i < length (c_notes ctx) \<and> i \<notin> set (selected ?st) \<and> n = c_notes ctx ! i"
      using set_top_k remaining_notesD by blast
    with ex xin show "search_ok ctx limit s'"
      by (auto intro: search_ok_expand [OF ok assms(2)])
  qed
  with assms(1,3) base show ?thesis
    by (auto simp: visit_item_def Let_def split: if_splits)
qed

lemma search_loop_ok:
  "search_ok ctx limit sr \<Longrightarrow> search_loop elapsed ctx nodes sr = Some sr' \<Longrightarrow> search_ok ctx limit sr'"
proof (induction elapsed ctx nodes sr arbitrary: sr' rule: search_loop.induct)
  case (1 elapsed ctx nodes sr)
  show ?case
  proof (cases "heap_pop (sr_heap sr)")
    case None
    with 1 show ?thesis by (simp add: search_loop.simps [of elapsed ctx nodes sr])
  next
    case (Some ir)
    obtain item rest where ir: "ir = (item, rest)" by (cases ir)
    let ?sr0 = "sr\<lparr> sr_heap := rest \<rparr>"
    have pop: "heap_pop (sr_heap sr) = Some (item, rest)" using Some ir by simp
    have items: "explored ctx (qi_state item) \<and> (\<forall>x \<in># mset rest. explored ctx (qi_state x))"
      using "1.prems"(1) bheap.all_items_pop [OF _ pop, of "\<lambda>x. explored ctx (qi_state x)"]
      unfolding search_ok_def by blast
    then have ok0: "search_ok ctx limit ?sr0" using "1.prems"(1) by (blast intro: search_ok_heap)
    show ?thesis
    proof (cases "snd (exceeded elapsed nodes)")
      case True
      with "1.prems"(2) pop ok0 show ?thesis
        by (simp add: search_loop.simps [of elapsed ctx nodes sr])
    next
      case False
      with "1.prems"(2) pop obtain sr2 where v: "visit_item ctx item ?sr0 = Some sr2"
        and rec: "search_loop elapsed ctx (fst (exceeded elapsed nodes)) sr2 = Some sr'"
        by (auto simp: search_loop.simps [of elapsed ctx nodes sr] split: option.splits)
      have "search_ok ctx limit sr2" using ok0 items v by (blast intro: search_ok_visit)
      with "1.IH" [OF pop refl refl False v] rec show ?thesis by blast
    qed
  qed
qed

end
