(* ===== verification/Select_Notes.thy ===== *)
theory Select_Notes
  imports Solver_Correct
begin

text \<open>
  The guarantees of \<open>select_notes\<close> itself, derived from the incumbent invariant of
  \<open>Solver_Correct\<close>: what the selected notes cover, where they come from, that a selection
  exists whenever the greedy baseline finds one, and that the search never makes it worse.
\<close>

section \<open>From the entry point to the incumbent\<close>

definition output_total :: "nat \<Rightarrow> soutput list \<Rightarrow> nat" where
  "output_total a outs = sum_list (map so_amount (filter (\<lambda>o'. so_asset_index o' = a) outs))"

definition output_count :: "nat \<Rightarrow> soutput list \<Rightarrow> nat" where
  "output_count p outs = length (filter (\<lambda>o'. so_pool o' = p) outs)"

definition output_in_pool :: "nat \<Rightarrow> soutput list \<Rightarrow> nat" where
  "output_in_pool p outs = sum_list (map so_amount (filter (\<lambda>o'. so_pool o' = p) outs))"

definition selection_ctx ::
  "snote list \<Rightarrow> soutput list \<Rightarrow> u64 \<Rightarrow> bool \<Rightarrow> bool \<Rightarrow> u64 \<Rightarrow> pool_mask \<Rightarrow> sctx panics" where
  "selection_ctx notes outputs f_unit migration rpf first_amount cpools =
     map_option (\<lambda>agg. make_context (dust_filter f_unit notes) agg (count_assets outputs)
       f_unit migration rpf first_amount cpools) (aggregate_outputs outputs)"

lemma select_notes_SomeD:
  assumes "select_notes elapsed notes outputs f_unit migration rpf first_amount cpools = Some (Some sel)"
  obtains ctx where
    "selection_ctx notes outputs f_unit migration rpf first_amount cpools = Some ctx"
    "solve_context elapsed ctx = Some (Some sel)"
  using assms that
  by (auto simp: select_notes_def selection_ctx_def Let_def split: if_splits bind_splits)

lemma start_search_ok:
  assumes "solution_ok ctx (st, cost, pool)" and "start_search ctx (st, cost, pool) = Some sr"
  shows "search_ok ctx (cost, fee_for_change_pool st ctx pool) sr"
  using assms
  by (auto simp: start_search_def search_ok_def heap_push_def explored_initial Let_def
      split: bind_splits)

lemma solve_context_ok:
  assumes "solve_context elapsed ctx = Some (Some sel)"
  obtains st cost pool sr where
    "baseline ctx = Some (Some (st, cost, pool))"
    "solution_ok ctx (st, cost, pool)"
    "search_ok ctx (cost, fee_for_change_pool st ctx pool) sr"
    "sel = build_selection ctx sr"
proof -
  from assms obtain sol where b: "baseline ctx = Some (Some sol)"
    and r: "do { sr0 \<leftarrow> start_search ctx sol; sr \<leftarrow> search_loop elapsed ctx 0 sr0;
              Some (Some (build_selection ctx sr)) } = Some (Some sel)"
    by (auto simp: solve_context_def split: bind_splits option.splits)
  obtain st cost pool where sol: "sol = (st, cost, pool)" by (cases sol)
  have ok: "solution_ok ctx (st, cost, pool)" using baseline_ok [OF b] sol by simp
  from r obtain sr0 sr where s0: "start_search ctx (st, cost, pool) = Some sr0"
    and s1: "search_loop elapsed ctx 0 sr0 = Some sr" and sel: "sel = build_selection ctx sr"
    unfolding sol by (auto split: bind_splits)
  from search_loop_ok [OF start_search_ok [OF ok s0] s1] b sol ok sel that show ?thesis
    by blast
qed

lemma solution_chosen:
  "search_ok ctx limit sr \<Longrightarrow> sel_inputs (build_selection ctx sr) = chosen_notes ctx (sr_best_state sr)"
  by (simp add: build_selection_def chosen_notes_def Let_def)

section \<open>Aggregation of the outputs\<close>

definition agg_inv :: "nat \<Rightarrow> soutput list \<Rightarrow> u64 list \<times> u32 list \<times> u64 list \<times> u32 list \<Rightarrow> bool" where
  "agg_inv n outs agg =
     (case agg of (oa, no, aa, oo) \<Rightarrow>
        length oa = 4 \<and> length no = 4 \<and> length aa = n \<and> length oo = n
        \<and> (\<forall>a < n. aa ! a = output_total a outs mod 2 ^ 64)
        \<and> (\<forall>p < 4. no ! p = min (output_count p outs) u32_max)
        \<and> (\<forall>p < 4. oa ! p = min (output_in_pool p outs) u64_max)
        \<and> (\<forall>o' \<in> set outs. so_asset_index o' < n))"

lemma add_output_inv:
  assumes "agg_inv n outs agg" and "add_output_to agg o' = Some agg'"
  shows "agg_inv n (outs @ [o']) agg'"
proof -
  obtain oa no aa oo where agg: "agg = (oa, no, aa, oo)" by (cases agg)
  have len: "so_asset_index o' < n"
    using assms by (auto simp: agg agg_inv_def add_output_to_def Let_def split: if_splits)
  have aa': "fst (snd (snd agg')) = upd_at (so_asset_index o') (\<lambda>v. add64 v (so_amount o')) aa"
    using assms(2) by (auto simp: agg add_output_to_def Let_def split: if_splits)
  obtain oa' no' aa1 oo' where agg': "agg' = (oa', no', aa1, oo')" by (cases agg')
  have "length oa' = 4 \<and> length no' = 4 \<and> length aa1 = n \<and> length oo' = n"
    using assms by (auto simp: agg agg' agg_inv_def add_output_to_def Let_def split: if_splits)
  moreover have "aa1 ! a = output_total a (outs @ [o']) mod 2 ^ 64" if "a < n" for a
    using aa' assms(1) that
    by (simp add: agg agg' agg_inv_def nth_upd_at output_total_def add64_def mod_add_left_eq)
  moreover have "no' ! p = min (output_count p (outs @ [o'])) u32_max" if "p < 4" for p
  proof -
    have "no' = (if so_pool o' < n_pools then upd_at (so_pool o') (\<lambda>v. sat_add32 v 1) no else no)"
      using assms(2) by (auto simp: agg agg' add_output_to_def Let_def split: if_splits)
    then show ?thesis using assms(1) that
      by (auto simp: agg agg_inv_def nth_upd_at output_count_def sat_add32_def n_pools_def)
  qed
  moreover have "oa' ! p = min (output_in_pool p (outs @ [o'])) u64_max" if "p < 4" for p
  proof -
    have "oa' = (if so_pool o' < n_pools then upd_at (so_pool o') (\<lambda>v. sat_add64 v (so_amount o')) oa
        else oa)"
      using assms(2) by (auto simp: agg agg' add_output_to_def Let_def split: if_splits)
    then show ?thesis using assms(1) that
      by (auto simp: agg agg_inv_def nth_upd_at output_in_pool_def sat_add64_def n_pools_def)
  qed
  ultimately show ?thesis using len assms(1) by (simp add: agg agg' agg_inv_def)
qed

lemma aggregate_prefix:
  "foldM add_output_to ([0, 0, 0, 0], [0, 0, 0, 0], replicate n 0, replicate n 0) outs = Some agg
   \<Longrightarrow> agg_inv n outs agg"
proof (induction outs arbitrary: agg rule: rev_induct)
  case Nil
  then show ?case by (auto simp: agg_inv_def output_total_def output_count_def output_in_pool_def
        all_below_4)
next
  case (snoc o' outs)
  then show ?case by (auto simp: foldM_snoc split: option.splits intro: add_output_inv)
qed

lemma aggregate_outputs_inv:
  "aggregate_outputs outs = Some agg \<Longrightarrow> agg_inv (count_assets outs) outs agg"
  by (simp add: aggregate_outputs_def Let_def aggregate_prefix)

lemma selection_ctxD:
  assumes "selection_ctx notes outputs f_unit migration rpf first_amount cpools = Some ctx"
  shows "c_n_assets ctx = count_assets outputs"
    and "c_recipient_pays_fee ctx = rpf" and "c_first_recipient_amount ctx = first_amount"
    and "c_change_pools ctx = cpools" and "c_f_unit ctx = f_unit" and "c_migration ctx = migration"
    and "c_notes ctx = sort_notes (dust_filter f_unit notes)"
    and "mset (c_notes ctx) = mset (dust_filter f_unit notes)"
    and "a < count_assets outputs \<Longrightarrow> c_asset_output_amounts ctx ! a = output_total a outputs mod 2 ^ 64"
    and "o' \<in> set outputs \<Longrightarrow> so_asset_index o' < count_assets outputs"
    and "length (c_asset_output_amounts ctx) = count_assets outputs"
    and "length (c_orchard_asset_outputs ctx) = count_assets outputs"
    and "length (c_output_amounts ctx) = 4" and "length (c_n_outputs ctx) = 4"
    and "p < 4 \<Longrightarrow> c_n_outputs ctx ! p = min (output_count p outputs) u32_max"
    and "p < 4 \<Longrightarrow> c_output_amounts ctx ! p = min (output_in_pool p outputs) u64_max"
  using assms
  by (auto simp: selection_ctx_def make_context_def sort_notes_def agg_inv_def
      dest!: aggregate_outputs_inv)

lemma output_total_le: "output_total a outs \<le> sum_list (map so_amount outs)"
  by (simp add: output_total_def sum_list_map_filter_le)

lemma mset_dust_filter: "mset (dust_filter f notes) \<subseteq># mset notes"
  by (simp add: dust_filter_def multiset_filter_subset)

lemma asset_total_le_all:
  "mset ns \<subseteq># mset ms \<Longrightarrow> asset_total a ns \<le> sum_list (map sn_amount ms)"
  by (meson asset_total_le_sum asset_total_mono order.trans)

section \<open>Coverage\<close>

lemma feasible_covers:
  assumes "explored ctx st" and "change_ok st ctx p" and "0 < c_n_assets ctx"
    and total: "sum_list (map sn_amount (c_notes ctx)) < u64_max"
    and outs: "\<And>a. a < c_n_assets ctx \<Longrightarrow> c_asset_output_amounts ctx ! a = out a"
  shows "a < c_n_assets ctx \<Longrightarrow> out a \<le> asset_total a (chosen_notes ctx st)"
    and "\<not> c_recipient_pays_fee ctx \<Longrightarrow>
      out 0 + fee_for_change_pool st ctx p \<le> asset_total 0 (chosen_notes ctx st)"
    and "c_recipient_pays_fee ctx \<Longrightarrow> fee_for_change_pool st ctx p \<le> c_first_recipient_amount ctx"
proof -
  have sum: "asset_sums st ! b = asset_total b (chosen_notes ctx st)"
    "asset_total b (chosen_notes ctx st) < u64_max" if "b < c_n_assets ctx" for b
  proof -
    show lt: "asset_total b (chosen_notes ctx st) < u64_max"
      using asset_total_le_all [OF chosen_notes_subset [OF assms(1)]] total
      by (rule order.strict_trans1)
    then have "asset_total b (chosen_notes ctx st) < 2 ^ 64" by simp
    then show "asset_sums st ! b = asset_total b (chosen_notes ctx st)"
      by (rule explored_asset_sum [OF assms(1) that])
  qed
  have feas: "is_feasible st ctx (fee_for_change_pool st ctx p)"
    using assms(2) by (simp add: change_ok_def)
  show "c_recipient_pays_fee ctx \<Longrightarrow> fee_for_change_pool st ctx p \<le> c_first_recipient_amount ctx"
    using assms(2) by (simp add: change_ok_def)
  have zec: "zec_needed ctx (fee_for_change_pool st ctx p) \<le> asset_total 0 (chosen_notes ctx st)"
    using feas sum(1) [OF assms(3)] by (simp add: is_feasible_def)
  show "\<not> c_recipient_pays_fee ctx \<Longrightarrow>
      out 0 + fee_for_change_pool st ctx p \<le> asset_total 0 (chosen_notes ctx st)"
    using zec sum(2) [OF assms(3)] outs [OF assms(3)]
    by (auto simp: zec_needed_def sat_add64_def min_def split: if_splits)
  show "out a \<le> asset_total a (chosen_notes ctx st)" if "a < c_n_assets ctx"
  proof (cases "a = 0")
    case True
    with zec sum(2) [OF assms(3)] outs [OF assms(3)] show ?thesis
      by (auto simp: zec_needed_def sat_add64_def min_def split: if_splits)
  next
    case False
    with that have "a \<in> set [1..<c_n_assets ctx]" by simp
    with feas have "\<not> asset_sums st ! a < c_asset_output_amounts ctx ! a"
      unfolding is_feasible_def list_all_iff by blast
    with sum(1) [OF that] outs [OF that] show ?thesis by simp
  qed
qed

lemma count_assets_pos:
  "o' \<in> set outs \<Longrightarrow> so_asset_index o' < count_assets outs \<Longrightarrow> 0 < count_assets outs"
  by simp

text \<open>The final incumbent of a run, with the notes it selects.\<close>

lemma select_notes_final:
  assumes "select_notes elapsed notes outputs f_unit migration rpf first_amount cpools = Some (Some sel)"
  obtains ctx sr where
    "selection_ctx notes outputs f_unit migration rpf first_amount cpools = Some ctx"
    "explored ctx (sr_best_state sr)"
    "sel_change_pool sel < 4"
    "change_ok (sr_best_state sr) ctx (sel_change_pool sel)"
    "sel_fee sel = fee_for_change_pool (sr_best_state sr) ctx (sel_change_pool sel)"
    "sel_inputs sel = chosen_notes ctx (sr_best_state sr)"
    "sel = build_selection ctx sr"
proof -
  obtain ctx where ctx: "selection_ctx notes outputs f_unit migration rpf first_amount cpools = Some ctx"
    and solve: "solve_context elapsed ctx = Some (Some sel)"
    using select_notes_SomeD [OF assms] .
  obtain limit sr where ok: "search_ok ctx limit sr" and sel: "sel = build_selection ctx sr"
    using solve_context_ok [OF solve] .
  have ev: "explored ctx (sr_best_state sr)"
    "evaluate_state (sr_best_state sr) ctx = (sr_best_cost sr, sr_best_pool sr)"
    "sr_best_cost sr \<noteq> u64_max"
    "sr_best_fee sr = fee_for_change_pool (sr_best_state sr) ctx (sr_best_pool sr)"
    using ok by (simp_all add: search_ok_def)
  have fields: "sel_change_pool sel = sr_best_pool sr" "sel_fee sel = sr_best_fee sr"
    by (simp_all add: sel build_selection_def Let_def)
  show ?thesis
    using that [OF ctx ev(1)] evaluate_sound [OF ev(2,3)] ev(4) fields
      solution_chosen [OF ok] sel by simp
qed

section \<open>Totality\<close>

lemma apply_note_total:
  "sn_asset_index n < length (asset_sums st) \<Longrightarrow> sn_pool n < 4 \<Longrightarrow> \<exists>st'. apply_note st i n = Some st'"
  by (simp add: apply_note_def Let_def n_pools_def)

lemma explored_asset_length: "explored ctx st \<Longrightarrow> length (asset_sums st) = c_n_assets ctx"
  by (auto simp: explored_def dest: apply_seq_sums(1))

lemma explored_step_total:
  assumes "ctx_wf ctx" and "explored ctx st" and "i < length (c_notes ctx)"
  shows "\<exists>st'. apply_note st i (c_notes ctx ! i) = Some st'"
  using assms by (intro apply_note_total) (simp_all add: ctx_wf_def explored_asset_length)

lemma apply_seq_total:
  assumes "ctx_wf ctx" and "set is \<subseteq> {..<length (c_notes ctx)}"
  shows "\<exists>st. apply_seq ctx is = Some st"
  using assms(2)
proof (induction "is" rule: rev_induct)
  case Nil
  then show ?case by (simp add: apply_seq_def)
next
  case (snoc i "is")
  then obtain st where st: "apply_seq ctx is = Some st" by auto
  have "sn_asset_index (c_notes ctx ! i) < length (asset_sums st)" "sn_pool (c_notes ctx ! i) < 4"
    using assms(1) snoc.prems apply_seq_sums(1) [OF st] by (simp_all add: ctx_wf_def)
  from apply_note_total [OF this] show ?case by (simp add: apply_seq_snoc st)
qed

lemma remaining_by_pool_total:
  assumes "\<forall>n \<in> set ns. sn_pool n < 4"
  shows "\<exists>r. remaining_by_pool ns chosen = Some r"
proof -
  have "\<exists>r. remaining_by_pool ns chosen = Some r \<and> True"
    unfolding remaining_by_pool_def
    by (rule foldM_total [where P = "\<lambda>_. True"])
      (use assms in \<open>auto simp: n_pools_def in_set_enumerate_eq split: prod.splits\<close>)
  then show ?thesis by simp
qed

lemma lower_bound_total: "ctx_wf ctx \<Longrightarrow> \<exists>b. lower_bound_of st ctx = Some b"
  using remaining_by_pool_total [of "c_notes ctx" "selected st"]
  by (auto simp: lower_bound_of_def lower_bound_privacy_def ctx_wf_def)

lemma greedy_loop_total:
  assumes "ctx_wf ctx" and "explored ctx st" and "distinct order"
    and "set order \<subseteq> {..<length (c_notes ctx)}" and "set order \<inter> set (selected st) = {}"
  shows "\<exists>r. greedy_loop ctx st order = Some r"
  using assms(2-)
proof (induction order arbitrary: st)
  case Nil
  then show ?case by (simp split: prod.splits)
next
  case (Cons i order)
  obtain st' where st': "apply_note st i (c_notes ctx ! i) = Some st'"
    using explored_step_total [OF assms(1) Cons.prems(1)] Cons.prems(3) by fastforce
  have "explored ctx st'" using Cons.prems st' by (auto intro: explored_apply)
  moreover have "set order \<inter> set (selected st') = {}"
    using Cons.prems(2,4) st' by (auto simp: apply_note_selected)
  ultimately obtain r where "greedy_loop ctx st' order = Some r"
    using Cons.IH [of st'] Cons.prems(2,3) by auto
  with st' show ?case by (simp split: prod.splits)
qed

lemma greedy_order_facts [simp]:
  "distinct (greedy_order ctx)" "set (greedy_order ctx) = {..<length (c_notes ctx)}"
  by (simp_all add: greedy_order_def lessThan_atLeast0)

lemma baseline_total:
  assumes "ctx_wf ctx" shows "\<exists>r. baseline ctx = Some r"
proof -
  obtain g where g: "greedy_solution ctx = Some g"
    using greedy_loop_total [OF assms explored_initial, of "greedy_order ctx"]
    by (auto simp: greedy_solution_def)
  obtain st where "apply_all_notes ctx = Some st"
    using apply_seq_total [OF assms, of "[0..<length (c_notes ctx)]"]
    by (auto simp: apply_all_notes_eq lessThan_atLeast0)
  with g show ?thesis by (cases g) (auto simp: baseline_def split: prod.splits)
qed

definition heap_explored :: "sctx \<Rightarrow> search \<Rightarrow> bool" where
  "heap_explored ctx sr \<longleftrightarrow> (\<forall>x \<in># mset (sr_heap sr). explored ctx (qi_state x))"

lemma heap_explored_update [simp]: "heap_explored ctx (update_best ctx st sr) = heap_explored ctx sr"
  by (simp add: heap_explored_def update_best_def Let_def split: prod.splits)

lemma expand_child_total:
  assumes "ctx_wf ctx" and "explored ctx st" and "(i, n) \<in> set (remaining_notes ctx st)"
    and "heap_explored ctx sr"
  shows "\<exists>sr'. expand_child ctx st sr (i, n) = Some sr' \<and> heap_explored ctx sr'"
proof -
  note r = remaining_notesD [OF assms(3)]
  obtain child where child: "apply_note st i n = Some child"
    using explored_step_total [OF assms(1,2)] r by blast
  obtain b where b: "lower_bound_of child ctx = Some b" using lower_bound_total [OF assms(1)] by blast
  have "explored ctx child" using explored_apply [OF assms(2), of i child] r child by simp
  with assms(4) child b show ?thesis
    by (auto simp: expand_child_def Let_def heap_explored_def heap_push_def)
qed

lemma visit_item_total:
  assumes "ctx_wf ctx" and "explored ctx (qi_state item)" and "heap_explored ctx sr"
  shows "\<exists>sr'. visit_item ctx item sr = Some sr' \<and> heap_explored ctx sr'"
proof -
  let ?st = "qi_state item"
  let ?cands = "top_k_by_local_heuristic (remaining_notes ctx ?st) ?st beam_width"
  have "\<exists>t. foldM (expand_child ctx ?st) (update_best ctx ?st sr) ?cands = Some t
      \<and> heap_explored ctx t"
  proof (rule foldM_total)
    show "heap_explored ctx (update_best ctx ?st sr)" using assms(3) by simp
    fix s x assume s: "heap_explored ctx s" and "x \<in> set ?cands"
    then have x: "x \<in> set (remaining_notes ctx ?st)" using set_top_k by blast
    obtain i n where "x = (i, n)" by (cases x)
    with x expand_child_total [OF assms(1,2) _ s]
    show "\<exists>s'. expand_child ctx ?st s x = Some s' \<and> heap_explored ctx s'" by blast
  qed
  with assms(3) show ?thesis by (simp add: visit_item_def Let_def)
qed

lemma search_loop_total:
  assumes "ctx_wf ctx"
  shows "heap_explored ctx sr \<Longrightarrow> \<exists>sr'. search_loop elapsed ctx nodes sr = Some sr'"
  using assms
proof (induction elapsed ctx nodes sr rule: search_loop.induct)
  case (1 elapsed ctx nodes sr)
  note unroll = search_loop.simps [of elapsed ctx nodes sr]
  show ?case
  proof (cases "heap_pop (sr_heap sr)")
    case None
    then show ?thesis by (simp add: unroll)
  next
    case (Some ir)
    obtain item rest where pop: "heap_pop (sr_heap sr) = Some (item, rest)"
      using Some by (cases ir) simp
    have ex: "explored ctx (qi_state item)" "heap_explored ctx (sr\<lparr> sr_heap := rest \<rparr>)"
      using bheap.all_items_pop [OF _ pop, of "\<lambda>x. explored ctx (qi_state x)"] 1(2)
      by (simp_all add: heap_explored_def)
    obtain sr' where v: "visit_item ctx item (sr\<lparr> sr_heap := rest \<rparr>) = Some sr'"
      "heap_explored ctx sr'"
      using visit_item_total [OF 1(3) ex] by blast
    show ?thesis
    proof (cases "snd (exceeded elapsed nodes)")
      case True
      with pop show ?thesis by (simp add: unroll)
    next
      case False
      with "1.IH" [OF pop refl refl False v(1,2) 1(3)] pop v(1) show ?thesis by (simp add: unroll)
    qed
  qed
qed

lemma solve_context_total:
  assumes "ctx_wf ctx"
  shows "\<exists>r. solve_context elapsed ctx = Some r
    \<and> (r = None \<longleftrightarrow> baseline ctx = Some None)"
proof -
  obtain base where b: "baseline ctx = Some base" using baseline_total [OF assms] by blast
  show ?thesis
  proof (cases base)
    case None
    with b show ?thesis by (simp add: solve_context_def)
  next
    case (Some sol)
    obtain lb where lb: "lower_bound_of (initial_state ctx) ctx = Some lb"
      using lower_bound_total [OF assms] by blast
    obtain sr0 where s0: "start_search ctx sol = Some sr0" "heap_explored ctx sr0"
      using lb by (cases sol) (auto simp: start_search_def heap_explored_def heap_push_def
          explored_initial)
    obtain sr where "search_loop elapsed ctx 0 sr0 = Some sr"
      using search_loop_total [OF assms s0(2)] by blast
    with b Some s0(1) show ?thesis by (simp add: solve_context_def)
  qed
qed

section \<open>The counters of a state\<close>

definition pool_count :: "nat \<Rightarrow> snote list \<Rightarrow> nat" where
  "pool_count p ns = length (filter (\<lambda>n. sn_pool n = p) ns)"

definition transparent_size :: "snote list \<Rightarrow> nat" where
  "transparent_size ns = sum_list (map input_size (filter (\<lambda>n. sn_pool n = 0) ns))"

lemma apply_seq_counters:
  assumes "apply_seq ctx is = Some st"
  shows "length (n_inputs st) = 4
    \<and> (\<forall>p < 4. n_inputs st ! p = min (pool_count p (map (\<lambda>i. c_notes ctx ! i) is)) u32_max)
    \<and> t_in_size st = transparent_size (map (\<lambda>i. c_notes ctx ! i) is) mod 2 ^ 64"
  using assms
proof (induction "is" arbitrary: st rule: rev_induct)
  case Nil
  then show ?case
    by (auto simp: apply_seq_def initial_state_def pool_count_def transparent_size_def all_below_4)
next
  case (snoc i "is")
  let ?n = "c_notes ctx ! i"
  from snoc.prems obtain st0 where st0: "apply_seq ctx is = Some st0" "apply_note st0 i ?n = Some st"
    by (auto simp: apply_seq_snoc split: option.splits)
  have ins: "n_inputs st = upd_at (sn_pool ?n) (\<lambda>v. sat_add32 v 1) (n_inputs st0)"
    and size: "t_in_size st = (if sn_pool ?n = 0 then add64 (t_in_size st0) (input_size ?n)
                 else t_in_size st0)"
    using st0(2) by (auto simp: apply_note_def Let_def split: if_splits)
  have "t_in_size st = transparent_size (map (\<lambda>i. c_notes ctx ! i) (is @ [i])) mod 2 ^ 64"
    using snoc.IH [OF st0(1)] by (simp add: size transparent_size_def add64_def mod_add_left_eq)
  moreover have "n_inputs st ! p = min (pool_count p (map (\<lambda>i. c_notes ctx ! i) (is @ [i]))) u32_max"
    if "p < 4" for p
    using snoc.IH [OF st0(1)] that
    by (auto simp: ins nth_upd_at pool_count_def sat_add32_def)
  ultimately show ?case using snoc.IH [OF st0(1)] by (simp add: ins)
qed

lemma explored_counters:
  assumes "explored ctx st"
  shows "p < 4 \<Longrightarrow> n_inputs st ! p = min (pool_count p (chosen_notes ctx st)) u32_max"
    and "t_in_size st = transparent_size (chosen_notes ctx st) mod 2 ^ 64"
  using apply_seq_counters [of ctx "selected st" st] assms
  by (simp_all add: explored_def chosen_notes_def)

text \<open>A fee counter loaded with the inputs, the outputs and the change output.\<close>

definition load_input :: "fee_manager \<Rightarrow> snote \<Rightarrow> fee_manager" where
  "load_input fm n =
     (if sn_pool n = 0 then add_transparent_input (sn_uncompressed n) fm
      else add_input (sn_pool n) fm)"

definition load_fee_manager ::
  "u64 \<Rightarrow> bool \<Rightarrow> snote list \<Rightarrow> soutput list \<Rightarrow> nat \<Rightarrow> fee_manager" where
  "load_fee_manager f_unit migration ins outs change_pool =
     add_output change_pool
       (foldl (\<lambda>fm o'. add_output (so_pool o') fm)
         (foldl load_input ((fm_new f_unit)\<lparr> fm_migration := migration \<rparr>) ins) outs)"

lemma load_inputs_fields:
  fixes fm :: fee_manager
  defines "res ns \<equiv> foldl load_input fm ns"
  assumes "length (fm_num_inputs fm) = 4" and "\<forall>p < 4. fm_num_inputs fm ! p = 0"
    and "fm_t_in_size fm = 0"
  shows "fm_num_outputs (res ns) = fm_num_outputs fm \<and> fm_migration (res ns) = fm_migration fm
    \<and> fm_cost_per_action (res ns) = fm_cost_per_action fm \<and> length (fm_num_inputs (res ns)) = 4
    \<and> fm_t_in_size (res ns) = transparent_size ns mod 2 ^ 64
    \<and> (\<forall>p < 4. fm_num_inputs (res ns) ! p = pool_count p ns mod 256)"
proof (induction ns rule: rev_induct)
  case Nil
  with assms show ?case by (simp add: transparent_size_def pool_count_def)
next
  case (snoc n ns)
  then show ?case
    by (auto simp: res_def load_input_def add_input_def add_transparent_input_def nth_upd_at
        pool_count_def transparent_size_def input_size_def add64_def add8_def mod_simps)
qed

lemma load_outputs_fields:
  fixes fm :: fee_manager
  defines "res os \<equiv> foldl (\<lambda>fm o'. add_output (so_pool o') fm) fm os"
  assumes "length (fm_num_outputs fm) = 4" and "\<forall>p < 4. fm_num_outputs fm ! p = 0"
  shows "fm_num_inputs (res os) = fm_num_inputs fm \<and> fm_migration (res os) = fm_migration fm
    \<and> fm_cost_per_action (res os) = fm_cost_per_action fm \<and> fm_t_in_size (res os) = fm_t_in_size fm
    \<and> length (fm_num_outputs (res os)) = 4
    \<and> (\<forall>p < 4. fm_num_outputs (res os) ! p = output_count p os mod 256)"
proof (induction os rule: rev_induct)
  case Nil
  with assms show ?case by (simp add: output_count_def)
next
  case (snoc n ns)
  then show ?case
    by (auto simp: res_def add_output_def nth_upd_at output_count_def add8_def mod_simps)
qed

lemma load_fee_manager_fields:
  assumes "change_pool < 4" and "fm = load_fee_manager f_unit migration ins outs change_pool"
  shows "fm_cost_per_action fm = f_unit" and "fm_migration fm = migration"
    and "fm_t_in_size fm = transparent_size ins mod 2 ^ 64"
    and "p < 4 \<Longrightarrow> fm_num_inputs fm ! p = pool_count p ins mod 256"
    and "p < 4 \<Longrightarrow> fm_num_outputs fm ! p
      = (output_count p outs + (if p = change_pool then 1 else 0)) mod 256"
proof -
  let ?fm0 = "(fm_new f_unit)\<lparr> fm_migration := migration \<rparr>"
  let ?fm1 = "foldl load_input ?fm0 ins"
  have "length (fm_num_inputs ?fm0) = 4" "\<forall>p < 4. fm_num_inputs ?fm0 ! p = 0"
    "fm_t_in_size ?fm0 = 0" "length (fm_num_outputs ?fm0) = 4" "\<forall>p < 4. fm_num_outputs ?fm0 ! p = 0"
    "fm_migration ?fm0 = migration" "fm_cost_per_action ?fm0 = f_unit"
    by (simp_all add: fm_new_def all_below_4)
  note zero = this
  note i = load_inputs_fields [OF zero(1-3), of ins]
  have "length (fm_num_outputs ?fm1) = 4" "\<forall>p < 4. fm_num_outputs ?fm1 ! p = 0"
    using i zero by simp_all
  note o' = load_outputs_fields [OF this, of outs]
  show "fm_cost_per_action fm = f_unit" "fm_migration fm = migration"
    "fm_t_in_size fm = transparent_size ins mod 2 ^ 64"
    "p < 4 \<Longrightarrow> fm_num_inputs fm ! p = pool_count p ins mod 256"
    "p < 4 \<Longrightarrow> fm_num_outputs fm ! p
      = (output_count p outs + (if p = change_pool then 1 else 0)) mod 256"
    using i o' zero
    by (simp_all add: assms(2) load_fee_manager_def add_output_def nth_upd_at add8_def mod_simps)
qed

lemma fee_matches_manager:
  assumes ex: "explored ctx st" and one: "c_n_assets ctx \<le> 1" and cp: "cp < 4"
    and len: "length (c_n_outputs ctx) = 4"
    and no: "\<And>p. p < 4 \<Longrightarrow> c_n_outputs ctx ! p = output_count p outs"
    and ins_small: "\<forall>p < 4. pool_count p (chosen_notes ctx st) < 256"
    and outs_small: "\<forall>p < 4. output_count p outs < 255"
  shows "fee_for_change_pool st ctx cp
    = fm_fee (load_fee_manager (c_f_unit ctx) (c_migration ctx) (chosen_notes ctx st) outs cp)"
proof -
  define fm where "fm = load_fee_manager (c_f_unit ctx) (c_migration ctx) (chosen_notes ctx st) outs cp"
  note f = load_fee_manager_fields [OF cp fm_def]
  note c = explored_counters [OF ex]
  define n_outs where "n_outs = upd_at cp (\<lambda>n. sat_add32 n 1) (c_n_outputs ctx)"
  have ni: "n_inputs st ! p = fm_num_inputs fm ! p" if "p < 4" for p
  proof -
    have "pool_count p (chosen_notes ctx st) < 256" using ins_small that by blast
    then show ?thesis using c(1) [OF that] f(4) [OF that] by simp
  qed
  have nout: "n_outs ! p = fm_num_outputs fm ! p" if "p < 4" for p
  proof -
    have "output_count p outs < 255" using outs_small that by blast
    then show ?thesis
      using f(5) [OF that] no [OF that] that len
      by (simp add: n_outs_def nth_upd_at sat_add32_def)
  qed
  show ?thesis
    unfolding fm_def [symmetric] fee_for_change_pool_def compute_fee_def fm_fee_def fm_actions_def
      Let_def n_outs_def [symmetric]
    using one by (simp add: zsa_orchard_actions_def c(2) ni nout f grace_actions_def)
qed

section \<open>Exact costs\<close>

definition pool_sum :: "nat \<Rightarrow> snote list \<Rightarrow> nat" where
  "pool_sum p ns = sum_list (map sn_amount (filter (\<lambda>n. sn_pool n = p) ns))"

lemma pool_sums_total:
  "\<forall>n \<in> set ns. sn_pool n < 4 \<Longrightarrow>
     pool_sum 0 ns + pool_sum 1 ns + pool_sum 2 ns + pool_sum 3 ns = sum_list (map sn_amount ns)"
  by (induction ns) (auto simp: pool_sum_def pools_below_4)

text \<open>With values in the range of a wallet, the balances of a state are exact.\<close>

definition small_ctx :: "sctx \<Rightarrow> bool" where
  "small_ctx ctx \<longleftrightarrow> sum_list (map sn_amount (c_notes ctx)) + sum_list (c_output_amounts ctx) < 2 ^ 62"

lemma apply_seq_balance:
  assumes "apply_seq ctx is = Some st" and "length (c_output_amounts ctx) = 4"
    and "sum_list (map (\<lambda>i. sn_amount (c_notes ctx ! i)) is) + sum_list (c_output_amounts ctx) < 2 ^ 62"
  shows "length (balance st) = 4 \<and> tout st = c_output_amounts ctx ! 0
    \<and> tin st = pool_sum 0 (map (\<lambda>i. c_notes ctx ! i) is)
    \<and> (\<forall>p < 4. 0 < p \<longrightarrow> balance st ! p
        = int (pool_sum p (map (\<lambda>i. c_notes ctx ! i) is)) - int (c_output_amounts ctx ! p))"
  using assms(1,3)
proof (induction "is" arbitrary: st rule: rev_induct)
  case Nil
  then have st: "st = initial_state ctx" by (simp add: apply_seq_def)
  have small: "c_output_amounts ctx ! p < 2 ^ 62" if "p < 4" for p
    using Nil(2) member_le_sum_list [OF nth_mem, of p "c_output_amounts ctx"] assms(2) that by simp
  have "wrap_i64 (- as_i64 (c_output_amounts ctx ! p)) = - int (c_output_amounts ctx ! p)"
    if "p < 4" for p
  proof -
    have "int (c_output_amounts ctx ! p) < int (2 ^ 62)"
      using small [OF that] by (simp only: of_nat_less_iff)
    then show ?thesis using small [OF that] by (simp add: as_i64_exact wrap_i64_exact)
  qed
  then show ?case by (simp add: st initial_state_def pool_sum_def n_pools_def all_below_4 upt_4)
next
  case (snoc i "is")
  let ?n = "c_notes ctx ! i" and ?ns = "map (\<lambda>i. c_notes ctx ! i) is"
  from snoc.prems obtain st0 where st0: "apply_seq ctx is = Some st0" "apply_note st0 i ?n = Some st"
    by (auto simp: apply_seq_snoc split: option.splits)
  have IH: "length (balance st0) = 4 \<and> tout st0 = c_output_amounts ctx ! 0
    \<and> tin st0 = pool_sum 0 ?ns \<and> (\<forall>p < 4. 0 < p \<longrightarrow> balance st0 ! p
        = int (pool_sum p ?ns) - int (c_output_amounts ctx ! p))"
    using snoc.IH [OF st0(1)] snoc.prems(2) by simp
  have bal: "balance st = (if sn_pool ?n = 1 \<or> sn_pool ?n = 2 \<or> sn_pool ?n = 3
      then upd_at (sn_pool ?n) (\<lambda>b. wrap_i64 (b + as_i64 (sn_amount ?n))) (balance st0)
      else balance st0)"
    and tin: "tin st = (if sn_pool ?n = 0 then add64 (tin st0) (sn_amount ?n) else tin st0)"
    and tout: "tout st = tout st0"
    using st0(2) by (auto simp: apply_note_def Let_def split: if_splits)
  have pool_le: "pool_sum p ?ns \<le> sum_list (map (\<lambda>i. sn_amount (c_notes ctx ! i)) is)" for p
    using sum_list_map_filter_le [of sn_amount "\<lambda>n. sn_pool n = p" ?ns]
    by (simp add: pool_sum_def comp_def)
  have out_le: "c_output_amounts ctx ! p \<le> sum_list (c_output_amounts ctx)" if "p < 4" for p
    using member_le_sum_list [OF nth_mem, of p "c_output_amounts ctx"] assms(2) that by simp
  have "wrap_i64 (int (pool_sum p ?ns) - int (c_output_amounts ctx ! p) + as_i64 (sn_amount ?n))
      = int (pool_sum p ?ns) + int (sn_amount ?n) - int (c_output_amounts ctx ! p)" if "p < 4" for p
  proof -
    have "pool_sum p ?ns + sn_amount ?n + c_output_amounts ctx ! p < 2 ^ 62"
      using snoc.prems(2) pool_le [of p] out_le [OF that] by simp
    then have "int (pool_sum p ?ns) + int (sn_amount ?n) + int (c_output_amounts ctx ! p) < int (2 ^ 62)"
      by (simp only: of_nat_less_iff flip: of_nat_add)
    moreover have "sn_amount ?n < 2 ^ 63" using snoc.prems(2) by simp
    ultimately show ?thesis by (simp add: as_i64_exact wrap_i64_exact)
  qed
  moreover have "add64 (pool_sum 0 ?ns) (sn_amount ?n) = pool_sum 0 ?ns + sn_amount ?n"
    using snoc.prems(2) pool_le [of 0] by (intro add64_exact) simp
  ultimately show ?case
    using IH by (auto simp: bal tin tout nth_upd_at pool_sum_def)
qed

lemma sum_list_mset_le:
  fixes f :: "'a \<Rightarrow> nat"
  shows "mset xs \<subseteq># mset ys \<Longrightarrow> sum_list (map f xs) \<le> sum_list (map f ys)"
proof -
  assume "mset xs \<subseteq># mset ys"
  then obtain d where "mset ys = mset xs + d" by (metis subset_mset.le_iff_add)
  moreover have "sum_list (map f zs) = sum_mset (image_mset f (mset zs))" for zs
    by (metis mset_map sum_mset_sum_list)
  ultimately show ?thesis by simp
qed

lemma explored_small:
  assumes "explored ctx st" and "small_ctx ctx"
  shows "sum_list (map sn_amount (chosen_notes ctx st)) + sum_list (c_output_amounts ctx) < 2 ^ 62"
  using sum_list_mset_le [OF chosen_notes_subset [OF assms(1)], of sn_amount] assms(2)
  by (simp add: small_ctx_def)

lemma explored_balance:
  assumes "explored ctx st" and "small_ctx ctx" and "length (c_output_amounts ctx) = 4"
  shows "tin st = pool_sum 0 (chosen_notes ctx st)" and "tout st = c_output_amounts ctx ! 0"
    and "p < 4 \<Longrightarrow> 0 < p \<Longrightarrow> balance st ! p
        = int (pool_sum p (chosen_notes ctx st)) - int (c_output_amounts ctx ! p)"
  using apply_seq_balance [of ctx "selected st" st] assms(1,3) explored_small [OF assms(1,2)]
  by (simp_all add: explored_def chosen_notes_def comp_def)

lemma foldl_add64_le: "foldl add64 a xs \<le> a + sum_list xs"
proof (induction xs arbitrary: a)
  case (Cons x xs)
  have "add64 a x \<le> a + x" by (simp add: add64_def)
  with Cons [of "add64 a x"] show ?case by simp
qed simp

lemma change_cost_small:
  assumes "explored ctx st" and "small_ctx ctx" and "length (c_output_amounts ctx) = 4"
    and "\<forall>n \<in> set (c_notes ctx). sn_pool n < 4" and "0 < c_n_assets ctx"
  shows "change_cost st ctx cp < u64_max"
proof -
  let ?ns = "chosen_notes ctx st" and ?out = "\<lambda>p. c_output_amounts ctx ! p"
  note b = explored_balance [OF assms(1-3)] and sm = explored_small [OF assms(1,2)]
  obtain o0 o1 o2 o3 where o': "c_output_amounts ctx = [o0, o1, o2, o3]"
    using assms(3) by (auto simp: length_Suc_conv eval_nat_numeral)
  have sums: "pool_sum 0 ?ns + pool_sum 1 ?ns + pool_sum 2 ?ns + pool_sum 3 ?ns
      = sum_list (map sn_amount ?ns)"
    using assms(1,4) by (intro pool_sums_total) (auto simp: chosen_notes_def explored_def)
  define ch where "ch = sat_sub (asset_sums st ! 0) (zec_needed ctx (fee_for_change_pool st ctx cp))"
  have "asset_sums st ! 0 = asset_total 0 ?ns"
    using asset_total_le_sum [of 0 ?ns] sm by (intro explored_asset_sum [OF assms(1,5)]) simp
  then have ch: "ch \<le> sum_list (map sn_amount ?ns)"
    using asset_total_le_sum [of 0 ?ns] by (simp add: ch_def sat_sub_def)
  have chi: "as_i64 ch = int ch" using ch sm by (intro as_i64_exact) simp
  have one: "(if p = cp then unsigned_abs (wrap_i64 (balance st ! p - as_i64 ch))
      else unsigned_abs (balance st ! p)) \<le> pool_sum p ?ns + ?out p + (if p = cp then ch else 0)"
    if "0 < p" "p < 4" for p
  proof -
    have "pool_sum p ?ns \<le> sum_list (map sn_amount ?ns)"
      by (simp add: pool_sum_def sum_list_map_filter_le)
    moreover have "?out p \<le> sum_list (c_output_amounts ctx)"
      using member_le_sum_list [OF nth_mem, of p "c_output_amounts ctx"] assms(3) that by simp
    ultimately have "int (pool_sum p ?ns) + int (?out p) < 2 ^ 62" "int ch < 2 ^ 62"
      using sm ch by simp_all
    then have "wrap_i64 (balance st ! p - as_i64 ch) = balance st ! p - int ch"
      unfolding b(3) [OF that(2,1)] chi by (intro wrap_i64_exact) simp_all
    then show ?thesis using b(3) [OF that(2,1)]
      by (cases "p = cp") (simp_all add: unsigned_abs_def)
  qed
  have "change_cost st ctx cp \<le> tin st + tout st
      + sum_list (map (\<lambda>p. if p = cp then unsigned_abs (wrap_i64 (balance st ! p - as_i64 ch))
          else unsigned_abs (balance st ! p)) [1, 2, 3])"
    unfolding change_cost_def turnstile_def ch_def [symmetric] Let_def n_pools_def upt_1_4
    by (rule order.trans [OF _ add_mono [OF order.refl foldl_add64_le [of 0, simplified]]])
      (meson add64_le add_le_mono1 order.trans)
  also have "\<dots> \<le> 2 * sum_list (map sn_amount ?ns) + sum_list (c_output_amounts ctx)"
    using one [of 1] one [of 2] one [of 3] ch sums b(1,2) by (auto simp: o')
  also have "\<dots> < u64_max" using sm by simp
  finally show ?thesis .
qed

section \<open>A feasible greedy state is always found\<close>

lemma evaluate_finite:
  assumes "explored ctx st" and "small_ctx ctx" and "ctx_wf ctx" and "p < 4" and "change_ok st ctx p"
  shows "fst (evaluate_state st ctx) \<noteq> u64_max"
proof -
  obtain c q where ev: "evaluate_state st ctx = (c, q)" by (metis prod.exhaust)
  have "c \<le> change_cost st ctx p" using evaluate_least [OF ev assms(4,5)] .
  also have "\<dots> < u64_max" using assms by (intro change_cost_small) (simp_all add: ctx_wf_def)
  finally show ?thesis by (simp add: ev)
qed

lemma greedy_loop_None:
  assumes "greedy_loop ctx st order = Some None"
    and "foldM (\<lambda>s i. apply_note s i (c_notes ctx ! i)) st (take k order) = Some st'"
  shows "fst (evaluate_state st' ctx) = u64_max"
  using assms
proof (induction ctx st order arbitrary: k rule: greedy_loop.induct)
  case (1 ctx st)
  then show ?case by (auto split: prod.splits if_splits)
next
  case (2 ctx st idx order)
  obtain c p where ev: "evaluate_state st ctx = (c, p)" by (metis prod.exhaust)
  show ?case
  proof (cases k)
    case 0
    with 2 ev show ?thesis by (auto split: if_splits)
  next
    case (Suc j)
    with "2.prems" ev obtain s1 where s1: "apply_note st idx (c_notes ctx ! idx) = Some s1"
      and g: "greedy_loop ctx s1 order = Some None" and c: "c = u64_max"
      and f: "foldM (\<lambda>s i. apply_note s i (c_notes ctx ! i)) s1 (take j order) = Some st'"
      by (auto split: if_splits bind_splits option.splits)
    with "2.IH" [OF ev [symmetric] refl _ s1 g f] c show ?thesis by simp
  qed
qed

lemma baseline_found:
  assumes wf: "ctx_wf ctx" and small: "small_ctx ctx"
    and st: "apply_seq ctx (take k (greedy_order ctx)) = Some st"
    and p: "p < 4" and ok: "change_ok st ctx p"
  shows "\<exists>sol. baseline ctx = Some (Some sol)"
proof -
  have sel: "selected st = take k (greedy_order ctx)" using apply_seq_selected [OF st] .
  have "set (take k (greedy_order ctx)) \<subseteq> {..<length (c_notes ctx)}"
    using set_take_subset greedy_order_facts(2) by fastforce
  then have ex: "explored ctx st"
    using st by (simp add: explored_def sel distinct_take)
  obtain g where g: "greedy_solution ctx = Some g"
    using greedy_loop_total [OF wf explored_initial, of "greedy_order ctx"]
    by (auto simp: greedy_solution_def)
  have "g \<noteq> None"
  proof
    assume "g = None"
    with g have "greedy_loop ctx (initial_state ctx) (greedy_order ctx) = Some None"
      by (simp add: greedy_solution_def)
    from greedy_loop_None [OF this st [unfolded apply_seq_def]] evaluate_finite [OF ex small wf p ok]
    show False by simp
  qed
  with g show ?thesis by (auto simp: baseline_def)
qed

text \<open>The inputs a caller may pass: pools and assets in range, values of a wallet.\<close>

definition request_ok :: "snote list \<Rightarrow> soutput list \<Rightarrow> bool" where
  "request_ok notes outputs \<longleftrightarrow>
     (\<forall>n \<in> set notes. sn_pool n < 4 \<and> sn_asset_index n < count_assets outputs)
     \<and> (\<forall>o' \<in> set outputs. so_asset_index o' < 255)"

definition small_values :: "snote list \<Rightarrow> soutput list \<Rightarrow> bool" where
  "small_values notes outputs \<longleftrightarrow>
     sum_list (map sn_amount notes) + sum_list (map so_amount outputs) < 2 ^ 62"

lemma count_assets_bound:
  assumes "\<forall>o' \<in> set outs. so_asset_index o' < 255"
  shows "0 < count_assets outs \<and> (\<forall>o' \<in> set outs. so_asset_index o' < count_assets outs)"
proof -
  have "foldr max (map so_asset_index outs) 0 < 255" using assms by (induction outs) auto
  then have "count_assets outs = foldr max (map so_asset_index outs) 0 + 1"
    by (simp add: count_assets_def add8_def)
  moreover have "so_asset_index o' \<le> foldr max (map so_asset_index outs) 0" if "o' \<in> set outs" for o'
    using that by (induction outs) auto
  ultimately show ?thesis by fastforce
qed

lemma aggregate_total:
  assumes "\<forall>o' \<in> set outs. so_asset_index o' < n"
  shows "\<exists>agg. foldM add_output_to ([0, 0, 0, 0], [0, 0, 0, 0], replicate n 0, replicate n 0) outs = Some agg"
proof -
  have "\<exists>agg. foldM add_output_to ([0, 0, 0, 0], [0, 0, 0, 0], replicate n 0, replicate n 0) outs = Some agg
      \<and> length (fst (snd (snd agg))) = n"
    by (rule foldM_total) (use assms in \<open>auto simp: add_output_to_def Let_def\<close>)
  then show ?thesis by blast
qed

lemma selection_ctx_total:
  assumes "request_ok notes outputs"
  obtains ctx where "selection_ctx notes outputs f_unit migration rpf first_amount cpools = Some ctx"
    "ctx_wf ctx" "small_values notes outputs \<Longrightarrow> small_ctx ctx"
proof -
  note count = count_assets_bound [of outputs]
  obtain agg where "aggregate_outputs outputs = Some agg"
    using aggregate_total [of outputs "count_assets outputs"] assms count
    by (auto simp: aggregate_outputs_def request_ok_def Let_def)
  then obtain ctx where ctx:
    "selection_ctx notes outputs f_unit migration rpf first_amount cpools = Some ctx"
    by (simp add: selection_ctx_def)
  note c = selection_ctxD [OF ctx]
  have "set (c_notes ctx) \<subseteq> set notes" using c(7) by (auto simp: sort_notes_def dust_filter_def)
  then have wf: "ctx_wf ctx" using assms count c by (auto simp: ctx_wf_def request_ok_def)
  have "sum_list (c_output_amounts ctx) \<le> sum_list (map so_amount outputs)"
  proof -
    obtain o0 o1 o2 o3 where o': "c_output_amounts ctx = [o0, o1, o2, o3]"
      using c(13) by (auto simp: length_Suc_conv eval_nat_numeral)
    have "output_in_pool 0 outs + output_in_pool 1 outs + output_in_pool 2 outs + output_in_pool 3 outs
        \<le> sum_list (map so_amount outs)" for outs
      by (induction outs) (auto simp: output_in_pool_def)
    from this [of outputs] have "output_in_pool 0 outputs + output_in_pool 1 outputs
        + output_in_pool 2 outputs + output_in_pool 3 outputs \<le> sum_list (map so_amount outputs)" .
    moreover have "o0 \<le> output_in_pool 0 outputs" "o1 \<le> output_in_pool 1 outputs"
      "o2 \<le> output_in_pool 2 outputs" "o3 \<le> output_in_pool 3 outputs"
      using c(16) [of 0] c(16) [of 1] c(16) [of 2] c(16) [of 3] by (simp_all add: o')
    ultimately show ?thesis by (simp add: o')
  qed
  moreover have "sum_list (map sn_amount (c_notes ctx)) \<le> sum_list (map sn_amount notes)"
    using sum_list_mset_eq [OF c(8)] by (simp add: dust_filter_def sum_list_map_filter_le)
  ultimately have "small_values notes outputs \<Longrightarrow> small_ctx ctx"
    by (simp add: small_values_def small_ctx_def)
  with ctx wf that show ?thesis by blast
qed

lemma select_notes_by_ctx:
  assumes "selection_ctx notes outputs f_unit migration rpf first_amount cpools = Some ctx"
  shows "select_notes elapsed notes outputs f_unit migration rpf first_amount cpools
    = (if dust_filter f_unit notes = [] then Some None else solve_context elapsed ctx)"
  using assms by (auto simp: select_notes_def selection_ctx_def Let_def)

section \<open>Properties\<close>

text \<open>
  C1: coverage. A selection covers the outputs: the selected notes of every asset add up
  to at least the outputs of that asset, and those of ZEC also pay the fee, unless the
  recipient does, in which case the fee fits in the first recipient's amount. The amounts
  are those of a wallet: the notes sum to less than \<open>u64::MAX\<close> and the outputs to less than
  \<open>2^64\<close>, so that no sum wraps.
\<close>

theorem select_notes_covers:
  assumes sel: "select_notes elapsed notes outputs f_unit migration rpf first_amount cpools
      = Some (Some sel)"
    and small: "sum_list (map sn_amount notes) < u64_max"
    and outs: "sum_list (map so_amount outputs) < 2 ^ 64"
  shows "(\<forall>a. output_total a outputs \<le> asset_total a (sel_inputs sel))
    \<and> (if rpf then sel_fee sel \<le> first_amount
       else output_total 0 outputs + sel_fee sel \<le> asset_total 0 (sel_inputs sel))"
proof -
  obtain ctx sr where ctx: "selection_ctx notes outputs f_unit migration rpf first_amount cpools = Some ctx"
    and ex: "explored ctx (sr_best_state sr)"
    and pool: "sel_change_pool sel < 4"
    and ok: "change_ok (sr_best_state sr) ctx (sel_change_pool sel)"
    and fee: "sel_fee sel = fee_for_change_pool (sr_best_state sr) ctx (sel_change_pool sel)"
    and ins: "sel_inputs sel = chosen_notes ctx (sr_best_state sr)"
    and b: "sel = build_selection ctx sr"
    using select_notes_final [OF sel] .
  note c = selection_ctxD [OF ctx]
  have pos: "0 < c_n_assets ctx"
  proof (cases outputs)
    case Nil
    with c(1) show ?thesis by (simp add: count_assets_def add8_def)
  next
    case (Cons o' os)
    with c(1) c(10) [of o'] show ?thesis by simp
  qed
  have "sum_list (map sn_amount (c_notes ctx)) \<le> sum_list (map sn_amount notes)"
    using sum_list_mset_eq [OF c(8)] by (simp add: dust_filter_def sum_list_map_filter_le)
  with small have total: "sum_list (map sn_amount (c_notes ctx)) < u64_max" by linarith
  have aa: "c_asset_output_amounts ctx ! a = output_total a outputs" if "a < c_n_assets ctx" for a
    using c(9) that c(1) order.strict_trans1 [OF output_total_le outs] by simp
  note cov = feasible_covers [OF ex ok pos total aa]
  have "output_total a outputs \<le> asset_total a (sel_inputs sel)" for a
  proof (cases "a < c_n_assets ctx")
    case True
    with cov(1) ins show ?thesis by simp
  next
    case False
    then have "filter (\<lambda>o'. so_asset_index o' = a) outputs = []"
      using c(1,10) by (auto simp: filter_empty_conv)
    then show ?thesis by (simp add: output_total_def)
  qed
  with cov(2,3) c(2,3) fee ins show ?thesis by simp
qed

text \<open>
  C2: provenance. The selected inputs are distinct candidates: as a multiset they are part
  of the notes left by the dust filter, the indices reported for each pool are those of
  exactly the selected notes of that pool, in order, and the change goes to one of the
  pools the planner allowed.
\<close>

theorem select_notes_inputs_from_candidates:
  assumes "select_notes elapsed notes outputs f_unit migration rpf first_amount cpools
      = Some (Some sel)"
  shows "mset (sel_inputs sel) \<subseteq># mset (dust_filter f_unit notes)
    \<and> sel_per_pool_indices sel
        = map (\<lambda>p. map sn_pool_index (filter (\<lambda>n. sn_pool n = p) (sel_inputs sel))) [0, 1, 2, 3]
    \<and> sel_change_pool sel < 4 \<and> has_pool cpools (sel_change_pool sel)"
proof -
  obtain ctx sr where ctx: "selection_ctx notes outputs f_unit migration rpf first_amount cpools = Some ctx"
    and ex: "explored ctx (sr_best_state sr)"
    and pool: "sel_change_pool sel < 4"
    and ok: "change_ok (sr_best_state sr) ctx (sel_change_pool sel)"
    and fee: "sel_fee sel = fee_for_change_pool (sr_best_state sr) ctx (sel_change_pool sel)"
    and ins: "sel_inputs sel = chosen_notes ctx (sr_best_state sr)"
    and b: "sel = build_selection ctx sr"
    using select_notes_final [OF assms] .
  have "sel_per_pool_indices sel
      = map (\<lambda>p. map sn_pool_index (filter (\<lambda>n. sn_pool n = p) (sel_inputs sel))) [0..<n_pools]"
    by (simp add: b build_selection_def Let_def)
  moreover have "has_pool cpools (sel_change_pool sel)"
    using ok selection_ctxD(4) [OF ctx] by (simp add: change_ok_def has_pool_def)
  ultimately show ?thesis
    using chosen_notes_subset [OF ex] ins selection_ctxD(8) [OF ctx] pool
    by (simp add: n_pools_def upt_4)
qed

text \<open>
  C3: the fee. On a payment of ZEC alone, the fee of a selection is the fee that the
  counter of \<open>fee.rs\<close> computes from the selected inputs, the outputs and one change output
  in the change pool, as long as no pool holds more than 255 inputs or outputs, the width
  of its counters.
\<close>

theorem select_notes_fee_is_counted:
  assumes sel: "select_notes elapsed notes outputs f_unit migration rpf first_amount cpools
      = Some (Some sel)"
    and zec: "\<forall>o' \<in> set outputs. so_asset_index o' = 0"
    and ins_small: "\<forall>p < 4. pool_count p (sel_inputs sel) < 256"
    and outs_small: "\<forall>p < 4. output_count p outputs < 255"
  shows "sel_fee sel
    = fm_fee (load_fee_manager f_unit migration (sel_inputs sel) outputs (sel_change_pool sel))"
proof -
  obtain ctx sr where ctx: "selection_ctx notes outputs f_unit migration rpf first_amount cpools = Some ctx"
    and ex: "explored ctx (sr_best_state sr)"
    and pool: "sel_change_pool sel < 4"
    and ok: "change_ok (sr_best_state sr) ctx (sel_change_pool sel)"
    and fee: "sel_fee sel = fee_for_change_pool (sr_best_state sr) ctx (sel_change_pool sel)"
    and ins: "sel_inputs sel = chosen_notes ctx (sr_best_state sr)"
    and b: "sel = build_selection ctx sr"
    using select_notes_final [OF sel] .
  note c = selection_ctxD [OF ctx]
  have "foldr max (map so_asset_index outputs) 0 = 0" using zec by (induction outputs) auto
  then have one: "c_n_assets ctx \<le> 1" by (simp add: c(1) count_assets_def add8_def)
  have "c_n_outputs ctx ! p = output_count p outputs" if "p < 4" for p
    using c(15) [OF that] outs_small that by fastforce
  from fee_matches_manager [OF ex one pool c(14) this _ outs_small] ins_small
  show ?thesis by (simp add: fee ins c(5,6))
qed

text \<open>
  C4: totality. On every request whose pools and assets are in range, \<open>select_notes\<close> neither
  panics nor runs forever, whatever the clock does, and it refuses the payment exactly when
  no candidate is left by the dust filter or the greedy baseline finds nothing.
\<close>

theorem select_notes_total:
  assumes "request_ok notes outputs"
  shows "\<exists>ctx r. selection_ctx notes outputs f_unit migration rpf first_amount cpools = Some ctx
    \<and> select_notes elapsed notes outputs f_unit migration rpf first_amount cpools = Some r
    \<and> (r = None \<longleftrightarrow> dust_filter f_unit notes = [] \<or> baseline ctx = Some None)"
proof -
  obtain ctx where ctx: "selection_ctx notes outputs f_unit migration rpf first_amount cpools = Some ctx"
    and wf: "ctx_wf ctx"
    using selection_ctx_total [OF assms] .
  show ?thesis using ctx solve_context_total [OF wf, of elapsed]
    by (auto simp: select_notes_by_ctx [OF ctx])
qed

text \<open>
  C5: no payment that can be funded greedily is refused. When the k largest candidates fund
  the payment for some change pool (they cover the outputs, and the fee is covered by them
  or by the first recipient), \<open>select_notes\<close> returns a selection.
\<close>

theorem select_notes_finds_greedy:
  assumes "request_ok notes outputs" and "small_values notes outputs"
    and "dust_filter f_unit notes \<noteq> []"
    and "selection_ctx notes outputs f_unit migration rpf first_amount cpools = Some ctx"
    and "apply_seq ctx (take k (greedy_order ctx)) = Some st"
    and "p < 4" and "change_ok st ctx p"
  shows "\<exists>sel. select_notes elapsed notes outputs f_unit migration rpf first_amount cpools
    = Some (Some sel)"
proof -
  have wf: "ctx_wf ctx" and small: "small_ctx ctx"
    using selection_ctx_total [OF assms(1), of f_unit migration rpf first_amount cpools]
      assms(2,4) by auto
  obtain sol where "baseline ctx = Some (Some sol)"
    using baseline_found [OF wf small assms(5-7)] by blast
  with solve_context_total [OF wf, of elapsed] assms(3) show ?thesis
    by (auto simp: select_notes_by_ctx [OF assms(4)])
qed

text \<open>
  The search never worsens the baseline. Whenever the clock or the node budget stops
  it, the selection returned has at most the turnstile value of the baseline, and at most
  its fee when the turnstile values are equal.
\<close>

theorem select_notes_improves_baseline:
  assumes "selection_ctx notes outputs f_unit migration rpf first_amount cpools = Some ctx"
    and "baseline ctx = Some (Some (st, cost, pool))"
    and "select_notes elapsed notes outputs f_unit migration rpf first_amount cpools = Some (Some sel)"
  shows "\<exists>st'. explored ctx st' \<and> sel_inputs sel = chosen_notes ctx st'
    \<and> (change_cost st' ctx (sel_change_pool sel), sel_fee sel)
        \<le> (cost, fee_for_change_pool st ctx pool)"
proof -
  have "solve_context elapsed ctx = Some (Some sel)"
    using assms(3) select_notes_by_ctx [OF assms(1)] by (simp split: if_splits)
  then obtain sr where ok: "search_ok ctx (cost, fee_for_change_pool st ctx pool) sr"
    and sel: "sel = build_selection ctx sr"
    by (rule solve_context_ok) (use assms(2) in auto)
  have ev: "evaluate_state (sr_best_state sr) ctx = (sr_best_cost sr, sr_best_pool sr)"
    "sr_best_cost sr \<noteq> u64_max" and ex: "explored ctx (sr_best_state sr)"
    using ok by (simp_all add: search_ok_def)
  have "sel_change_pool sel = sr_best_pool sr" "sel_fee sel = sr_best_fee sr"
    by (simp_all add: sel build_selection_def Let_def)
  with evaluate_sound [OF ev] ok ex solution_chosen [OF ok] sel show ?thesis
    by (auto simp: search_ok_def)
qed

section \<open>A run of the solver\<close>

definition zec_note :: "u8 \<Rightarrow> u64 \<Rightarrow> usize \<Rightarrow> snote" where
  "zec_note p v i = \<lparr> sn_pool = p, sn_amount = v, sn_pool_index = i, sn_uncompressed = False,
     sn_asset_index = 0 \<rparr>"

definition run_notes :: "snote list" where
  "run_notes = [zec_note 1 1000000 0, zec_note 2 900000 0]"

definition run_outputs :: "soutput list" where
  "run_outputs = [\<lparr> so_pool = 2, so_amount = 100000, so_asset_index = 0 \<rparr>]"

definition run_selection :: selection where
  "run_selection = \<lparr> sel_inputs = [zec_note 1 1000000 0], sel_per_pool_indices = [[], [0], [], []],
     sel_change_pool = 1, sel_fee = 20000 \<rparr>"

definition run_ctx :: sctx where
  "run_ctx = \<lparr> c_notes = run_notes, c_n_assets = 1, c_asset_output_amounts = [100000],
     c_output_amounts = [0, 0, 100000, 0], c_n_outputs = [0, 0, 1, 0],
     c_orchard_asset_outputs = [1], c_f_unit = 5000, c_migration = False,
     c_recipient_pays_fee = False, c_first_recipient_amount = 0,
     c_change_pools = all_change_pools \<rparr>"

lemma run_select:
  "select_notes (\<lambda>_. False) run_notes run_outputs 5000 False False 0 all_change_pools
    = Some (Some run_selection)"
  by code_simp

lemma run_selection_ctx:
  "selection_ctx run_notes run_outputs 5000 False False 0 all_change_pools = Some run_ctx"
  by code_simp

lemma run_baseline:
  "baseline run_ctx = Some (Some (the (apply_seq run_ctx [0]), 220000, 1))"
  by code_simp

lemma run_request: "request_ok run_notes run_outputs" "small_values run_notes run_outputs"
  by (code_simp, code_simp)

definition orchard_only :: sstate where
  "orchard_only = the (apply_seq run_ctx [1])"

lemma orchard_only_run: "apply_seq run_ctx [1] = Some orchard_only"
  unfolding orchard_only_def by code_simp

theorem select_notes_covers_witness:
  "(\<forall>a. output_total a run_outputs \<le> asset_total a (sel_inputs run_selection))
    \<and> output_total 0 run_outputs + sel_fee run_selection
        \<le> asset_total 0 (sel_inputs run_selection)"
proof -
  have "sum_list (map sn_amount run_notes) < u64_max" "sum_list (map so_amount run_outputs) < 2 ^ 64"
    by (simp_all add: run_notes_def run_outputs_def zec_note_def)
  from select_notes_covers [OF run_select this] show ?thesis by simp
qed

theorem select_notes_inputs_from_candidates_witness:
  "mset (sel_inputs run_selection) \<subseteq># mset (dust_filter 5000 run_notes)
    \<and> has_pool all_change_pools (sel_change_pool run_selection)"
  using select_notes_inputs_from_candidates [OF run_select] by simp

theorem select_notes_fee_is_counted_witness:
  "sel_fee run_selection
    = fm_fee (load_fee_manager 5000 False (sel_inputs run_selection) run_outputs 1)"
proof -
  have "\<forall>o' \<in> set run_outputs. so_asset_index o' = 0" by code_simp
  moreover have "\<forall>p < 4. pool_count p (sel_inputs run_selection) < 256"
    unfolding all_below_4 by code_simp
  moreover have "\<forall>p < 4. output_count p run_outputs < 255" unfolding all_below_4 by code_simp
  ultimately have "sel_fee run_selection = fm_fee (load_fee_manager 5000 False
      (sel_inputs run_selection) run_outputs (sel_change_pool run_selection))"
    by (rule select_notes_fee_is_counted [OF run_select])
  then show ?thesis by (simp add: run_selection_def)
qed

theorem select_notes_total_witness:
  "\<exists>r. select_notes (\<lambda>_. True) run_notes run_outputs 5000 False False 0 1 = Some r"
  using select_notes_total [OF run_request(1), of 5000 False False 0 1 "\<lambda>_. True"] by blast

theorem select_notes_finds_greedy_witness:
  "\<exists>sel. select_notes (\<lambda>_. True) run_notes run_outputs 5000 False False 0 all_change_pools
    = Some (Some sel)"
proof -
  have "apply_seq run_ctx (take 1 (greedy_order run_ctx)) = Some (the (apply_seq run_ctx [0]))"
    "change_ok (the (apply_seq run_ctx [0])) run_ctx 1" "dust_filter 5000 run_notes \<noteq> []"
    by (code_simp, code_simp, code_simp)
  then show ?thesis
    using select_notes_finds_greedy [OF run_request _ run_selection_ctx, of 1 _ 1 "\<lambda>_. True"] by simp
qed

theorem select_notes_improves_baseline_witness:
  "\<exists>st'. sel_inputs run_selection = chosen_notes run_ctx st'
    \<and> change_cost st' run_ctx 1 \<le> 220000"
proof -
  have "fee_for_change_pool (the (apply_seq run_ctx [0])) run_ctx 1 = 20000"
    "sel_change_pool run_selection = 1" "sel_fee run_selection = 20000"
    by (code_simp, code_simp, code_simp)
  with select_notes_improves_baseline [OF run_selection_ctx run_baseline run_select]
  show ?thesis by auto
qed

text \<open>
  C6: the search is not optimal, because its bound is not a lower bound. A Sapling note of
  1,000,000 and an Orchard note of 900,000 pay 100,000 to Orchard. The Orchard note alone
  is feasible at a turnstile value and a fee of 10,000, yet its bound is 800,000: the bound
  ignores that change takes value out of a pool. With no time limit the search prunes that
  state and returns the Sapling note, a turnstile value of 220,000 and a fee of 20,000.
\<close>

theorem search_prunes_optimal_selection:
  "select_notes (\<lambda>_. False) run_notes run_outputs 5000 False False 0 all_change_pools
      = Some (Some run_selection)
    \<and> sel_inputs run_selection = [zec_note 1 1000000 0] \<and> sel_fee run_selection = 20000
    \<and> evaluate_state (the (apply_seq run_ctx [0])) run_ctx = (220000, 1)
    \<and> chosen_notes run_ctx orchard_only = [zec_note 2 900000 0]
    \<and> evaluate_state orchard_only run_ctx = (10000, 2)
    \<and> fee_for_change_pool orchard_only run_ctx 2 = 10000
    \<and> lower_bound_of orchard_only run_ctx = Some 800000"
proof -
  have "sel_inputs run_selection = [zec_note 1 1000000 0]" "sel_fee run_selection = 20000"
    "evaluate_state (the (apply_seq run_ctx [0])) run_ctx = (220000, 1)"
    "chosen_notes run_ctx orchard_only = [zec_note 2 900000 0]"
    "evaluate_state orchard_only run_ctx = (10000, 2)"
    "fee_for_change_pool orchard_only run_ctx 2 = 10000"
    "lower_bound_of orchard_only run_ctx = Some 800000"
    by (code_simp, code_simp, code_simp, code_simp, code_simp, code_simp, code_simp)
  with run_select show ?thesis by simp
qed

end
