(* ===== verification/Chain_Log.thy ===== *)
theory Chain_Log
  imports Zkool_Prelude
begin

text \<open>
  The chain log of \<open>rust/src/sync/chain_log.rs\<close>, the single writer of the tables that
  record what the chain says about an account, over the schema of \<open>rust/src/db.rs\<close>. A table
  is the list of its rows in row id order; an SQL statement is the list function it denotes,
  with the uniqueness constraints of the schema as the conflict tests of the inserts. A row
  record extends the record of the values its caller passes (\<open>TransactionRow\<close>, \<open>NoteRow\<close>,
  ...) with the row id and the account. A fiat price, an \<open>f64\<close> of the source, is its 64-bit
  pattern, which the chain log only stores; its one multiplication is a parameter.
\<close>

type_synonym blob = "u8 list"
type_synonym f64 = nat

section \<open>Rows\<close>

record transaction_in =
  tx_txid :: blob
  tx_height :: u32
  tx_time :: u32
  tx_details :: bool
  tx_tpe :: "u8 option"
  tx_value :: i64
  tx_fee :: i64
  tx_price :: "f64 option"
  tx_category :: "u32 option"

record transaction_row = transaction_in +
  tx_id :: u32
  tx_account :: u32
  tx_zsa_value :: i64
  tx_asset_id :: "int option"

record note_in =
  nt_id_tx :: u32
  nt_height :: u32
  nt_pool :: u8
  nt_scope :: "u8 option"
  nt_nullifier :: blob
  nt_value :: i64
  nt_cmx :: "blob option"
  nt_taddress :: "u32 option"
  nt_position :: "u32 option"
  nt_diversifier :: "blob option"
  nt_rcm :: "blob option"
  nt_rho :: "blob option"
  nt_locked :: bool
  nt_id_asset :: "u32 option"
  nt_diversifier_index :: "i64 option"

record note_row = note_in +
  nt_id :: u32
  nt_account :: u32

datatype note_key = ById u32 | ByNullifier blob | ByCmx blob

record spend_in =
  si_note :: note_key
  si_id_tx :: u32
  si_height :: u32
  si_pool :: u8
  si_value :: i64

record spend_row =
  sp_id_note :: u32
  sp_height :: u32
  sp_account :: u32
  sp_pool :: u8
  sp_tx :: u32
  sp_value :: i64

record witness_row =
  wt_id :: u32
  wt_account :: u32
  wt_note :: u32
  wt_height :: u32
  wt_witness :: blob

record output_in =
  ou_id_tx :: u32
  ou_height :: u32
  ou_pool :: u8
  ou_vout :: u32
  ou_value :: i64
  ou_address :: string

record output_row = output_in +
  ou_id :: u32
  ou_account :: u32

record memo_in =
  me_id_tx :: u32
  me_height :: u32
  me_pool :: u8
  me_vout :: u32
  me_note :: "u32 option"
  me_output :: "u32 option"
  me_text :: "string option"
  me_bytes :: blob

record memo_row = memo_in +
  me_id :: u32
  me_account :: u32

record user_memo_row =
  um_account :: u32
  um_id_tx :: u32
  um_height :: u32
  um_text :: string

record header_in =
  hd_height :: u32
  hd_hash :: blob
  hd_time :: u32

record header_row = header_in +
  hd_account :: u32

record sync_height_row =
  sh_account :: u32
  sh_pool :: u8
  sh_height :: u32

record pending_row =
  pd_id :: u32
  pd_account :: u32
  pd_txid :: blob
  pd_height :: u32
  pd_price :: "f64 option"
  pd_category :: "u32 option"

record asset_in =
  as_desc_hash :: blob
  as_ik :: blob
  as_base :: blob
  as_name :: "string option"
  as_finalized :: bool
  as_first_seen_height :: u32

record asset_row = asset_in +
  as_id :: u32

record account_row =
  ac_id :: u32
  ac_birth :: u32
  ac_use_internal :: bool

text \<open>
  The wallet database, as far as the chain log and the sync read or write it. The key tables
  are the accounts they have a row for; \<open>db_taddresses\<close> holds the key encoding of each
  transparent address.
\<close>

record db =
  db_accounts :: "account_row list"
  db_transparent_accounts :: "u32 list"
  db_sapling_accounts :: "u32 list"
  db_orchard_accounts :: "u32 list"
  db_taddresses :: "(u32 \<times> bool) list"
  db_sync_heights :: "sync_height_row list"
  db_headers :: "header_row list"
  db_transactions :: "transaction_row list"
  db_notes :: "note_row list"
  db_spends :: "spend_row list"
  db_witnesses :: "witness_row list"
  db_outputs :: "output_row list"
  db_memos :: "memo_row list"
  db_user_memos :: "user_memo_row list"
  db_pending :: "pending_row list"
  db_assets :: "asset_row list"

datatype log_error = NoSuchTransaction | NoSuchNote | NoSuchAsset | NotStored | ConstraintViolated

section \<open>Statements\<close>

text \<open>
  A new row of an \<open>INTEGER PRIMARY KEY\<close> table without \<open>AUTOINCREMENT\<close> takes the largest id
  in use plus one.
\<close>

definition next_id :: "('r \<Rightarrow> u32) \<Rightarrow> 'r list \<Rightarrow> u32" where
  "next_id ident rows = foldr max (map ident rows) 0 + 1"

definition update_where :: "('r \<Rightarrow> bool) \<Rightarrow> ('r \<Rightarrow> 'r) \<Rightarrow> 'r list \<Rightarrow> 'r list" where
  "update_where P f = map (\<lambda>r. if P r then f r else r)"

definition delete_where :: "('r \<Rightarrow> bool) \<Rightarrow> 'r list \<Rightarrow> 'r list" where
  "delete_where P = filter (\<lambda>r. \<not> P r)"

lemma next_id_fresh: "r \<in> set rows \<Longrightarrow> ident r < next_id ident rows"
proof -
  assume "r \<in> set rows"
  then have "ident r \<le> foldr max (map ident rows) 0" by (induction rows) auto
  then show ?thesis by (simp add: next_id_def)
qed

lemma map_update_where: "(\<And>r. g (f r) = g r) \<Longrightarrow> map g (update_where P f rows) = map g rows"
  by (simp add: update_where_def)

lemma set_update_where:
  "r \<in> set (update_where P f rows) \<longleftrightarrow> (\<exists>r0 \<in> set rows. r = (if P r0 then f r0 else r0))"
  by (auto simp: update_where_def)

lemma filter_update_where:
  "(\<And>r. Q (f r) = Q r) \<Longrightarrow> (\<And>r. P r \<Longrightarrow> \<not> Q r) \<Longrightarrow> filter Q (update_where P f rows) = filter Q rows"
  by (induction rows) (auto simp: update_where_def)

lemma set_delete_where [simp]: "set (delete_where P rows) = {r \<in> set rows. \<not> P r}"
  by (simp add: delete_where_def)

section \<open>Transactions\<close>

definition transaction_chain :: "blob \<Rightarrow> u32 \<Rightarrow> u32 \<Rightarrow> transaction_in" where
  "transaction_chain txid height time = \<lparr> tx_txid = txid, tx_height = height, tx_time = time,
     tx_details = False, tx_tpe = None, tx_value = 0, tx_fee = 0, tx_price = None,
     tx_category = None \<rparr>"

definition record_transaction :: "u32 \<Rightarrow> transaction_in \<Rightarrow> db \<Rightarrow> u32 option \<times> db" where
  "record_transaction account tx db =
     (if list_ex (\<lambda>r. tx_account r = account \<and> tx_txid r = tx_txid tx) (db_transactions db)
      then (None, db)
      else
        (let i = next_id tx_id (db_transactions db);
             row = \<lparr> tx_txid = tx_txid tx, tx_height = tx_height tx, tx_time = tx_time tx,
               tx_details = tx_details tx, tx_tpe = tx_tpe tx, tx_value = tx_value tx,
               tx_fee = tx_fee tx, tx_price = tx_price tx, tx_category = tx_category tx,
               tx_id = i, tx_account = account, tx_zsa_value = 0, tx_asset_id = None \<rparr>
         in (Some i, db\<lparr> db_transactions := db_transactions db @ [row] \<rparr>)))"

definition find_transaction :: "u32 \<Rightarrow> blob \<Rightarrow> db \<Rightarrow> (u32 \<times> u32) option" where
  "find_transaction account txid db =
     map_option (\<lambda>r. (tx_id r, tx_height r))
       (List.find (\<lambda>r. tx_account r = account \<and> tx_txid r = txid) (db_transactions db))"

definition transaction_ref :: "u32 \<Rightarrow> blob \<Rightarrow> db \<Rightarrow> log_error + (u32 \<times> u32)" where
  "transaction_ref account txid db =
     (case find_transaction account txid db of Some r \<Rightarrow> Inr r | None \<Rightarrow> Inl NoSuchTransaction)"

definition set_block_time :: "u32 \<Rightarrow> u32 \<Rightarrow> u32 \<Rightarrow> bool \<Rightarrow> db \<Rightarrow> db" where
  "set_block_time account height time only_missing db =
     db\<lparr> db_transactions := update_where
           (\<lambda>r. tx_height r = height \<and> tx_account r = account \<and> (only_missing \<longrightarrow> tx_time r = 0))
           (\<lambda>r. r\<lparr> tx_time := time \<rparr>) (db_transactions db) \<rparr>"

record transaction_details =
  td_tpe :: u8
  td_value :: i64
  td_zsa_value :: i64
  td_asset_id :: "int option"

definition set_transaction_details :: "u32 \<Rightarrow> transaction_details \<Rightarrow> db \<Rightarrow> db" where
  "set_transaction_details id_tx details db =
     db\<lparr> db_transactions := update_where (\<lambda>r. tx_id r = id_tx)
           (\<lambda>r. r\<lparr> tx_details := True, tx_tpe := Some (td_tpe details), tx_value := td_value details,
                   tx_zsa_value := td_zsa_value details, tx_asset_id := td_asset_id details \<rparr>)
           (db_transactions db) \<rparr>"

definition set_transaction_fee :: "u32 \<Rightarrow> u64 \<Rightarrow> db \<Rightarrow> db" where
  "set_transaction_fee id_tx fee db =
     db\<lparr> db_transactions := update_where (\<lambda>r. tx_id r = id_tx)
           (\<lambda>r. r\<lparr> tx_fee := as_i64 fee \<rparr>) (db_transactions db) \<rparr>"

definition set_transaction_category :: "u32 \<Rightarrow> u32 option \<Rightarrow> db \<Rightarrow> db" where
  "set_transaction_category id_tx category db =
     db\<lparr> db_transactions := update_where (\<lambda>r. tx_id r = id_tx)
           (\<lambda>r. r\<lparr> tx_category := category \<rparr>) (db_transactions db) \<rparr>"

definition clear_category :: "u32 \<Rightarrow> db \<Rightarrow> db" where
  "clear_category category db =
     db\<lparr> db_transactions := update_where (\<lambda>r. tx_category r = Some category)
           (\<lambda>r. r\<lparr> tx_category := None \<rparr>) (db_transactions db) \<rparr>"

definition set_transaction_price :: "u32 \<Rightarrow> f64 option \<Rightarrow> db \<Rightarrow> db" where
  "set_transaction_price id_tx price db =
     db\<lparr> db_transactions := update_where (\<lambda>r. tx_id r = id_tx)
           (\<lambda>r. r\<lparr> tx_price := price \<rparr>) (db_transactions db) \<rparr>"

definition scale_transaction_prices :: "(f64 \<Rightarrow> f64 \<Rightarrow> f64) \<Rightarrow> f64 \<Rightarrow> db \<Rightarrow> db" where
  "scale_transaction_prices mul rate db =
     db\<lparr> db_transactions := update_where (\<lambda>r. tx_price r \<noteq> None)
           (\<lambda>r. r\<lparr> tx_price := map_option (\<lambda>p. mul p rate) (tx_price r) \<rparr>) (db_transactions db) \<rparr>"

text \<open>
  The update takes its values from a join. When several pending rows match one transaction
  SQLite uses one of them, arbitrarily: \<open>pick\<close> is that choice.
\<close>

definition apply_pending_metadata ::
  "(pending_row list \<Rightarrow> pending_row) \<Rightarrow> u32 \<Rightarrow> u32 \<Rightarrow> db \<Rightarrow> db" where
  "apply_pending_metadata pick account height db =
     (let matching = (\<lambda>r. filter (\<lambda>p. pd_txid p = tx_txid r) (db_pending db))
      in db\<lparr> db_transactions := update_where (\<lambda>r. tx_account r = account \<and> matching r \<noteq> [])
               (\<lambda>r. r\<lparr> tx_price := pd_price (pick (matching r)),
                       tx_category := pd_category (pick (matching r)) \<rparr>) (db_transactions db),
             db_pending := delete_where
               (\<lambda>p. pd_account p = account \<and> pd_height p < sat_sub height 100) (db_pending db) \<rparr>)"

section \<open>Assets\<close>

definition asset_row_of :: "u32 \<Rightarrow> asset_in \<Rightarrow> asset_row" where
  "asset_row_of i a = \<lparr> as_desc_hash = as_desc_hash a, as_ik = as_ik a, as_base = as_base a,
     as_name = as_name a, as_finalized = as_finalized a,
     as_first_seen_height = as_first_seen_height a, as_id = i \<rparr>"

text \<open>
  The upsert applies to a conflict on the asset base; a conflict on the description hash and
  issuer key, of the inserted or of the updated row, is a constraint error.
\<close>

definition record_asset :: "asset_in \<Rightarrow> db \<Rightarrow> log_error + db" where
  "record_asset a db =
     (let same_key = (\<lambda>r. as_desc_hash r = as_desc_hash a \<and> as_ik r = as_ik a)
      in case List.find (\<lambda>r. as_base r = as_base a) (db_assets db) of
           Some r \<Rightarrow>
             (if as_desc_hash r \<noteq> as_base r then Inr db
              else if list_ex (\<lambda>q. as_id q \<noteq> as_id r \<and> same_key q) (db_assets db)
                   then Inl ConstraintViolated
              else Inr (db\<lparr> db_assets := update_where (\<lambda>q. as_id q = as_id r)
                     (\<lambda>q. q\<lparr> as_desc_hash := as_desc_hash a, as_ik := as_ik a,
                             as_name := (case as_name q of None \<Rightarrow> as_name a | n \<Rightarrow> n),
                             as_finalized := as_finalized a \<rparr>) (db_assets db) \<rparr>))
         | None \<Rightarrow>
             (if list_ex same_key (db_assets db) then Inl ConstraintViolated
              else Inr (db\<lparr> db_assets := db_assets db
                     @ [asset_row_of (next_id as_id (db_assets db)) a] \<rparr>)))"

definition asset_id :: "blob \<Rightarrow> blob \<Rightarrow> db \<Rightarrow> u32 option" where
  "asset_id desc_hash ik db =
     map_option as_id
       (List.find (\<lambda>r. as_desc_hash r = desc_hash \<and> as_ik r = ik) (db_assets db))"

definition set_asset_name :: "u32 \<Rightarrow> string \<Rightarrow> db \<Rightarrow> log_error + db" where
  "set_asset_name id_asset name db =
     (if list_ex (\<lambda>r. as_id r = id_asset) (db_assets db)
      then Inr (db\<lparr> db_assets := update_where (\<lambda>r. as_id r = id_asset)
                     (\<lambda>r. r\<lparr> as_name := Some name \<rparr>) (db_assets db) \<rparr>)
      else Inl NoSuchAsset)"

record issuance =
  iss_desc_hash :: blob
  iss_ik :: blob
  iss_base :: blob
  iss_finalized :: bool
  iss_height :: u32

definition record_issuance :: "issuance \<Rightarrow> db \<Rightarrow> log_error + db" where
  "record_issuance iss db =
     (case record_asset \<lparr> as_desc_hash = iss_desc_hash iss, as_ik = iss_ik iss,
              as_base = iss_base iss, as_name = None, as_finalized = iss_finalized iss,
              as_first_seen_height = iss_height iss \<rparr> db of
        Inl e \<Rightarrow> Inl e
      | Inr db' \<Rightarrow>
          Inr (if iss_finalized iss
               then db'\<lparr> db_assets := update_where
                      (\<lambda>r. as_desc_hash r = iss_desc_hash iss \<and> as_ik r = iss_ik iss)
                      (\<lambda>r. r\<lparr> as_finalized := True \<rparr>) (db_assets db') \<rparr>
               else db'))"

definition asset_id_for_base :: "blob \<Rightarrow> u32 \<Rightarrow> db \<Rightarrow> u32 option \<times> db" where
  "asset_id_for_base base height db =
     (if length base \<noteq> 32 \<or> base = replicate 32 0 then (None, db)
      else
        (let ik = 0 # take 32 base;
             conflict = list_ex (\<lambda>r. as_base r = base
                          \<or> (as_desc_hash r = base \<and> as_ik r = ik)) (db_assets db);
             db' = (if conflict then db
                    else db\<lparr> db_assets := db_assets db
                      @ [asset_row_of (next_id as_id (db_assets db))
                           \<lparr> as_desc_hash = base, as_ik = ik, as_base = base, as_name = None,
                             as_finalized = False, as_first_seen_height = height \<rparr>] \<rparr>)
         in (map_option as_id (List.find (\<lambda>r. as_base r = base) (db_assets db')), db')))"

section \<open>Notes, spends, witnesses\<close>

definition record_note :: "u32 \<Rightarrow> note_in \<Rightarrow> db \<Rightarrow> u32 option \<times> db" where
  "record_note account n db =
     (if list_ex (\<lambda>r. nt_account r = account \<and> nt_nullifier r = nt_nullifier n) (db_notes db)
      then (None, db)
      else
        (let i = next_id nt_id (db_notes db);
             row = \<lparr> nt_id_tx = nt_id_tx n, nt_height = nt_height n, nt_pool = nt_pool n,
               nt_scope = nt_scope n, nt_nullifier = nt_nullifier n, nt_value = nt_value n,
               nt_cmx = nt_cmx n, nt_taddress = nt_taddress n, nt_position = nt_position n,
               nt_diversifier = nt_diversifier n, nt_rcm = nt_rcm n, nt_rho = nt_rho n,
               nt_locked = nt_locked n, nt_id_asset = nt_id_asset n,
               nt_diversifier_index = nt_diversifier_index n, nt_id = i, nt_account = account \<rparr>
         in (Some i, db\<lparr> db_notes := db_notes db @ [row] \<rparr>)))"

fun key_matches :: "note_key \<Rightarrow> note_row \<Rightarrow> bool" where
  "key_matches (ById i) r \<longleftrightarrow> nt_id r = i"
| "key_matches (ByNullifier nf) r \<longleftrightarrow> nt_nullifier r = nf"
| "key_matches (ByCmx cmx) r \<longleftrightarrow> nt_cmx r = Some cmx"

definition find_note :: "u32 \<Rightarrow> note_key \<Rightarrow> db \<Rightarrow> (u32 \<times> i64) option" where
  "find_note account key db =
     map_option (\<lambda>r. (nt_id r, nt_value r))
       (List.find (\<lambda>r. nt_account r = account \<and> key_matches key r) (db_notes db))"

definition set_locked :: "bool \<Rightarrow> note_row \<Rightarrow> note_row" where
  "set_locked locked r = r\<lparr> nt_locked := locked \<rparr>"

definition record_spend :: "u32 \<Rightarrow> spend_in \<Rightarrow> db \<Rightarrow> log_error + (bool \<times> db)" where
  "record_spend account s db =
     (case find_note account (si_note s) db of
        None \<Rightarrow> Inl NoSuchNote
      | Some (id_note, _) \<Rightarrow>
          (let known = list_ex (\<lambda>r. sp_id_note r = id_note) (db_spends db);
               spends = (if known then db_spends db
                 else db_spends db @ [\<lparr> sp_id_note = id_note, sp_height = si_height s,
                   sp_account = account, sp_pool = si_pool s, sp_tx = si_id_tx s,
                   sp_value = si_value s \<rparr>])
           in Inr (\<not> known,
                   db\<lparr> db_spends := spends,
                       db_notes := update_where (\<lambda>r. nt_id r = id_note) (set_locked False)
                         (db_notes db) \<rparr>)))"

definition set_note_lock :: "u32 \<Rightarrow> u32 \<Rightarrow> bool \<Rightarrow> db \<Rightarrow> db" where
  "set_note_lock account id_note locked db =
     db\<lparr> db_notes := update_where (\<lambda>r. nt_account r = account \<and> nt_id r = id_note)
           (set_locked locked) (db_notes db) \<rparr>"

definition lock_notes_above :: "u32 \<Rightarrow> u32 \<Rightarrow> db \<Rightarrow> db" where
  "lock_notes_above account height db =
     db\<lparr> db_notes := update_where (\<lambda>r. nt_account r = account \<and> nt_height r > height)
           (set_locked True) (db_notes db) \<rparr>"

definition toggle_all_locks :: "u32 \<Rightarrow> db \<Rightarrow> db" where
  "toggle_all_locks account db =
     db\<lparr> db_notes := update_where (\<lambda>r. nt_account r = account)
           (\<lambda>r. set_locked (\<not> nt_locked r) r) (db_notes db) \<rparr>"

definition unlock_all :: "u32 \<Rightarrow> db \<Rightarrow> db" where
  "unlock_all account db =
     db\<lparr> db_notes := update_where (\<lambda>r. nt_account r = account) (set_locked False) (db_notes db) \<rparr>"

datatype lock_op = LockNote u32 bool | LockAbove u32 | UnlockAll | ToggleAll

fun apply_lock :: "u32 \<Rightarrow> lock_op \<Rightarrow> db \<Rightarrow> db" where
  "apply_lock account (LockNote id_note locked) db = set_note_lock account id_note locked db"
| "apply_lock account (LockAbove height) db = lock_notes_above account height db"
| "apply_lock account UnlockAll db = unlock_all account db"
| "apply_lock account ToggleAll db = toggle_all_locks account db"

definition set_lock_of :: "bool \<Rightarrow> u32 \<Rightarrow> blob \<Rightarrow> db \<Rightarrow> db" where
  "set_lock_of locked account nf db =
     db\<lparr> db_notes := update_where (\<lambda>r. nt_account r = account \<and> nt_nullifier r = nf)
           (set_locked locked) (db_notes db) \<rparr>"

definition lock_notes :: "u32 \<Rightarrow> blob list \<Rightarrow> db \<Rightarrow> db" where
  "lock_notes account nullifiers db = fold (set_lock_of True account) nullifiers db"

definition unlock_notes :: "u32 \<Rightarrow> blob list \<Rightarrow> db \<Rightarrow> db" where
  "unlock_notes account nullifiers db = fold (set_lock_of False account) nullifiers db"

definition record_witness :: "u32 \<Rightarrow> note_key \<Rightarrow> u32 \<Rightarrow> blob \<Rightarrow> db \<Rightarrow> log_error + db" where
  "record_witness account key height witness db =
     (case find_note account key db of
        None \<Rightarrow> Inl NoSuchNote
      | Some (id_note, _) \<Rightarrow>
          (if list_ex (\<lambda>r. wt_note r = id_note \<and> wt_height r = height) (db_witnesses db)
           then Inl ConstraintViolated
           else Inr (db\<lparr> db_witnesses := db_witnesses db
                  @ [\<lparr> wt_id = next_id wt_id (db_witnesses db), wt_account = account,
                       wt_note = id_note, wt_height = height, wt_witness = witness \<rparr>] \<rparr>)))"

record missing_witness =
  mw_account :: u32
  mw_pool :: u8
  mw_height :: u32
  mw_value :: i64
  mw_checkpoint :: u32

definition unspent :: "db \<Rightarrow> note_row \<Rightarrow> bool" where
  "unspent db r \<longleftrightarrow> \<not> list_ex (\<lambda>s. sp_id_note s = nt_id r) (db_spends db)"

definition notes_missing_witness :: "u32 list \<Rightarrow> db \<Rightarrow> missing_witness list" where
  "notes_missing_witness accounts db =
     (if accounts = [] then []
      else concat (map (\<lambda>u.
        map (\<lambda>d. \<lparr> mw_account = nt_account u, mw_pool = nt_pool u, mw_height = nt_height u,
                    mw_value = nt_value u, mw_checkpoint = sh_height d \<rparr>)
          (filter (\<lambda>d. sh_account d = nt_account u \<and> sh_pool d = nt_pool u
               \<and> \<not> list_ex (\<lambda>w. wt_note w = nt_id u \<and> wt_account w = nt_account u
                      \<and> wt_height w = sh_height d) (db_witnesses db))
            (db_sync_heights db)))
        (filter (\<lambda>u. unspent db u \<and> nt_pool u \<noteq> 0 \<and> nt_id_asset u = None
             \<and> nt_account u \<in> set accounts) (db_notes db))))"

section \<open>Outputs and memos\<close>

definition record_output :: "u32 \<Rightarrow> output_in \<Rightarrow> db \<Rightarrow> log_error + (u32 \<times> db)" where
  "record_output account o' db =
     (let same = (\<lambda>r. ou_id_tx r = ou_id_tx o' \<and> ou_pool r = ou_pool o' \<and> ou_vout r = ou_vout o');
          db' = (if list_ex same (db_outputs db) then db
                 else db\<lparr> db_outputs := db_outputs db
                   @ [\<lparr> ou_id_tx = ou_id_tx o', ou_height = ou_height o', ou_pool = ou_pool o',
                        ou_vout = ou_vout o', ou_value = ou_value o', ou_address = ou_address o',
                        ou_id = next_id ou_id (db_outputs db), ou_account = account \<rparr>] \<rparr>)
      in case List.find same (db_outputs db') of
           Some r \<Rightarrow> Inr (ou_id r, db')
         | None \<Rightarrow> Inl NotStored)"

definition record_memo :: "u32 \<Rightarrow> memo_in \<Rightarrow> db \<Rightarrow> db" where
  "record_memo account m db =
     (if list_ex (\<lambda>r. me_id_tx r = me_id_tx m \<and> me_pool r = me_pool m \<and> me_vout r = me_vout m)
           (db_memos db)
      then db
      else db\<lparr> db_memos := db_memos db
        @ [\<lparr> me_id_tx = me_id_tx m, me_height = me_height m, me_pool = me_pool m,
             me_vout = me_vout m, me_note = me_note m, me_output = me_output m,
             me_text = me_text m, me_bytes = me_bytes m,
             me_id = next_id me_id (db_memos db), me_account = account \<rparr>] \<rparr>)"

text \<open>\<open>db::set_user_memo\<close>: the note of a user on a transaction, at the transaction's height.\<close>

definition set_user_memo :: "u32 \<Rightarrow> blob \<Rightarrow> string option \<Rightarrow> db \<Rightarrow> db" where
  "set_user_memo account txid memo db =
     (let txs = filter (\<lambda>t. tx_account t = account \<and> tx_txid t = txid) (db_transactions db);
          clear = db\<lparr> db_user_memos := delete_where
            (\<lambda>m. um_account m = account \<and> list_ex (\<lambda>t. tx_id t = um_id_tx m) txs)
            (db_user_memos db) \<rparr>
      in case memo of
           None \<Rightarrow> clear
         | Some text \<Rightarrow>
             (if text = [] then clear
              else foldl (\<lambda>db t.
                (if list_ex (\<lambda>m. um_account m = account \<and> um_id_tx m = tx_id t) (db_user_memos db)
                 then db\<lparr> db_user_memos := update_where
                        (\<lambda>m. um_account m = account \<and> um_id_tx m = tx_id t)
                        (\<lambda>m. m\<lparr> um_text := text \<rparr>) (db_user_memos db) \<rparr>
                 else db\<lparr> db_user_memos := db_user_memos db
                        @ [\<lparr> um_account = account, um_id_tx = tx_id t, um_height = tx_height t,
                             um_text = text \<rparr>] \<rparr>)) db txs))"

text \<open>\<open>db::store_pending_tx\<close>: \<open>INSERT OR REPLACE\<close> by account and txid.\<close>

definition store_pending_tx ::
  "u32 \<Rightarrow> u32 \<Rightarrow> blob \<Rightarrow> f64 option \<Rightarrow> u32 option \<Rightarrow> db \<Rightarrow> db" where
  "store_pending_tx account height txid price category db =
     (let txid' = rev txid;
          kept = delete_where (\<lambda>p. pd_account p = account \<and> pd_txid p = txid') (db_pending db)
      in db\<lparr> db_pending := kept @ [\<lparr> pd_id = next_id pd_id (db_pending db), pd_account = account,
               pd_txid = txid', pd_height = height, pd_price = price, pd_category = category \<rparr>] \<rparr>)"

section \<open>Headers and checkpoints\<close>

definition store_header :: "u32 \<Rightarrow> header_in \<Rightarrow> db \<Rightarrow> db" where
  "store_header account h db =
     (if list_ex (\<lambda>r. hd_account r = account \<and> hd_height r = hd_height h) (db_headers db) then db
      else db\<lparr> db_headers := db_headers db
        @ [\<lparr> hd_height = hd_height h, hd_hash = hd_hash h, hd_time = hd_time h,
             hd_account = account \<rparr>] \<rparr>)"

definition record_relevant_header :: "u32 \<Rightarrow> header_in \<Rightarrow> db \<Rightarrow> db" where
  "record_relevant_header account h db =
     (if list_ex (\<lambda>r. tx_account r = account \<and> tx_height r = hd_height h) (db_transactions db)
         \<or> list_ex (\<lambda>r. sh_account r = account \<and> sh_height r = hd_height h) (db_sync_heights db)
         \<or> list_ex (\<lambda>r. wt_account r = account \<and> wt_height r = hd_height h) (db_witnesses db)
      then store_header account h db else db)"

definition header_hash :: "u32 \<Rightarrow> u32 \<Rightarrow> db \<Rightarrow> blob option" where
  "header_hash account height db =
     map_option hd_hash
       (List.find (\<lambda>r. hd_account r = account \<and> hd_height r = height) (db_headers db))"

definition set_checkpoint :: "u32 \<Rightarrow> u8 \<Rightarrow> u32 \<Rightarrow> db \<Rightarrow> db" where
  "set_checkpoint account pool height db =
     db\<lparr> db_sync_heights :=
           delete_where (\<lambda>r. sh_account r = account \<and> sh_pool r = pool) (db_sync_heights db)
           @ [\<lparr> sh_account = account, sh_pool = pool, sh_height = height \<rparr>] \<rparr>"

definition account_has_pool :: "u32 \<Rightarrow> u8 \<Rightarrow> db \<Rightarrow> bool panics" where
  "account_has_pool account pool db =
     (if pool = 0 then Some (account \<in> set (db_transparent_accounts db))
      else if pool = 1 then Some (account \<in> set (db_sapling_accounts db))
      else if pool = 2 \<or> pool = 3 then Some (account \<in> set (db_orchard_accounts db))
      else None)"

definition checkpoint :: "u32 \<Rightarrow> u8 \<Rightarrow> u32 \<Rightarrow> db \<Rightarrow> db panics" where
  "checkpoint account pool height db =
     do {
       has \<leftarrow> account_has_pool account pool db;
       Some (if has then set_checkpoint account pool height db else db)
     }"

datatype network_upgrade = Sapling_Upgrade | Nu5_Upgrade | Nu6_3_Upgrade

text \<open>The activation heights of a network are those of the \<open>zcash_protocol\<close> crate.\<close>

definition init_checkpoints ::
  "(network_upgrade \<Rightarrow> u32 option) \<Rightarrow> u32 \<Rightarrow> u32 \<Rightarrow> db \<Rightarrow> db panics" where
  "init_checkpoints activation account birth_height db =
     foldM (\<lambda>db pool.
        do {
          a \<leftarrow> (if pool = 0 then Some 0
               else if pool = 1 then activation Sapling_Upgrade
               else if pool = 2 then activation Nu5_Upgrade
               else activation Nu6_3_Upgrade);
          Some (db\<lparr> db_sync_heights := update_where
                  (\<lambda>r. sh_account r = account \<and> sh_pool r = pool)
                  (\<lambda>r. r\<lparr> sh_height := max birth_height a \<rparr>) (db_sync_heights db) \<rparr>)
        }) db (if activation Nu6_3_Upgrade \<noteq> None then [0, 1, 2, 3] else [0, 1, 2])"

definition max_height :: "u32 list \<Rightarrow> u32 option" where
  "max_height hs = (if hs = [] then None else Some (foldr max hs 0))"

definition last_checkpoint_before :: "u32 \<Rightarrow> u32 \<Rightarrow> db \<Rightarrow> u32 option" where
  "last_checkpoint_before account height db =
     max_height (map wt_height
       (filter (\<lambda>r. wt_height r < height \<and> wt_account r = account) (db_witnesses db)))"

definition prune_witnesses_before :: "u32 \<Rightarrow> u32 \<Rightarrow> db \<Rightarrow> db" where
  "prune_witnesses_before account height db =
     db\<lparr> db_witnesses := delete_where (\<lambda>r. wt_account r = account \<and> wt_height r < height)
           (db_witnesses db) \<rparr>"

definition trim_to :: "u32 \<Rightarrow> u32 \<Rightarrow> db \<Rightarrow> db" where
  "trim_to account height db =
     db\<lparr> db_headers := delete_where (\<lambda>r. hd_height r > height \<and> hd_account r = account) (db_headers db),
         db_notes := delete_where (\<lambda>r. nt_height r > height \<and> nt_account r = account) (db_notes db),
         db_spends := delete_where (\<lambda>r. sp_height r > height \<and> sp_account r = account) (db_spends db),
         db_transactions := delete_where (\<lambda>r. tx_height r > height \<and> tx_account r = account)
           (db_transactions db),
         db_witnesses := delete_where (\<lambda>r. wt_height r > height \<and> wt_account r = account)
           (db_witnesses db),
         db_outputs := delete_where (\<lambda>r. ou_height r > height \<and> ou_account r = account) (db_outputs db),
         db_memos := delete_where (\<lambda>r. me_height r > height \<and> me_account r = account) (db_memos db),
         db_user_memos := delete_where (\<lambda>r. um_height r > height \<and> um_account r = account)
           (db_user_memos db),
         db_sync_heights := update_where (\<lambda>r. sh_account r = account)
           (\<lambda>r. r\<lparr> sh_height := height \<rparr>) (db_sync_heights db) \<rparr>"

definition delete_account_data :: "u32 \<Rightarrow> db \<Rightarrow> db" where
  "delete_account_data account db =
     db\<lparr> db_outputs := delete_where (\<lambda>r. ou_account r = account) (db_outputs db),
         db_memos := delete_where (\<lambda>r. me_account r = account) (db_memos db),
         db_user_memos := delete_where (\<lambda>r. um_account r = account) (db_user_memos db),
         db_witnesses := delete_where (\<lambda>r. wt_account r = account) (db_witnesses db),
         db_notes := delete_where (\<lambda>r. nt_account r = account) (db_notes db),
         db_spends := delete_where (\<lambda>r. sp_account r = account) (db_spends db),
         db_transactions := delete_where (\<lambda>r. tx_account r = account) (db_transactions db),
         db_headers := delete_where (\<lambda>r. hd_account r = account) (db_headers db),
         db_sync_heights := delete_where (\<lambda>r. sh_account r = account) (db_sync_heights db),
         db_pending := delete_where (\<lambda>r. pd_account r = account) (db_pending db) \<rparr>"

end
