(* ===== verification/Chain_Log_Correct.thy ===== *)
theory Chain_Log_Correct
  imports Chain_Log
begin

text \<open>
  The chain log's invariant (the uniqueness constraints and the references between tables)
  and its preservation by every operation; the contract of an operation that works for one
  account; what a rewind removes and keeps.
\<close>

section \<open>The invariant\<close>

definition keys_unique :: "db \<Rightarrow> bool" where
  "keys_unique db \<longleftrightarrow>
     distinct (map tx_id (db_transactions db))
     \<and> distinct (map (\<lambda>r. (tx_account r, tx_txid r)) (db_transactions db))
     \<and> distinct (map nt_id (db_notes db))
     \<and> distinct (map (\<lambda>r. (nt_account r, nt_nullifier r)) (db_notes db))
     \<and> distinct (map sp_id_note (db_spends db))
     \<and> distinct (map wt_id (db_witnesses db))
     \<and> distinct (map (\<lambda>r. (wt_note r, wt_height r)) (db_witnesses db))
     \<and> distinct (map ou_id (db_outputs db))
     \<and> distinct (map (\<lambda>r. (ou_id_tx r, ou_pool r, ou_vout r)) (db_outputs db))
     \<and> distinct (map me_id (db_memos db))
     \<and> distinct (map (\<lambda>r. (me_id_tx r, me_pool r, me_vout r)) (db_memos db))
     \<and> distinct (map (\<lambda>r. (um_account r, um_id_tx r)) (db_user_memos db))
     \<and> distinct (map (\<lambda>r. (hd_account r, hd_height r)) (db_headers db))
     \<and> distinct (map (\<lambda>r. (sh_account r, sh_pool r)) (db_sync_heights db))"

text \<open>The transactions and the notes that other rows refer to: id, account and height.\<close>

definition tx_keys :: "db \<Rightarrow> (u32 \<times> u32 \<times> u32) set" where
  "tx_keys db = set (map (\<lambda>r. (tx_id r, tx_account r, tx_height r)) (db_transactions db))"

definition note_keys :: "db \<Rightarrow> (u32 \<times> u32 \<times> u32) set" where
  "note_keys db = set (map (\<lambda>r. (nt_id r, nt_account r, nt_height r)) (db_notes db))"

definition refs_ok :: "db \<Rightarrow> bool" where
  "refs_ok db \<longleftrightarrow>
     (\<forall>n \<in> set (db_notes db). (nt_id_tx n, nt_account n, nt_height n) \<in> tx_keys db)
     \<and> (\<forall>s \<in> set (db_spends db). (sp_tx s, sp_account s, sp_height s) \<in> tx_keys db
          \<and> (\<exists>h \<le> sp_height s. (sp_id_note s, sp_account s, h) \<in> note_keys db))
     \<and> (\<forall>w \<in> set (db_witnesses db). \<exists>h \<le> wt_height w. (wt_note w, wt_account w, h) \<in> note_keys db)
     \<and> (\<forall>o' \<in> set (db_outputs db). (ou_id_tx o', ou_account o', ou_height o') \<in> tx_keys db)
     \<and> (\<forall>m \<in> set (db_memos db). (me_id_tx m, me_account m, me_height m) \<in> tx_keys db)
     \<and> (\<forall>m \<in> set (db_user_memos db). (um_id_tx m, um_account m, um_height m) \<in> tx_keys db)"

definition log_ok :: "db \<Rightarrow> bool" where
  "log_ok db \<longleftrightarrow> keys_unique db \<and> refs_ok db"

definition empty_log :: "db \<Rightarrow> bool" where
  "empty_log db \<longleftrightarrow> db_transactions db = [] \<and> db_notes db = [] \<and> db_spends db = []
     \<and> db_witnesses db = [] \<and> db_outputs db = [] \<and> db_memos db = [] \<and> db_user_memos db = []
     \<and> db_headers db = [] \<and> db_sync_heights db = []"

lemma log_ok_empty: "empty_log db \<Longrightarrow> log_ok db"
  by (simp add: empty_log_def log_ok_def keys_unique_def refs_ok_def)

lemma distinct_delete: "distinct (map f rows) \<Longrightarrow> distinct (map f (delete_where P rows))"
  by (simp add: delete_where_def distinct_map_filter)

lemma distinct_next_id:
  "distinct (map ident rows) \<Longrightarrow> ident r = next_id ident rows \<Longrightarrow> distinct (map ident (rows @ [r]))"
  by (auto dest!: next_id_fresh [where ident = ident])

lemma distinct_new:
  "distinct (map f rows) \<Longrightarrow> \<not> list_ex (\<lambda>q. f q = f r) rows \<Longrightarrow> distinct (map f (rows @ [r]))"
  by (auto simp: list_ex_iff)

text \<open>Updates that touch no key column keep the invariant.\<close>

lemma log_ok_note_update:
  assumes "log_ok db" and "\<And>r. nt_id (f r) = nt_id r" and "\<And>r. nt_account (f r) = nt_account r"
    and "\<And>r. nt_nullifier (f r) = nt_nullifier r" and "\<And>r. nt_height (f r) = nt_height r"
    and "\<And>r. nt_id_tx (f r) = nt_id_tx r"
  shows "log_ok (db\<lparr> db_notes := update_where P f (db_notes db) \<rparr>)"
proof -
  have "map nt_id (update_where P f (db_notes db)) = map nt_id (db_notes db)"
    "map (\<lambda>r. (nt_account r, nt_nullifier r)) (update_where P f (db_notes db))
      = map (\<lambda>r. (nt_account r, nt_nullifier r)) (db_notes db)"
    using assms(2-4) by (simp_all add: map_update_where)
  moreover have "map (\<lambda>r. (nt_id r, nt_account r, nt_height r)) (update_where P f (db_notes db))
      = map (\<lambda>r. (nt_id r, nt_account r, nt_height r)) (db_notes db)"
    using assms by (simp add: map_update_where)
  ultimately show ?thesis
    using assms unfolding log_ok_def keys_unique_def refs_ok_def tx_keys_def note_keys_def
    by (auto simp: set_update_where)
qed

lemma log_ok_tx_update:
  assumes "log_ok db" and "\<And>r. tx_id (f r) = tx_id r" and "\<And>r. tx_account (f r) = tx_account r"
    and "\<And>r. tx_txid (f r) = tx_txid r" and "\<And>r. tx_height (f r) = tx_height r"
  shows "log_ok (db\<lparr> db_transactions := update_where P f (db_transactions db) \<rparr>)"
proof -
  have "map tx_id (update_where P f (db_transactions db)) = map tx_id (db_transactions db)"
    "map (\<lambda>r. (tx_account r, tx_txid r)) (update_where P f (db_transactions db))
      = map (\<lambda>r. (tx_account r, tx_txid r)) (db_transactions db)"
    "map (\<lambda>r. (tx_id r, tx_account r, tx_height r)) (update_where P f (db_transactions db))
      = map (\<lambda>r. (tx_id r, tx_account r, tx_height r)) (db_transactions db)"
    using assms(2-5) by (simp_all add: map_update_where)
  then show ?thesis
    using assms(1) unfolding log_ok_def keys_unique_def refs_ok_def tx_keys_def note_keys_def
    by simp
qed

lemma log_ok_frame [frame_simps]:
  "log_ok (db\<lparr> db_pending := x \<rparr>) = log_ok db" "log_ok (db\<lparr> db_assets := y \<rparr>) = log_ok db"
  by (simp_all add: log_ok_def keys_unique_def refs_ok_def tx_keys_def note_keys_def)

lemma log_ok_tx_columns:
  "log_ok db \<Longrightarrow> log_ok (set_block_time a h t om db)"
  "log_ok db \<Longrightarrow> log_ok (set_transaction_details i d db)"
  "log_ok db \<Longrightarrow> log_ok (set_transaction_fee i fee db)"
  "log_ok db \<Longrightarrow> log_ok (set_transaction_category i c db)"
  "log_ok db \<Longrightarrow> log_ok (clear_category cat db)"
  "log_ok db \<Longrightarrow> log_ok (set_transaction_price i p db)"
  "log_ok db \<Longrightarrow> log_ok (scale_transaction_prices mul rate db)"
  by (simp_all add: set_block_time_def set_transaction_details_def set_transaction_fee_def
      set_transaction_category_def clear_category_def set_transaction_price_def
      scale_transaction_prices_def log_ok_tx_update)

lemma log_ok_apply_pending: "log_ok db \<Longrightarrow> log_ok (apply_pending_metadata pick a h db)"
  using log_ok_tx_update [of db]
  by (simp add: apply_pending_metadata_def Let_def frame_simps)

lemma set_locked_fields [simp]:
  "nt_id (set_locked l r) = nt_id r" "nt_account (set_locked l r) = nt_account r"
  "nt_nullifier (set_locked l r) = nt_nullifier r" "nt_height (set_locked l r) = nt_height r"
  "nt_id_tx (set_locked l r) = nt_id_tx r" "nt_locked (set_locked l r) = l"
  "nt_pool (set_locked l r) = nt_pool r" "nt_value (set_locked l r) = nt_value r"
  by (simp_all add: set_locked_def)

lemma log_ok_set_lock_of: "log_ok db \<Longrightarrow> log_ok (set_lock_of l a nf db)"
  by (simp add: set_lock_of_def log_ok_note_update)

lemma log_ok_locks:
  "log_ok db \<Longrightarrow> log_ok (apply_lock a op db)"
  "log_ok db \<Longrightarrow> log_ok (lock_notes a nfs db)"
  "log_ok db \<Longrightarrow> log_ok (unlock_notes a nfs db)"
proof -
  have "log_ok db \<Longrightarrow> log_ok (fold (set_lock_of l a) nfs db)" for l
    by (induction nfs arbitrary: db) (simp_all add: log_ok_set_lock_of)
  then show "log_ok db \<Longrightarrow> log_ok (lock_notes a nfs db)" "log_ok db \<Longrightarrow> log_ok (unlock_notes a nfs db)"
    by (simp_all add: lock_notes_def unlock_notes_def)
  show "log_ok db \<Longrightarrow> log_ok (apply_lock a op db)"
    by (cases op) (simp_all add: set_note_lock_def lock_notes_above_def unlock_all_def
        toggle_all_locks_def log_ok_note_update)
qed

section \<open>Records\<close>

lemma record_transaction_new:
  "record_transaction a tx db = (Some i, db') \<Longrightarrow>
     \<not> list_ex (\<lambda>r. tx_account r = a \<and> tx_txid r = tx_txid tx) (db_transactions db)
     \<and> i = next_id tx_id (db_transactions db)
     \<and> (\<exists>row. db' = db\<lparr> db_transactions := db_transactions db @ [row] \<rparr> \<and> tx_id row = i
          \<and> tx_account row = a \<and> tx_txid row = tx_txid tx \<and> tx_height row = tx_height tx)"
  by (auto simp: record_transaction_def Let_def split: if_splits)

lemma record_transaction_known: "record_transaction a tx db = (None, db') \<Longrightarrow> db' = db"
  by (auto simp: record_transaction_def Let_def split: if_splits)

lemma log_ok_record_transaction:
  assumes "log_ok db" and "record_transaction a tx db = (res, db')"
  shows "log_ok db'"
proof (cases res)
  case None
  with assms record_transaction_known show ?thesis by fastforce
next
  case (Some i)
  then obtain row where row: "db' = db\<lparr> db_transactions := db_transactions db @ [row] \<rparr>"
    "tx_id row = next_id tx_id (db_transactions db)" "tx_account row = a"
    "tx_txid row = tx_txid tx"
    "\<not> list_ex (\<lambda>r. tx_account r = a \<and> tx_txid r = tx_txid tx) (db_transactions db)"
    using record_transaction_new assms(2) by blast
  have "distinct (map tx_id (db_transactions db @ [row]))"
    using assms(1) row(2) by (intro distinct_next_id) (simp_all add: log_ok_def keys_unique_def)
  moreover have "distinct (map (\<lambda>r. (tx_account r, tx_txid r)) (db_transactions db @ [row]))"
    using assms(1) row(3-5) by (intro distinct_new) (simp_all add: log_ok_def keys_unique_def)
  moreover have "tx_keys db \<subseteq> tx_keys db'" "note_keys db' = note_keys db"
    by (auto simp: tx_keys_def note_keys_def row(1))
  ultimately show ?thesis
    using assms(1) unfolding log_ok_def keys_unique_def refs_ok_def
    by (auto simp: row(1))
qed

lemma record_note_new:
  "record_note a n db = (Some i, db') \<Longrightarrow>
     \<not> list_ex (\<lambda>r. nt_account r = a \<and> nt_nullifier r = nt_nullifier n) (db_notes db)
     \<and> i = next_id nt_id (db_notes db)
     \<and> (\<exists>row. db' = db\<lparr> db_notes := db_notes db @ [row] \<rparr> \<and> nt_id row = i
          \<and> nt_account row = a \<and> nt_nullifier row = nt_nullifier n \<and> nt_height row = nt_height n
          \<and> nt_id_tx row = nt_id_tx n)"
  by (auto simp: record_note_def Let_def split: if_splits)

lemma record_note_known: "record_note a n db = (None, db') \<Longrightarrow> db' = db"
  by (auto simp: record_note_def Let_def split: if_splits)

lemma log_ok_record_note:
  assumes "log_ok db" and "record_note a n db = (res, db')"
    and "(nt_id_tx n, a, nt_height n) \<in> tx_keys db"
  shows "log_ok db'"
proof (cases res)
  case None
  with assms record_note_known show ?thesis by fastforce
next
  case (Some i)
  then obtain row where row: "db' = db\<lparr> db_notes := db_notes db @ [row] \<rparr>"
    "nt_id row = next_id nt_id (db_notes db)" "nt_account row = a"
    "nt_nullifier row = nt_nullifier n" "nt_height row = nt_height n" "nt_id_tx row = nt_id_tx n"
    "\<not> list_ex (\<lambda>r. nt_account r = a \<and> nt_nullifier r = nt_nullifier n) (db_notes db)"
    using record_note_new assms(2) by blast
  have "distinct (map nt_id (db_notes db @ [row]))"
    using assms(1) row(2) by (intro distinct_next_id) (simp_all add: log_ok_def keys_unique_def)
  moreover have "distinct (map (\<lambda>r. (nt_account r, nt_nullifier r)) (db_notes db @ [row]))"
    using assms(1) row(3,4,7) by (intro distinct_new) (simp_all add: log_ok_def keys_unique_def)
  moreover have "tx_keys db' = tx_keys db" "note_keys db \<subseteq> note_keys db'"
    by (auto simp: tx_keys_def note_keys_def row(1))
  ultimately show ?thesis
    using assms(1,3) row(3,5,6) unfolding log_ok_def keys_unique_def refs_ok_def
    by (simp add: row(1) subset_iff) blast
qed

lemma find_note_Some:
  "find_note a key db = Some (i, v) \<Longrightarrow>
     \<exists>r \<in> set (db_notes db). nt_id r = i \<and> nt_value r = v \<and> nt_account r = a \<and> key_matches key r"
  by (auto simp: find_note_def find_Some_iff)

lemma note_by_id:
  "log_ok db \<Longrightarrow> r \<in> set (db_notes db) \<Longrightarrow> r' \<in> set (db_notes db) \<Longrightarrow> nt_id r = nt_id r' \<Longrightarrow> r = r'"
  by (auto simp: log_ok_def keys_unique_def distinct_map inj_on_def)

lemma note_key_unique:
  "log_ok db \<Longrightarrow> (i, a, h) \<in> note_keys db \<Longrightarrow> (i, b, h') \<in> note_keys db \<Longrightarrow> a = b \<and> h = h'"
  using note_by_id by (fastforce simp: note_keys_def)

lemma log_ok_record_spend:
  assumes ok: "log_ok db" and sp: "record_spend a s db = Inr (fresh, db')"
    and tx: "(si_id_tx s, a, si_height s) \<in> tx_keys db"
    and above: "\<And>i h v. find_note a (si_note s) db = Some (i, v) \<Longrightarrow> (i, a, h) \<in> note_keys db
      \<Longrightarrow> h \<le> si_height s"
  shows "log_ok db'"
proof -
  obtain i v where f: "find_note a (si_note s) db = Some (i, v)"
    using sp by (auto simp: record_spend_def split: option.splits)
  obtain r where r: "r \<in> set (db_notes db)" "nt_id r = i" "nt_account r = a"
    using find_note_Some [OF f] by blast
  then have "(i, a, nt_height r) \<in> note_keys db" by (auto simp: note_keys_def)
  with above [OF f] have ref: "\<exists>h \<le> si_height s. (i, a, h) \<in> note_keys db" by blast
  let ?known = "list_ex (\<lambda>r. sp_id_note r = i) (db_spends db)"
  define row where "row = \<lparr> sp_id_note = i, sp_height = si_height s, sp_account = a,
    sp_pool = si_pool s, sp_tx = si_id_tx s, sp_value = si_value s \<rparr>"
  define mid where "mid = (if ?known then db else db\<lparr> db_spends := db_spends db @ [row] \<rparr>)"
  have "distinct (map sp_id_note (db_spends db @ [row]))" if "\<not> ?known"
    using ok that by (intro distinct_new) (simp_all add: log_ok_def keys_unique_def row_def)
  then have "log_ok mid"
    using ok tx ref
    by (auto simp: mid_def row_def log_ok_def keys_unique_def refs_ok_def tx_keys_def note_keys_def)
  moreover have "db' = mid\<lparr> db_notes := update_where (\<lambda>r. nt_id r = i) (set_locked False) (db_notes mid) \<rparr>"
    using sp f by (auto simp: record_spend_def Let_def mid_def row_def)
  ultimately show ?thesis by (simp add: log_ok_note_update)
qed

lemma log_ok_record_witness:
  assumes ok: "log_ok db" and wt: "record_witness a key height w db = Inr db'"
    and above: "\<And>i h v. find_note a key db = Some (i, v) \<Longrightarrow> (i, a, h) \<in> note_keys db \<Longrightarrow> h \<le> height"
  shows "log_ok db'"
proof -
  obtain i v where f: "find_note a key db = Some (i, v)"
    using wt by (auto simp: record_witness_def split: option.splits)
  obtain r where "r \<in> set (db_notes db)" "nt_id r = i" "nt_account r = a"
    using find_note_Some [OF f] by blast
  then have "(i, a, nt_height r) \<in> note_keys db" by (auto simp: note_keys_def)
  with above [OF f] have ref: "\<exists>h \<le> height. (i, a, h) \<in> note_keys db" by blast
  define row where "row = \<lparr> wt_id = next_id wt_id (db_witnesses db), wt_account = a, wt_note = i,
    wt_height = height, wt_witness = w \<rparr>"
  have fresh: "\<not> list_ex (\<lambda>r. wt_note r = i \<and> wt_height r = height) (db_witnesses db)"
    and db': "db' = db\<lparr> db_witnesses := db_witnesses db @ [row] \<rparr>"
    using wt f by (auto simp: record_witness_def row_def split: if_splits)
  have "distinct (map wt_id (db_witnesses db @ [row]))"
    using ok by (intro distinct_next_id) (simp_all add: log_ok_def keys_unique_def row_def)
  moreover have "distinct (map (\<lambda>r. (wt_note r, wt_height r)) (db_witnesses db @ [row]))"
    using ok fresh by (intro distinct_new) (simp_all add: log_ok_def keys_unique_def row_def)
  ultimately show ?thesis
    using ok ref
    by (auto simp: db' log_ok_def keys_unique_def refs_ok_def tx_keys_def note_keys_def row_def)
qed

lemma log_ok_record_output:
  assumes ok: "log_ok db" and out: "record_output a o' db = Inr (i, db')"
    and tx: "(ou_id_tx o', a, ou_height o') \<in> tx_keys db"
  shows "log_ok db'"
proof (cases "list_ex (\<lambda>r. ou_id_tx r = ou_id_tx o' \<and> ou_pool r = ou_pool o' \<and> ou_vout r = ou_vout o')
    (db_outputs db)")
  case True
  with ok out show ?thesis by (auto simp: record_output_def Let_def split: option.splits)
next
  case False
  obtain row where db': "db' = db\<lparr> db_outputs := db_outputs db @ [row] \<rparr>"
    and row: "ou_id row = next_id ou_id (db_outputs db)" "ou_account row = a"
      "ou_id_tx row = ou_id_tx o'" "ou_pool row = ou_pool o'" "ou_vout row = ou_vout o'"
      "ou_height row = ou_height o'"
    using False out by (auto simp: record_output_def Let_def split: option.splits)
  have "distinct (map ou_id (db_outputs db @ [row]))"
    using ok row(1) by (intro distinct_next_id) (simp_all add: log_ok_def keys_unique_def)
  moreover have "distinct (map (\<lambda>r. (ou_id_tx r, ou_pool r, ou_vout r)) (db_outputs db @ [row]))"
    using ok row False by (intro distinct_new) (simp_all add: log_ok_def keys_unique_def)
  ultimately show ?thesis
    using ok tx row by (auto simp: db' log_ok_def keys_unique_def refs_ok_def tx_keys_def note_keys_def)
qed

lemma record_output_stored:
  "\<exists>i db'. record_output a o' db = Inr (i, db')"
proof (cases "list_ex (\<lambda>r. ou_id_tx r = ou_id_tx o' \<and> ou_pool r = ou_pool o' \<and> ou_vout r = ou_vout o')
    (db_outputs db)")
  case True
  then have "List.find (\<lambda>r. ou_id_tx r = ou_id_tx o' \<and> ou_pool r = ou_pool o' \<and> ou_vout r = ou_vout o')
      (db_outputs db) \<noteq> None" by (auto simp: find_None_iff list_ex_iff)
  with True show ?thesis by (auto simp: record_output_def Let_def)
next
  case False
  have "List.find P (xs @ [x]) \<noteq> None" if "P x" for P and xs :: "output_row list" and x
    using that by (auto simp: find_None_iff)
  with False show ?thesis
    by (auto simp: record_output_def Let_def split: option.splits)
qed

lemma log_ok_record_memo:
  assumes ok: "log_ok db" and tx: "(me_id_tx m, a, me_height m) \<in> tx_keys db"
  shows "log_ok (record_memo a m db)"
proof (cases "list_ex (\<lambda>r. me_id_tx r = me_id_tx m \<and> me_pool r = me_pool m \<and> me_vout r = me_vout m)
    (db_memos db)")
  case True
  with ok show ?thesis by (simp add: record_memo_def)
next
  case False
  obtain row where db': "record_memo a m db = db\<lparr> db_memos := db_memos db @ [row] \<rparr>"
    and row: "me_id row = next_id me_id (db_memos db)" "me_account row = a"
      "me_id_tx row = me_id_tx m" "me_pool row = me_pool m" "me_vout row = me_vout m"
      "me_height row = me_height m"
    using False by (auto simp: record_memo_def)
  have "distinct (map me_id (db_memos db @ [row]))"
    using ok row(1) by (intro distinct_next_id) (simp_all add: log_ok_def keys_unique_def)
  moreover have "distinct (map (\<lambda>r. (me_id_tx r, me_pool r, me_vout r)) (db_memos db @ [row]))"
    using ok row False by (intro distinct_new) (simp_all add: log_ok_def keys_unique_def)
  ultimately show ?thesis
    using ok tx row by (auto simp: db' log_ok_def keys_unique_def refs_ok_def tx_keys_def note_keys_def)
qed

lemma log_ok_store_header: "log_ok db \<Longrightarrow> log_ok (store_header a h db)"
proof -
  assume ok: "log_ok db"
  have "distinct (map (\<lambda>r. (hd_account r, hd_height r)) (db_headers db
      @ [\<lparr> hd_height = hd_height h, hd_hash = hd_hash h, hd_time = hd_time h, hd_account = a \<rparr>]))"
    if "\<not> list_ex (\<lambda>r. hd_account r = a \<and> hd_height r = hd_height h) (db_headers db)"
    using ok that by (intro distinct_new) (simp_all add: log_ok_def keys_unique_def)
  with ok show ?thesis
    by (simp add: store_header_def log_ok_def keys_unique_def refs_ok_def tx_keys_def note_keys_def)
qed

lemma log_ok_relevant_header: "log_ok db \<Longrightarrow> log_ok (record_relevant_header a h db)"
  by (simp add: record_relevant_header_def log_ok_store_header)

lemma log_ok_sync_heights:
  assumes "log_ok db" and "distinct (map (\<lambda>r. (sh_account r, sh_pool r)) hs)"
  shows "log_ok (db\<lparr> db_sync_heights := hs \<rparr>)"
  using assms by (simp add: log_ok_def keys_unique_def refs_ok_def tx_keys_def note_keys_def)

lemma log_ok_set_checkpoint: "log_ok db \<Longrightarrow> log_ok (set_checkpoint a p h db)"
proof -
  assume ok: "log_ok db"
  have "distinct (map (\<lambda>r. (sh_account r, sh_pool r)) (delete_where
      (\<lambda>r. sh_account r = a \<and> sh_pool r = p) (db_sync_heights db)
      @ [\<lparr> sh_account = a, sh_pool = p, sh_height = h \<rparr>]))"
    using ok by (intro distinct_new distinct_delete)
      (auto simp: log_ok_def keys_unique_def list_ex_iff)
  with ok show ?thesis by (simp add: set_checkpoint_def log_ok_sync_heights)
qed

lemma log_ok_checkpoint: "log_ok db \<Longrightarrow> checkpoint a p h db = Some db' \<Longrightarrow> log_ok db'"
  by (auto simp: checkpoint_def log_ok_set_checkpoint split: bind_splits)

lemma log_ok_height_update:
  "log_ok db \<Longrightarrow> log_ok (db\<lparr> db_sync_heights := update_where P (\<lambda>r. r\<lparr> sh_height := h \<rparr>) (db_sync_heights db) \<rparr>)"
proof -
  assume ok: "log_ok db"
  have "map (\<lambda>r. (sh_account r, sh_pool r))
      (update_where P (\<lambda>r. r\<lparr> sh_height := h \<rparr>) (db_sync_heights db))
    = map (\<lambda>r. (sh_account r, sh_pool r)) (db_sync_heights db)"
    by (simp add: map_update_where)
  with ok show ?thesis
    by (intro log_ok_sync_heights) (simp_all add: log_ok_def keys_unique_def)
qed

lemma log_ok_init_checkpoints:
  assumes "log_ok db" and "init_checkpoints act a b db = Some db'"
  shows "log_ok db'"
  using assms(2) unfolding init_checkpoints_def
  by (rule foldM_invariant [where P = log_ok])
    (auto simp: assms(1) log_ok_height_update split: bind_splits if_splits)

section \<open>Removals\<close>

lemma log_ok_prune: "log_ok db \<Longrightarrow> log_ok (prune_witnesses_before a h db)"
  by (auto simp: prune_witnesses_before_def log_ok_def keys_unique_def refs_ok_def tx_keys_def
      note_keys_def intro: distinct_delete)

lemma keys_unique_removed:
  assumes "keys_unique db"
  shows "keys_unique (trim_to a h db)" and "keys_unique (delete_account_data a db)"
proof -
  have "map (\<lambda>r. (sh_account r, sh_pool r))
      (update_where P (\<lambda>r. r\<lparr> sh_height := h \<rparr>) (db_sync_heights db))
    = map (\<lambda>r. (sh_account r, sh_pool r)) (db_sync_heights db)" for P
    by (simp add: map_update_where)
  with assms show "keys_unique (trim_to a h db)"
    by (simp add: keys_unique_def trim_to_def distinct_delete)
  show "keys_unique (delete_account_data a db)"
    using assms by (simp add: keys_unique_def delete_account_data_def distinct_delete)
qed

lemma trim_keys:
  "tx_keys (trim_to a h db) = {k \<in> tx_keys db. \<not> (snd (snd k) > h \<and> fst (snd k) = a)}"
  "note_keys (trim_to a h db) = {k \<in> note_keys db. \<not> (snd (snd k) > h \<and> fst (snd k) = a)}"
  by (auto simp: tx_keys_def note_keys_def trim_to_def)

lemma delete_keys:
  "tx_keys (delete_account_data a db) = {k \<in> tx_keys db. fst (snd k) \<noteq> a}"
  "note_keys (delete_account_data a db) = {k \<in> note_keys db. fst (snd k) \<noteq> a}"
  by (auto simp: tx_keys_def note_keys_def delete_account_data_def)

lemma log_ok_trim: "log_ok db \<Longrightarrow> log_ok (trim_to a h db)"
proof -
  assume ok: "log_ok db"
  then have refs: "refs_ok db" by (simp add: log_ok_def)
  have "refs_ok (trim_to a h db)"
    unfolding refs_ok_def trim_keys
  proof (intro conjI ballI)
    fix s assume "s \<in> set (db_spends (trim_to a h db))"
    then have s: "s \<in> set (db_spends db)" and keep: "\<not> (sp_height s > h \<and> sp_account s = a)"
      by (auto simp: trim_to_def)
    obtain h' where "h' \<le> sp_height s" "(sp_id_note s, sp_account s, h') \<in> note_keys db"
      using refs s by (auto simp: refs_ok_def)
    with keep show "\<exists>h' \<le> sp_height s. (sp_id_note s, sp_account s, h')
        \<in> {k \<in> note_keys db. \<not> (snd (snd k) > h \<and> fst (snd k) = a)}" by auto
  next
    fix w assume "w \<in> set (db_witnesses (trim_to a h db))"
    then have w: "w \<in> set (db_witnesses db)" and keep: "\<not> (wt_height w > h \<and> wt_account w = a)"
      by (auto simp: trim_to_def)
    obtain h' where "h' \<le> wt_height w" "(wt_note w, wt_account w, h') \<in> note_keys db"
      using refs w by (auto simp: refs_ok_def)
    with keep show "\<exists>h' \<le> wt_height w. (wt_note w, wt_account w, h')
        \<in> {k \<in> note_keys db. \<not> (snd (snd k) > h \<and> fst (snd k) = a)}" by auto
  qed (use refs in \<open>auto simp: refs_ok_def trim_to_def\<close>)
  with ok show ?thesis by (simp add: log_ok_def keys_unique_removed)
qed

lemma log_ok_delete: "log_ok db \<Longrightarrow> log_ok (delete_account_data a db)"
proof -
  assume ok: "log_ok db"
  then have "refs_ok db" by (simp add: log_ok_def)
  then have "refs_ok (delete_account_data a db)"
    unfolding refs_ok_def delete_keys by (auto simp: delete_account_data_def)
  with ok show ?thesis by (simp add: log_ok_def keys_unique_removed)
qed

lemma log_ok_user_memo: "log_ok db \<Longrightarrow> log_ok (set_user_memo a txid memo db)"
proof -
  assume ok: "log_ok db"
  define txs where "txs = filter (\<lambda>t. tx_account t = a \<and> tx_txid t = txid) (db_transactions db)"
  have clear: "log_ok (db\<lparr> db_user_memos := delete_where P (db_user_memos db) \<rparr>)" for P
    using ok by (auto simp: log_ok_def keys_unique_def refs_ok_def tx_keys_def note_keys_def
        distinct_delete)
  define put where "put body d t =
      (if list_ex (\<lambda>m. um_account m = a \<and> um_id_tx m = tx_id t) (db_user_memos d)
       then d\<lparr> db_user_memos := update_where (\<lambda>m. um_account m = a \<and> um_id_tx m = tx_id t)
              (\<lambda>m. m\<lparr> um_text := body \<rparr>) (db_user_memos d) \<rparr>
       else d\<lparr> db_user_memos := db_user_memos d
              @ [\<lparr> um_account = a, um_id_tx = tx_id t, um_height = tx_height t, um_text = body \<rparr>] \<rparr>)"
    for body and d :: db and t :: transaction_row
  have put: "log_ok (put body d t) \<and> db_transactions (put body d t) = db_transactions d"
    if d: "log_ok d" and t: "t \<in> set (db_transactions d)" "tx_account t = a" for body d t
  proof -
    have "map (\<lambda>r. (um_account r, um_id_tx r))
        (update_where P (\<lambda>m. m\<lparr> um_text := body \<rparr>) (db_user_memos d))
      = map (\<lambda>r. (um_account r, um_id_tx r)) (db_user_memos d)" for P
      by (simp add: map_update_where)
    then have upd: "log_ok (d\<lparr> db_user_memos := update_where P (\<lambda>m. m\<lparr> um_text := body \<rparr>)
        (db_user_memos d) \<rparr>)" for P
      using d by (auto simp: log_ok_def keys_unique_def refs_ok_def tx_keys_def note_keys_def
          set_update_where)
    have "log_ok (d\<lparr> db_user_memos := db_user_memos d
        @ [\<lparr> um_account = a, um_id_tx = tx_id t, um_height = tx_height t, um_text = body \<rparr>] \<rparr>)"
      if "\<not> list_ex (\<lambda>m. um_account m = a \<and> um_id_tx m = tx_id t) (db_user_memos d)"
      using d t that
      by (auto simp: log_ok_def keys_unique_def refs_ok_def tx_keys_def note_keys_def list_ex_iff)
    with upd show ?thesis by (simp add: put_def)
  qed
  have "log_ok (foldl (put body) d ts)"
    if "log_ok d" "\<forall>t \<in> set ts. t \<in> set (db_transactions d) \<and> tx_account t = a" for body d ts
    using that by (induction ts arbitrary: d) (simp_all add: put)
  from this [of db txs] ok have "log_ok (foldl (put body) db txs)" for body
    by (simp add: txs_def)
  with clear show ?thesis
    by (simp add: set_user_memo_def Let_def put_def [abs_def] txs_def split: option.splits)
qed

lemma log_ok_store_pending: "log_ok db \<Longrightarrow> log_ok (store_pending_tx a h t p c db)"
  by (simp add: store_pending_tx_def Let_def frame_simps)

end
