(* ===== verification/Chain_Log_Steps.thy ===== *)
theory Chain_Log_Steps
  imports Chain_Log_Correct
begin

text \<open>
  The chain log as a state machine. A step is one call of an operation for one account, with
  the caller's obligations (rows are recorded against a transaction of the account at its
  height, and no note is spent below its own height) as guards. Every step keeps the
  invariant and leaves the other accounts alone; a rewind undoes the events above it.
\<close>

section \<open>The rows of one account\<close>

record account_view =
  av_heights :: "sync_height_row list"
  av_headers :: "header_row list"
  av_transactions :: "transaction_row list"
  av_notes :: "note_row list"
  av_spends :: "spend_row list"
  av_witnesses :: "witness_row list"
  av_outputs :: "output_row list"
  av_memos :: "memo_row list"
  av_user_memos :: "user_memo_row list"
  av_pending :: "pending_row list"

definition account_view :: "u32 \<Rightarrow> db \<Rightarrow> account_view" where
  "account_view a db =
     \<lparr> av_heights = filter (\<lambda>r. sh_account r = a) (db_sync_heights db),
       av_headers = filter (\<lambda>r. hd_account r = a) (db_headers db),
       av_transactions = filter (\<lambda>r. tx_account r = a) (db_transactions db),
       av_notes = filter (\<lambda>r. nt_account r = a) (db_notes db),
       av_spends = filter (\<lambda>r. sp_account r = a) (db_spends db),
       av_witnesses = filter (\<lambda>r. wt_account r = a) (db_witnesses db),
       av_outputs = filter (\<lambda>r. ou_account r = a) (db_outputs db),
       av_memos = filter (\<lambda>r. me_account r = a) (db_memos db),
       av_user_memos = filter (\<lambda>r. um_account r = a) (db_user_memos db),
       av_pending = filter (\<lambda>r. pd_account r = a) (db_pending db) \<rparr>"

text \<open>The contract of a step relation whose steps work for one account each.\<close>

locale account_scoped =
  fixes step :: "u32 \<Rightarrow> db \<Rightarrow> db \<Rightarrow> bool"
  assumes keeps: "step a db db' \<Longrightarrow> log_ok db \<Longrightarrow> log_ok db'"
    and isolates: "step a db db' \<Longrightarrow> log_ok db \<Longrightarrow> b \<noteq> a \<Longrightarrow> account_view b db' = account_view b db"
begin

lemma run_keeps:
  assumes "(\<lambda>db db'. \<exists>a. step a db db')\<^sup>*\<^sup>* db db'" and "log_ok db"
  shows "log_ok db'"
  using assms by (induction rule: rtranclp_induct) (auto intro: keeps)

lemma run_isolates:
  assumes "(\<lambda>db db'. \<exists>a \<in> A. step a db db')\<^sup>*\<^sup>* db db'" and "log_ok db" and "b \<notin> A"
  shows "log_ok db' \<and> account_view b db' = account_view b db"
  using assms
proof (induction rule: rtranclp_induct)
  case base
  then show ?case by simp
next
  case (step d d')
  then obtain a where "a \<in> A" "step a d d'" by blast
  with step show ?case using keeps isolates by (metis (full_types))
qed

lemma fold_isolates:
  assumes "\<And>a d. a \<in> set as \<Longrightarrow> step a d (f a d)" and "log_ok db" and "b \<notin> set as"
  shows "log_ok (fold f as db) \<and> account_view b (fold f as db) = account_view b db"
  using assms
proof (induction as arbitrary: db)
  case Nil
  then show ?case by simp
next
  case (Cons a as)
  have s: "step a db (f a db)" using Cons.prems(1) by simp
  have "log_ok (f a db)" using keeps [OF s Cons.prems(2)] .
  moreover have "account_view b (f a db) = account_view b db"
    using isolates [OF s Cons.prems(2)] Cons.prems(3) by auto
  ultimately show ?case using Cons.IH [of "f a db"] Cons.prems(1,3) by simp
qed

end

section \<open>Events\<close>

text \<open>What the scanners report of a block, as the chain log records it.\<close>

datatype chain_event =
    EvTransaction transaction_in
  | EvNote note_in
  | EvSpend spend_in
  | EvWitness note_key u32 blob
  | EvOutput output_in
  | EvMemo memo_in
  | EvHeader header_in
  | EvRelevantHeader header_in
  | EvCheckpoint u8 u32

fun apply_event :: "u32 \<Rightarrow> chain_event \<Rightarrow> db \<Rightarrow> db option" where
  "apply_event a (EvTransaction t) db = Some (snd (record_transaction a t db))"
| "apply_event a (EvNote n) db = Some (snd (record_note a n db))"
| "apply_event a (EvSpend s) db =
     (case record_spend a s db of Inl _ \<Rightarrow> None | Inr (_, db') \<Rightarrow> Some db')"
| "apply_event a (EvWitness k h w) db =
     (case record_witness a k h w db of Inl _ \<Rightarrow> None | Inr db' \<Rightarrow> Some db')"
| "apply_event a (EvOutput o') db =
     (case record_output a o' db of Inl _ \<Rightarrow> None | Inr (_, db') \<Rightarrow> Some db')"
| "apply_event a (EvMemo m) db = Some (record_memo a m db)"
| "apply_event a (EvHeader h) db = Some (store_header a h db)"
| "apply_event a (EvRelevantHeader h) db = Some (record_relevant_header a h db)"
| "apply_event a (EvCheckpoint p h) db = checkpoint a p h db"

fun event_height :: "chain_event \<Rightarrow> u32" where
  "event_height (EvTransaction t) = tx_height t"
| "event_height (EvNote n) = nt_height n"
| "event_height (EvSpend s) = si_height s"
| "event_height (EvWitness k h w) = h"
| "event_height (EvOutput o') = ou_height o'"
| "event_height (EvMemo m) = me_height m"
| "event_height (EvHeader h) = hd_height h"
| "event_height (EvRelevantHeader h) = hd_height h"
| "event_height (EvCheckpoint p h) = h"

definition spent_note_below :: "u32 \<Rightarrow> note_key \<Rightarrow> u32 \<Rightarrow> db \<Rightarrow> bool" where
  "spent_note_below a key height db \<longleftrightarrow>
     (\<forall>i v h. find_note a key db = Some (i, v) \<longrightarrow> (i, a, h) \<in> note_keys db \<longrightarrow> h \<le> height)"

fun event_guard :: "u32 \<Rightarrow> chain_event \<Rightarrow> db \<Rightarrow> bool" where
  "event_guard a (EvNote n) db \<longleftrightarrow> (nt_id_tx n, a, nt_height n) \<in> tx_keys db"
| "event_guard a (EvSpend s) db \<longleftrightarrow> (si_id_tx s, a, si_height s) \<in> tx_keys db
     \<and> spent_note_below a (si_note s) (si_height s) db"
| "event_guard a (EvWitness k h w) db \<longleftrightarrow> spent_note_below a k h db"
| "event_guard a (EvOutput o') db \<longleftrightarrow> (ou_id_tx o', a, ou_height o') \<in> tx_keys db"
| "event_guard a (EvMemo m) db \<longleftrightarrow> (me_id_tx m, a, me_height m) \<in> tx_keys db"
| "event_guard a _ db \<longleftrightarrow> True"

lemma apply_event_ok:
  assumes "log_ok db" and "apply_event a ev db = Some db'" and "event_guard a ev db"
  shows "log_ok db'"
proof (cases ev)
  case (EvTransaction t)
  with assms show ?thesis
    using log_ok_record_transaction [of db a t "fst (record_transaction a t db)"] by auto
next
  case (EvNote n)
  with assms show ?thesis using log_ok_record_note [of db a n "fst (record_note a n db)"] by auto
next
  case (EvSpend s)
  with assms show ?thesis
    by (auto simp: spent_note_below_def split: sum.splits intro: log_ok_record_spend)
next
  case (EvWitness k h w)
  with assms show ?thesis
    by (auto simp: spent_note_below_def split: sum.splits intro: log_ok_record_witness)
next
  case (EvOutput o')
  with assms show ?thesis by (auto split: sum.splits intro: log_ok_record_output)
qed (use assms in \<open>auto intro: log_ok_record_memo log_ok_store_header log_ok_relevant_header
      log_ok_checkpoint\<close>)

section \<open>Steps\<close>

inductive log_step :: "u32 \<Rightarrow> db \<Rightarrow> db \<Rightarrow> bool" where
  Event: "apply_event a ev db = Some db' \<Longrightarrow> event_guard a ev db \<Longrightarrow> log_step a db db'"
| BlockTime: "log_step a db (set_block_time a h t om db)"
| Details: "(i, a, h) \<in> tx_keys db \<Longrightarrow> log_step a db (set_transaction_details i d db)"
| Fee: "(i, a, h) \<in> tx_keys db \<Longrightarrow> log_step a db (set_transaction_fee i fee db)"
| Category: "(i, a, h) \<in> tx_keys db \<Longrightarrow> log_step a db (set_transaction_category i c db)"
| Price: "(i, a, h) \<in> tx_keys db \<Longrightarrow> log_step a db (set_transaction_price i p db)"
| Pending: "log_step a db (apply_pending_metadata pick a h db)"
| Sent: "log_step a db (store_pending_tx a h txid p c (lock_notes a nfs db))"
| Lock: "log_step a db (apply_lock a op db)"
| Unlock: "log_step a db (unlock_notes a nfs db)"
| UserMemo: "log_step a db (set_user_memo a txid memo db)"
| SetCheckpoint: "log_step a db (set_checkpoint a p h db)"
| InitCheckpoints: "init_checkpoints act a birth db = Some db' \<Longrightarrow> log_step a db db'"
| Prune: "log_step a db (prune_witnesses_before a h db)"
| Trim: "log_step a db (trim_to a h db)"
| Delete: "log_step a db (delete_account_data a db)"

inductive_cases log_stepE: "log_step a db db'"

lemma log_step_ok: "log_step a db db' \<Longrightarrow> log_ok db \<Longrightarrow> log_ok db'"
  by (induction rule: log_step.induct)
    (auto intro: apply_event_ok log_ok_tx_columns log_ok_apply_pending log_ok_store_pending
      log_ok_locks log_ok_user_memo log_ok_set_checkpoint log_ok_init_checkpoints log_ok_prune
      log_ok_trim log_ok_delete)

text \<open>An update or a removal restricted to the rows of one account.\<close>

lemma filter_other_update:
  assumes "\<forall>r. P r \<longrightarrow> acct r \<noteq> b" and "\<And>r. acct (f r) = acct r"
  shows "filter (\<lambda>r. acct r = b) (update_where P f rows) = filter (\<lambda>r. acct r = b) rows"
  by (rule filter_update_where) (simp_all add: assms)

lemma filter_other_delete:
  assumes "\<forall>r. P r \<longrightarrow> acct r \<noteq> b"
  shows "filter (\<lambda>r. acct r = b) (delete_where P rows) = filter (\<lambda>r. acct r = b) rows"
  unfolding delete_where_def filter_filter
  by (rule filter_cong) (use assms in auto)

lemmas other_account = filter_other_update filter_other_delete

lemma filter_note_id_update:
  assumes "log_ok db" and "(i, a, h) \<in> note_keys db" and "b \<noteq> a"
  shows "filter (\<lambda>r. nt_account r = b) (update_where (\<lambda>r. nt_id r = i) (set_locked l) (db_notes db))
    = filter (\<lambda>r. nt_account r = b) (db_notes db)"
proof -
  have "update_where (\<lambda>r. nt_id r = i) (set_locked l) (db_notes db)
      = update_where (\<lambda>r. nt_id r = i \<and> nt_account r = a) (set_locked l) (db_notes db)"
    unfolding update_where_def
  proof (rule map_cong)
    fix r assume "r \<in> set (db_notes db)"
    then have "(nt_id r, nt_account r, nt_height r) \<in> note_keys db" by (simp add: note_keys_def)
    then have "nt_id r = i \<Longrightarrow> nt_account r = a"
      using note_key_unique [OF assms(1,2)] by blast
    then show "(if nt_id r = i then set_locked l r else r)
        = (if nt_id r = i \<and> nt_account r = a then set_locked l r else r)" by simp
  qed simp
  then show ?thesis
    using assms(3) by (simp add: filter_other_update)
qed

lemma filter_tx_id_update:
  assumes "log_ok db" and "(i, a, h) \<in> tx_keys db" and "b \<noteq> a" and "\<And>r. tx_account (f r) = tx_account r"
  shows "filter (\<lambda>r. tx_account r = b) (update_where (\<lambda>r. tx_id r = i) f (db_transactions db))
    = filter (\<lambda>r. tx_account r = b) (db_transactions db)"
proof -
  have uniq: "tx_account r = a" if "r \<in> set (db_transactions db)" "tx_id r = i" for r
  proof -
    obtain r0 where "r0 \<in> set (db_transactions db)" "tx_id r0 = i" "tx_account r0 = a"
      using assms(2) by (auto simp: tx_keys_def)
    moreover have "inj_on tx_id (set (db_transactions db))"
      using assms(1) by (simp add: log_ok_def keys_unique_def distinct_map)
    ultimately show ?thesis using that by (metis inj_onD)
  qed
  have "update_where (\<lambda>r. tx_id r = i) f (db_transactions db)
      = update_where (\<lambda>r. tx_id r = i \<and> tx_account r = a) f (db_transactions db)"
    unfolding update_where_def by (rule map_cong) (auto dest: uniq)
  then show ?thesis
    using assms(3,4) by (simp add: filter_other_update)
qed

lemma find_note_key:
  "find_note a key db = Some (i, v) \<Longrightarrow> \<exists>h. (i, a, h) \<in> note_keys db"
  using find_note_Some [of a key db i v] by (auto simp: note_keys_def)

lemma view_record_transaction:
  "b \<noteq> a \<Longrightarrow> account_view b (snd (record_transaction a t db)) = account_view b db"
  by (simp add: record_transaction_def Let_def account_view_def)

lemma view_record_note:
  "b \<noteq> a \<Longrightarrow> account_view b (snd (record_note a n db)) = account_view b db"
  by (simp add: record_note_def Let_def account_view_def)

lemma view_record_spend:
  assumes "log_ok db" and "b \<noteq> a" and "record_spend a s db = Inr (x, db')"
  shows "account_view b db' = account_view b db"
proof -
  obtain i v where f: "find_note a (si_note s) db = Some (i, v)"
    using assms(3) by (auto simp: record_spend_def split: option.splits)
  obtain h where "(i, a, h) \<in> note_keys db" using find_note_key [OF f] by blast
  from filter_note_id_update [OF assms(1) this assms(2)] assms(2,3) f show ?thesis
    by (auto simp: record_spend_def Let_def account_view_def)
qed

lemma view_record_witness:
  "b \<noteq> a \<Longrightarrow> record_witness a k h w db = Inr db' \<Longrightarrow> account_view b db' = account_view b db"
  by (auto simp: record_witness_def account_view_def split: option.splits if_splits)

lemma view_record_output:
  "b \<noteq> a \<Longrightarrow> record_output a o' db = Inr (i, db') \<Longrightarrow> account_view b db' = account_view b db"
  by (auto simp: record_output_def Let_def account_view_def split: option.splits if_splits)

lemma view_record_memo: "b \<noteq> a \<Longrightarrow> account_view b (record_memo a m db) = account_view b db"
  by (simp add: record_memo_def account_view_def)

lemma view_store_header: "b \<noteq> a \<Longrightarrow> account_view b (store_header a h db) = account_view b db"
  by (simp add: store_header_def account_view_def)

lemma view_set_checkpoint: "b \<noteq> a \<Longrightarrow> account_view b (set_checkpoint a p h db) = account_view b db"
  by (simp add: set_checkpoint_def account_view_def filter_other_delete)

lemma view_checkpoint:
  "b \<noteq> a \<Longrightarrow> checkpoint a p h db = Some db' \<Longrightarrow> account_view b db' = account_view b db"
  by (auto simp: checkpoint_def view_set_checkpoint split: bind_splits)

lemma view_event:
  assumes "log_ok db" and "b \<noteq> a" and "apply_event a ev db = Some db'"
  shows "account_view b db' = account_view b db"
  using assms(3)
  by (cases ev) (auto simp: view_record_transaction view_record_note view_record_memo assms(2)
      view_store_header record_relevant_header_def split: sum.splits
      dest: view_record_spend [OF assms(1,2)] view_record_witness [OF assms(2)]
        view_record_output [OF assms(2)] view_checkpoint [OF assms(2)])

lemma view_note_update:
  "\<forall>r. P r \<longrightarrow> nt_account r \<noteq> b \<Longrightarrow> (\<And>r. nt_account (f r) = nt_account r) \<Longrightarrow>
     account_view b (db\<lparr> db_notes := update_where P f (db_notes db) \<rparr>) = account_view b db"
  by (simp add: account_view_def filter_other_update)

lemma view_locks:
  assumes "b \<noteq> a"
  shows "account_view b (apply_lock a op db) = account_view b db"
    and "account_view b (lock_notes a nfs db) = account_view b db"
    and "account_view b (unlock_notes a nfs db) = account_view b db"
proof -
  show "account_view b (apply_lock a op db) = account_view b db"
    using assms by (cases op) (simp_all add: set_note_lock_def lock_notes_above_def unlock_all_def
        toggle_all_locks_def view_note_update)
  have "account_view b (fold (set_lock_of l a) nfs db) = account_view b db" for l
  proof (induction nfs arbitrary: db)
    case (Cons nf nfs)
    have "account_view b (set_lock_of l a nf db) = account_view b db"
      using assms by (simp add: set_lock_of_def view_note_update)
    with Cons show ?case by simp
  qed simp
  then show "account_view b (lock_notes a nfs db) = account_view b db"
    "account_view b (unlock_notes a nfs db) = account_view b db"
    by (simp_all add: lock_notes_def unlock_notes_def)
qed

lemma view_tx_columns:
  assumes "log_ok db" and "(i, a, h) \<in> tx_keys db" and "b \<noteq> a"
  shows "account_view b (set_transaction_details i d db) = account_view b db"
    and "account_view b (set_transaction_fee i fee db) = account_view b db"
    and "account_view b (set_transaction_category i c db) = account_view b db"
    and "account_view b (set_transaction_price i p db) = account_view b db"
  by (simp_all add: set_transaction_details_def set_transaction_fee_def set_transaction_category_def
      set_transaction_price_def account_view_def filter_tx_id_update [OF assms])

lemma view_tx_scoped:
  assumes "b \<noteq> a"
  shows "account_view b (set_block_time a h t om db) = account_view b db"
    and "account_view b (apply_pending_metadata pick a h db) = account_view b db"
  using assms
  by (simp_all add: set_block_time_def apply_pending_metadata_def Let_def account_view_def
      other_account)

lemma view_store_pending:
  "b \<noteq> a \<Longrightarrow> account_view b (store_pending_tx a h txid p c db) = account_view b db"
  by (simp add: store_pending_tx_def Let_def account_view_def filter_other_delete)

lemma view_removals:
  assumes "b \<noteq> a"
  shows "account_view b (prune_witnesses_before a h db) = account_view b db"
    and "account_view b (trim_to a h db) = account_view b db"
    and "account_view b (delete_account_data a db) = account_view b db"
  using assms
  by (simp_all add: prune_witnesses_before_def trim_to_def delete_account_data_def account_view_def
      other_account)

lemma view_init_checkpoints:
  assumes "b \<noteq> a" and "init_checkpoints act a birth db = Some db'"
  shows "account_view b db' = account_view b db"
  using assms(2) unfolding init_checkpoints_def
  by (rule foldM_invariant [where P = "\<lambda>d. account_view b d = account_view b db"])
    (use assms(1) in \<open>auto simp: account_view_def filter_other_update
      split: bind_splits\<close>)

lemma view_user_memo:
  assumes "b \<noteq> a"
  shows "account_view b (set_user_memo a txid memo db) = account_view b db"
proof -
  have clear: "account_view b (db\<lparr> db_user_memos := delete_where
      (\<lambda>m. um_account m = a \<and> Q m) (db_user_memos db) \<rparr>) = account_view b db" for Q
    using assms by (simp add: account_view_def filter_other_delete)
  have "account_view b (foldl (\<lambda>db t.
      (if list_ex (\<lambda>m. um_account m = a \<and> um_id_tx m = tx_id t) (db_user_memos db)
       then db\<lparr> db_user_memos := update_where (\<lambda>m. um_account m = a \<and> um_id_tx m = tx_id t)
              (\<lambda>m. m\<lparr> um_text := body \<rparr>) (db_user_memos db) \<rparr>
       else db\<lparr> db_user_memos := db_user_memos db
              @ [\<lparr> um_account = a, um_id_tx = tx_id t, um_height = tx_height t, um_text = body \<rparr>] \<rparr>))
      d ts) = account_view b d" for body d and ts :: "transaction_row list"
  proof (induction ts rule: rev_induct)
    case (snoc t ts)
    then show ?case using assms
      by (simp add: account_view_def filter_other_update)
  qed simp
  with clear show ?thesis by (simp add: set_user_memo_def Let_def split: option.splits)
qed

lemma log_step_isolates:
  assumes "log_step a db db'" and "log_ok db" and "b \<noteq> a"
  shows "account_view b db' = account_view b db"
  using assms
  by (induction rule: log_step.induct)
    (auto simp: view_tx_columns view_tx_scoped view_store_pending view_locks view_user_memo
      view_set_checkpoint view_removals dest: view_init_checkpoints view_event)

interpretation chain_log: account_scoped log_step
  by unfold_locales (blast intro: log_step_ok log_step_isolates)+

section \<open>A rewind undoes the events above it\<close>

text \<open>
  The rows the chain log holds, for every account, apart from the lock flags of the notes
  (which a recorded spend clears) and the checkpoints (which a rewind sets).
\<close>

definition chain_rows ::
  "db \<Rightarrow> header_row list \<times> transaction_row list \<times> note_row list \<times> spend_row list
    \<times> witness_row list \<times> output_row list \<times> memo_row list \<times> user_memo_row list" where
  "chain_rows db = (db_headers db, db_transactions db, map (set_locked False) (db_notes db),
     db_spends db, db_witnesses db, db_outputs db, db_memos db, db_user_memos db)"

definition synced_to :: "u32 \<Rightarrow> u32 \<Rightarrow> db \<Rightarrow> bool" where
  "synced_to a h db \<longleftrightarrow>
     (\<forall>r \<in> set (db_headers db). hd_account r = a \<longrightarrow> hd_height r \<le> h)
     \<and> (\<forall>r \<in> set (db_transactions db). tx_account r = a \<longrightarrow> tx_height r \<le> h)
     \<and> (\<forall>r \<in> set (db_notes db). nt_account r = a \<longrightarrow> nt_height r \<le> h)
     \<and> (\<forall>r \<in> set (db_spends db). sp_account r = a \<longrightarrow> sp_height r \<le> h)
     \<and> (\<forall>r \<in> set (db_witnesses db). wt_account r = a \<longrightarrow> wt_height r \<le> h)
     \<and> (\<forall>r \<in> set (db_outputs db). ou_account r = a \<longrightarrow> ou_height r \<le> h)
     \<and> (\<forall>r \<in> set (db_memos db). me_account r = a \<longrightarrow> me_height r \<le> h)
     \<and> (\<forall>r \<in> set (db_user_memos db). um_account r = a \<longrightarrow> um_height r \<le> h)"

lemma delete_where_none: "\<forall>r \<in> set rows. \<not> P r \<Longrightarrow> delete_where P rows = rows"
  by (simp add: delete_where_def)

lemma delete_where_snoc [simp]:
  "delete_where P (rows @ [r]) = delete_where P rows @ (if P r then [] else [r])"
  by (simp add: delete_where_def)

lemma trim_synced: "synced_to a h db \<Longrightarrow> chain_rows (trim_to a h db) = chain_rows db"
  by (auto simp: chain_rows_def trim_to_def synced_to_def intro!: delete_where_none
      arg_cong [where f = "map (set_locked False)"])

lemma synced_trim: "synced_to a h (trim_to a h db)"
  by (auto simp: synced_to_def trim_to_def)

lemma trim_notes_unlocked:
  "map (set_locked False) (delete_where (\<lambda>r. nt_height r > h \<and> nt_account r = a)
      (update_where P (set_locked l) ns))
    = map (set_locked False) (delete_where (\<lambda>r. nt_height r > h \<and> nt_account r = a) ns)"
  by (induction ns) (auto simp: delete_where_def update_where_def set_locked_def)

lemma trim_event:
  assumes "apply_event a ev db = Some db'" and "event_height ev > h"
  shows "chain_rows (trim_to a h db') = chain_rows (trim_to a h db)"
proof (cases ev)
  case (EvTransaction t)
  with assms show ?thesis
    by (auto simp: record_transaction_def Let_def chain_rows_def trim_to_def)
next
  case (EvNote n)
  with assms show ?thesis by (auto simp: record_note_def Let_def chain_rows_def trim_to_def)
next
  case (EvSpend s)
  with assms show ?thesis
    by (auto simp: record_spend_def Let_def chain_rows_def trim_to_def trim_notes_unlocked
        split: sum.splits option.splits)
next
  case (EvWitness k hh w)
  with assms show ?thesis
    by (auto simp: record_witness_def chain_rows_def trim_to_def split: sum.splits option.splits
        if_splits)
next
  case (EvOutput o')
  with assms show ?thesis
    by (auto simp: record_output_def Let_def chain_rows_def trim_to_def split: sum.splits
        option.splits if_splits)
next
  case (EvMemo m)
  with assms show ?thesis by (auto simp: record_memo_def chain_rows_def trim_to_def)
next
  case (EvHeader hd)
  with assms show ?thesis by (auto simp: store_header_def chain_rows_def trim_to_def)
next
  case (EvRelevantHeader hd)
  with assms show ?thesis
    by (auto simp: record_relevant_header_def store_header_def chain_rows_def trim_to_def)
next
  case (EvCheckpoint p hh)
  with assms show ?thesis
    by (auto simp: checkpoint_def set_checkpoint_def chain_rows_def trim_to_def split: bind_splits)
qed

lemma trim_events:
  assumes "foldM (\<lambda>d ev. apply_event a ev d) db evs = Some db'" and "\<forall>ev \<in> set evs. event_height ev > h"
  shows "chain_rows (trim_to a h db') = chain_rows (trim_to a h db)"
  using assms
proof (induction evs arbitrary: db)
  case Nil
  then show ?case by simp
next
  case (Cons ev evs)
  then obtain d where d: "apply_event a ev db = Some d" "foldM (\<lambda>d ev. apply_event a ev d) d evs = Some db'"
    by (auto split: option.splits)
  with Cons trim_event [OF d(1)] show ?case by simp
qed

lemma trim_trim:
  "chain_rows (trim_to a h (trim_to a k db)) = chain_rows (trim_to a (min h k) db)"
proof -
  have both: "delete_where (\<lambda>r. P r > h \<and> Q r) (delete_where (\<lambda>r. P r > k \<and> Q r) rows)
      = delete_where (\<lambda>r. P r > min h k \<and> Q r) rows" for P :: "'r \<Rightarrow> nat" and Q rows
    unfolding delete_where_def filter_filter by (rule filter_cong) auto
  show ?thesis unfolding chain_rows_def trim_to_def by (simp add: both)
qed

lemma trim_heights:
  "r \<in> set (db_sync_heights (trim_to a h db)) \<Longrightarrow> sh_account r = a \<Longrightarrow> sh_height r = h"
proof -
  assume r: "r \<in> set (db_sync_heights (trim_to a h db))" "sh_account r = a"
  then obtain r0 where r0: "r = (if sh_account r0 = a then r0\<lparr> sh_height := h \<rparr> else r0)"
    by (auto simp: trim_to_def set_update_where)
  with r(2) show ?thesis by (cases "sh_account r0 = a") simp_all
qed

end
