(* ===== verification/Sync_Plan.thy ===== *)
theory Sync_Plan
  imports Zkool_Prelude "HOL-Library.Product_Lexorder"
begin

text \<open>
  The sync planner of \<open>rust/src/sync/plan.rs\<close>: the ranges of blocks to scan, and for which
  accounts, as a function of where each account stands and of the chain tip.
\<close>

record account_sync_state =
  as_account :: u32
  as_next_height :: u32
  as_use_internal :: bool

record sync_range =
  rg_start :: u32
  rg_end :: u32
  rg_accounts :: "(u32 \<times> bool) list"

definition account_ids :: "sync_range \<Rightarrow> u32 list" where
  "account_ids r = map fst (rg_accounts r)"

definition plan_starts :: "account_sync_state list \<Rightarrow> u32 \<Rightarrow> u32 list" where
  "plan_starts states tip =
     remdups_adj (sort (filter (\<lambda>h. h \<le> tip) (map as_next_height states)))"

definition plan_range :: "account_sync_state list \<Rightarrow> u32 \<Rightarrow> u32 list \<Rightarrow> nat \<Rightarrow> u32 \<Rightarrow> sync_range" where
  "plan_range states tip starts i start =
     \<lparr> rg_start = start,
       rg_end = (if i + 1 < length starts then sub32 (starts ! (i + 1)) 1 else tip),
       rg_accounts = sort (map (\<lambda>s. (as_account s, as_use_internal s))
         (filter (\<lambda>s. as_next_height s \<le> start) states)) \<rparr>"

definition plan_sync :: "account_sync_state list \<Rightarrow> u32 \<Rightarrow> sync_range list" where
  "plan_sync states tip =
     (let starts = plan_starts states tip
      in map (\<lambda>(i, start). plan_range states tip starts i start) (enumerate 0 starts))"

section \<open>The ranges\<close>

definition planned :: "account_sync_state list \<Rightarrow> bool" where
  "planned states \<longleftrightarrow> (\<forall>s \<in> set states. as_next_height s < 2 ^ 32)"

lemma strict_sorted_remdups_adj: "sorted xs \<Longrightarrow> sorted_wrt (<) (remdups_adj (xs :: nat list))"
proof (induction xs rule: remdups_adj.induct)
  case (3 x y xs)
  then show ?case by (cases "x = y") (auto simp: less_le)
qed simp_all

lemma plan_starts_sorted: "sorted_wrt (<) (plan_starts states tip)"
  by (simp add: plan_starts_def strict_sorted_remdups_adj)

lemma set_plan_starts:
  "set (plan_starts states tip) = {h \<in> as_next_height ` set states. h \<le> tip}"
  by (auto simp: plan_starts_def)

lemma length_plan_sync [simp]: "length (plan_sync states tip) = length (plan_starts states tip)"
  by (simp add: plan_sync_def Let_def)

lemma nth_plan_sync:
  "i < length (plan_starts states tip) \<Longrightarrow>
     plan_sync states tip ! i
       = plan_range states tip (plan_starts states tip) i (plan_starts states tip ! i)"
  by (simp add: plan_sync_def Let_def nth_enumerate_eq)

lemma plan_end:
  assumes "planned states" and "i < length (plan_starts states tip)"
  shows "rg_end (plan_sync states tip ! i) =
    (if i + 1 < length (plan_starts states tip) then plan_starts states tip ! (i + 1) - 1 else tip)"
proof (cases "i + 1 < length (plan_starts states tip)")
  case True
  let ?n = "plan_starts states tip ! (i + 1)"
  have "?n \<in> as_next_height ` set states"
    using nth_mem [OF True] set_plan_starts by auto
  then have "?n < 2 ^ 32" using assms(1) by (auto simp: planned_def)
  moreover have "plan_starts states tip ! i < ?n"
    using sorted_wrt_nth_less [OF plan_starts_sorted _ True] by simp
  ultimately have "sub32 ?n 1 = ?n - 1" by (intro sub32_exact) simp_all
  with True assms(2) show ?thesis by (simp add: nth_plan_sync plan_range_def)
next
  case False
  with assms(2) show ?thesis by (simp add: nth_plan_sync plan_range_def)
qed

text \<open>A height at or above the first start lies in exactly one range.\<close>

lemma range_of_height:
  assumes "planned states" and "i < length (plan_starts states tip)" and "h \<le> tip"
  shows "rg_start (plan_sync states tip ! i) \<le> h \<and> h \<le> rg_end (plan_sync states tip ! i) \<longleftrightarrow>
    plan_starts states tip ! i \<le> h
      \<and> (\<forall>j < length (plan_starts states tip). i < j \<longrightarrow> h < plan_starts states tip ! j)"
proof -
  let ?st = "plan_starts states tip"
  have start: "rg_start (plan_sync states tip ! i) = ?st ! i"
    using assms(2) by (simp add: nth_plan_sync plan_range_def)
  show ?thesis
  proof (cases "i + 1 < length ?st")
    case True
    have pos: "?st ! i < ?st ! (i + 1)"
      using sorted_wrt_nth_less [OF plan_starts_sorted _ True] by simp
    have later: "?st ! (i + 1) \<le> ?st ! j" if "i < j" "j < length ?st" for j
    proof (cases "j = i + 1")
      case False
      with that have "i + 1 < j" by simp
      then show ?thesis
        using sorted_wrt_nth_less [OF plan_starts_sorted, of "i + 1" j] that(2) by (simp add: less_imp_le)
    qed simp
    have "h \<le> ?st ! (i + 1) - 1 \<longleftrightarrow> h < ?st ! (i + 1)" using pos by auto
    also have "\<dots> \<longleftrightarrow> (\<forall>j < length ?st. i < j \<longrightarrow> h < ?st ! j)"
      using True later order.strict_trans2 by fastforce
    finally show ?thesis using True by (simp add: start plan_end [OF assms(1,2)])
  next
    case False
    then show ?thesis using assms(2,3) by (auto simp: start plan_end [OF assms(1,2)])
  qed
qed

lemma range_unique:
  assumes "planned states" and "h \<le> tip"
    and "i < length (plan_sync states tip)" and "j < length (plan_sync states tip)"
    and "rg_start (plan_sync states tip ! i) \<le> h" "h \<le> rg_end (plan_sync states tip ! i)"
    and "rg_start (plan_sync states tip ! j) \<le> h" "h \<le> rg_end (plan_sync states tip ! j)"
  shows "i = j"
proof -
  have "\<not> i < j" "\<not> j < i"
    using range_of_height [OF assms(1) _ assms(2), of i] range_of_height [OF assms(1) _ assms(2), of j]
      assms(3-) by (auto simp: linorder_not_less [symmetric])
  then show ?thesis by simp
qed

lemma range_exists:
  assumes "planned states" and "h \<le> tip" and "s \<in> set states" and "as_next_height s \<le> h"
  shows "\<exists>i < length (plan_sync states tip).
    rg_start (plan_sync states tip ! i) \<le> h \<and> h \<le> rg_end (plan_sync states tip ! i)
    \<and> as_next_height s \<le> rg_start (plan_sync states tip ! i)"
proof -
  let ?st = "plan_starts states tip"
  define I where "I = {i. i < length ?st \<and> ?st ! i \<le> h}"
  have "as_next_height s \<in> set ?st" using assms by (auto simp: set_plan_starts)
  then obtain k where k: "k < length ?st" "?st ! k = as_next_height s" by (auto simp: in_set_conv_nth)
  have fin: "finite I" by (simp add: I_def)
  have kI: "k \<in> I" using k assms(4) by (simp add: I_def)
  define i where "i = Max I"
  have iI: "i \<in> I" and ik: "k \<le> i" using Max_in [OF fin] Max_ge [OF fin kI] kI unfolding i_def by blast+
  have "h < ?st ! j" if "j < length ?st" "i < j" for j
  proof (rule ccontr)
    assume "\<not> h < ?st ! j"
    with that(1) have "j \<in> I" by (simp add: I_def)
    with fin have "j \<le> i" by (simp add: i_def)
    with that(2) show False by simp
  qed
  moreover have "i < length ?st" "?st ! i \<le> h" using iI by (simp_all add: I_def)
  moreover have "as_next_height s \<le> ?st ! i"
  proof (cases "k = i")
    case False
    with ik have "k < i" by simp
    with sorted_wrt_nth_less [OF plan_starts_sorted [of states tip], of k i] iI
    have "?st ! k < ?st ! i" by (simp add: I_def)
    with k(2) show ?thesis by simp
  qed (simp add: k(2) [symmetric])
  ultimately show ?thesis using range_of_height [OF assms(1) _ assms(2), of i]
    by (intro exI [of _ i]) (simp add: nth_plan_sync plan_range_def)
qed

lemma range_members:
  "i < length (plan_sync states tip) \<Longrightarrow>
     set (account_ids (plan_sync states tip ! i))
       = as_account ` {s \<in> set states. as_next_height s \<le> rg_start (plan_sync states tip ! i)}"
  by (auto simp: nth_plan_sync plan_range_def account_ids_def image_iff)

text \<open>
  C7: the plan covers exactly what is left to scan. Every account is scanned at every height
  from its next one to the tip, each in exactly one range, and at no height below it.
\<close>

theorem plan_sync_covers:
  assumes "\<forall>s \<in> set states. as_next_height s < 2 ^ 32" and "distinct (map as_account states)"
    and "s \<in> set states" and "h \<le> tip"
  shows "(as_next_height s \<le> h \<longrightarrow>
      (\<exists>!i. i < length (plan_sync states tip) \<and> rg_start (plan_sync states tip ! i) \<le> h
         \<and> h \<le> rg_end (plan_sync states tip ! i)
         \<and> as_account s \<in> set (account_ids (plan_sync states tip ! i))))
    \<and> (h < as_next_height s \<longrightarrow>
      (\<forall>i < length (plan_sync states tip). rg_start (plan_sync states tip ! i) \<le> h
         \<longrightarrow> as_account s \<notin> set (account_ids (plan_sync states tip ! i))))"
proof -
  have pl: "planned states" using assms(1) by (simp add: planned_def)
  have same: "s' = s" if "s' \<in> set states" "as_account s' = as_account s" for s'
    using assms(2,3) that by (auto simp: distinct_map dest: inj_onD)
  have mem: "as_account s \<in> set (account_ids (plan_sync states tip ! i))
      \<longleftrightarrow> as_next_height s \<le> rg_start (plan_sync states tip ! i)"
    if "i < length (plan_sync states tip)" for i
    using range_members [OF that] same assms(3) by (auto simp: image_iff)
  have "\<exists>!i. i < length (plan_sync states tip) \<and> rg_start (plan_sync states tip ! i) \<le> h
         \<and> h \<le> rg_end (plan_sync states tip ! i)
         \<and> as_account s \<in> set (account_ids (plan_sync states tip ! i))" if "as_next_height s \<le> h"
    using range_exists [OF pl assms(4,3) that] mem range_unique [OF pl assms(4)] by metis
  moreover have "as_account s \<notin> set (account_ids (plan_sync states tip ! i))"
    if "h < as_next_height s" "i < length (plan_sync states tip)"
      "rg_start (plan_sync states tip ! i) \<le> h" for i
    using mem [OF that(2)] that by simp
  ultimately show ?thesis by blast
qed

theorem plan_sync_covers_witness:
  "\<exists>!i. i < length (plan_sync [\<lparr> as_account = 2, as_next_height = 200, as_use_internal = True \<rparr>,
           \<lparr> as_account = 1, as_next_height = 100, as_use_internal = False \<rparr>] 300)
     \<and> rg_start (plan_sync [\<lparr> as_account = 2, as_next_height = 200, as_use_internal = True \<rparr>,
           \<lparr> as_account = 1, as_next_height = 100, as_use_internal = False \<rparr>] 300 ! i) \<le> 250
     \<and> 250 \<le> rg_end (plan_sync [\<lparr> as_account = 2, as_next_height = 200, as_use_internal = True \<rparr>,
           \<lparr> as_account = 1, as_next_height = 100, as_use_internal = False \<rparr>] 300 ! i)
     \<and> 1 \<in> set (account_ids (plan_sync [\<lparr> as_account = 2, as_next_height = 200, as_use_internal = True \<rparr>,
           \<lparr> as_account = 1, as_next_height = 100, as_use_internal = False \<rparr>] 300 ! i))"
  using plan_sync_covers [of "[\<lparr> as_account = 2, as_next_height = 200, as_use_internal = True \<rparr>,
      \<lparr> as_account = 1, as_next_height = 100, as_use_internal = False \<rparr>]"
      "\<lparr> as_account = 1, as_next_height = 100, as_use_internal = False \<rparr>" 250 300]
  by simp

end
