(* ===== verification/Sync_Run.thy ===== *)
theory Sync_Run
  imports Chain_Log_Steps Sync_Plan
begin

text \<open>
  The part of \<open>rust/src/sync/mod.rs\<close> that works on the chain log before and after a scan:
  pruning, the recovery from a partial sync, observing the accounts, the rewind and the
  reset (\<open>account::reset_within\<close>), the heights a scan must still fetch and the outcome. The
  network scans themselves are not modelled: their effect on the chain log is a sequence of
  the events of \<open>Chain_Log_Steps\<close>. What \<open>sqlx\<close> decodes an SQL null to, where the code reads a
  column that can be null as a non-null value, is a parameter.
\<close>

text \<open>The error of a query that must return a row and has none.\<close>

datatype sync_error = RowNotFound

definition trim_sync_data :: "u32 \<Rightarrow> u32 \<Rightarrow> db \<Rightarrow> db" where
  "trim_sync_data account height db = trim_to account height db"

definition prune_old_checkpoints :: "u32 \<Rightarrow> u32 \<Rightarrow> db \<Rightarrow> db" where
  "prune_old_checkpoints account height db =
     (case last_checkpoint_before account height db of
        Some checkpoint_height \<Rightarrow> prune_witnesses_before account checkpoint_height db
      | None \<Rightarrow> db)"

definition min_height :: "u32 list \<Rightarrow> u32 option" where
  "min_height hs = (case hs of [] \<Rightarrow> None | h # t \<Rightarrow> Some (foldr min t h))"

definition account_min_height :: "u32 \<Rightarrow> db \<Rightarrow> u32 option" where
  "account_min_height account db =
     min_height (map sh_height (filter (\<lambda>r. sh_account r = account) (db_sync_heights db)))"

text \<open>
  The query of \<open>recover_from_partial_sync\<close> is an aggregate without a group: it has one row for
  an account without a checkpoint too, whose two columns are null.
\<close>

definition recover_account :: "u32 panics \<Rightarrow> u32 \<Rightarrow> db \<Rightarrow> db panics" where
  "recover_account null_u32 account db =
     (case account_min_height account db of
        Some height \<Rightarrow> Some (trim_sync_data account height db)
      | None \<Rightarrow> do { a \<leftarrow> null_u32; height \<leftarrow> null_u32; Some (trim_sync_data a height db) })"

definition recover_from_partial_sync :: "u32 panics \<Rightarrow> u32 list \<Rightarrow> db \<Rightarrow> db panics" where
  "recover_from_partial_sync null_u32 accounts db =
     foldM (\<lambda>db account. recover_account null_u32 account db) db accounts"

definition normalize_accounts :: "u32 list \<Rightarrow> u32 list" where
  "normalize_accounts accounts = remdups_adj (sort accounts)"

text \<open>
  Observing an account that has no row reads a null \<open>use_internal\<close>; an error of its decoding
  is an error of the sync.
\<close>

fun observe_accounts ::
  "('e + bool) \<Rightarrow> u32 list \<Rightarrow> db \<Rightarrow> 'e + account_sync_state list" where
  "observe_accounts null_bool [] db = Inr []"
| "observe_accounts null_bool (account # accounts) db =
     (case (case List.find (\<lambda>r. ac_id r = account) (db_accounts db) of
              Some r \<Rightarrow> Inr (account_min_height account db, ac_use_internal r)
            | None \<Rightarrow> map_sum id (\<lambda>b. (None, b)) null_bool) of
        Inl e \<Rightarrow> Inl e
      | Inr (Some height, use_internal) \<Rightarrow>
          map_sum id (\<lambda>states. \<lparr> as_account = account, as_next_height = add32 height 1,
              as_use_internal = use_internal \<rparr> # states) (observe_accounts null_bool accounts db)
      | Inr (None, _) \<Rightarrow> observe_accounts null_bool accounts db)"

datatype sync_outcome = Synced u32 | Skipped | Cancelled

definition finish :: "'e + unit \<Rightarrow> bool \<Rightarrow> u32 \<Rightarrow> 'e + sync_outcome" where
  "finish result cancelled height =
     (if cancelled then Inr Cancelled
      else (case result of Inr _ \<Rightarrow> Inr (Synced height) | Inl e \<Rightarrow> Inl e))"

record sync_height =
  ht_pool :: u8
  ht_height :: u32
  ht_time :: u32

definition get_db_height :: "u32 \<Rightarrow> db \<Rightarrow> sync_error + sync_height" where
  "get_db_height account db =
     (case account_min_height account db of
        None \<Rightarrow> Inl RowNotFound
      | Some h \<Rightarrow>
          Inr \<lparr> ht_pool = 0, ht_height = h,
                ht_time = (case List.find (\<lambda>r. hd_height r = h \<and> hd_account r = account) (db_headers db) of
                             Some r \<Rightarrow> hd_time r | None \<Rightarrow> 0) \<rparr>)"

definition get_heights_without_time :: "u32 list \<Rightarrow> u32 \<Rightarrow> u32 \<Rightarrow> db \<Rightarrow> u32 set" where
  "get_heights_without_time accounts start end' db =
     set (concat (map (\<lambda>account.
       map tx_height (filter (\<lambda>r. tx_account r = account \<and> tx_time r = 0 \<and> tx_height r \<ge> start
            \<and> tx_height r \<le> end') (db_transactions db))
       @ map sh_height (filter (\<lambda>r. sh_account r = account \<and> sh_height r > 0
            \<and> \<not> list_ex (\<lambda>h. hd_account h = account \<and> hd_height h = sh_height r) (db_headers db))
          (db_sync_heights db))) accounts))"

text \<open>The database part of \<open>run_sync\<close> up to the plan.\<close>

definition prepare_sync ::
  "u32 panics \<Rightarrow> ('e + bool) \<Rightarrow> u32 \<Rightarrow> u32 \<Rightarrow> u32 list \<Rightarrow> db \<Rightarrow> (db \<times> ('e + sync_range list)) panics" where
  "prepare_sync null_u32 null_bool current_height checkpoint_age accounts db =
     (let cutoff = sat_sub current_height checkpoint_age;
          db1 = fold (\<lambda>account. prune_old_checkpoints account cutoff) accounts db
      in do {
           db2 \<leftarrow> recover_from_partial_sync null_u32 accounts db1;
           Some (db2, map_sum id (\<lambda>states. plan_sync states current_height)
                        (observe_accounts null_bool accounts db2))
         })"

section \<open>Rewind and reset\<close>

definition get_birth_height :: "u32 \<Rightarrow> db \<Rightarrow> u32 option" where
  "get_birth_height account db =
     map_option ac_birth (List.find (\<lambda>r. ac_id r = account) (db_accounts db))"

definition reset_within ::
  "(network_upgrade \<Rightarrow> u32 option) \<Rightarrow> u32 \<Rightarrow> db \<Rightarrow> (sync_error + db) panics" where
  "reset_within activation account db =
     (case get_birth_height account db of
        None \<Rightarrow> Some (Inl RowNotFound)
      | Some birth \<Rightarrow>
          map_option Inr (init_checkpoints activation account birth (trim_to account 0 db)))"

definition rewind_within ::
  "(network_upgrade \<Rightarrow> u32 option) \<Rightarrow> u32 \<Rightarrow> u32 \<Rightarrow> db \<Rightarrow> (sync_error + db) panics" where
  "rewind_within activation account height db =
     (case last_checkpoint_before account height db of
        Some prev_height \<Rightarrow> Some (Inr (trim_sync_data account prev_height db))
      | None \<Rightarrow> reset_within activation account db)"

section \<open>Maintenance steps\<close>

lemma max_height_bounds:
  "max_height hs = Some h \<Longrightarrow> h \<in> set hs \<and> (\<forall>k \<in> set hs. k \<le> h)"
proof -
  have "foldr max hs 0 \<in> set hs \<and> (\<forall>k \<in> set hs. k \<le> foldr max hs 0)" if "hs \<noteq> []" for hs :: "nat list"
    using that
  proof (induction hs)
    case (Cons k hs)
    then show ?case by (cases hs) (auto simp: max_def)
  qed simp
  then show "max_height hs = Some h \<Longrightarrow> h \<in> set hs \<and> (\<forall>k \<in> set hs. k \<le> h)"
    by (auto simp: max_height_def split: if_splits)
qed

lemma min_height_bounds: "min_height hs = Some h \<Longrightarrow> h \<in> set hs \<and> (\<forall>k \<in> set hs. h \<le> k)"
proof -
  have "foldr min t h \<in> insert h (set t) \<and> (\<forall>k \<in> insert h (set t). foldr min t h \<le> k)"
    for t and h :: nat
    by (induction t) (auto simp: min_def)
  then show "min_height hs = Some h \<Longrightarrow> h \<in> set hs \<and> (\<forall>k \<in> set hs. h \<le> k)"
    by (auto simp: min_height_def split: list.splits)
qed

lemma last_checkpoint_bounds:
  "last_checkpoint_before a height db = Some h \<Longrightarrow>
     h < height \<and> (\<exists>w \<in> set (db_witnesses db). wt_account w = a \<and> wt_height w = h)
     \<and> (\<forall>w \<in> set (db_witnesses db). wt_account w = a \<longrightarrow> wt_height w < height \<longrightarrow> wt_height w \<le> h)"
  using max_height_bounds by (fastforce simp: last_checkpoint_before_def)

inductive maintenance_step :: "u32 \<Rightarrow> db \<Rightarrow> db \<Rightarrow> bool" where
  PruneOld: "maintenance_step a db (prune_old_checkpoints a cutoff db)"
| Recover: "recover_account null_u32 a db = Some db' \<Longrightarrow> account_min_height a db \<noteq> None
    \<Longrightarrow> maintenance_step a db db'"
| Rewind: "rewind_within act a h db = Some (Inr db') \<Longrightarrow> maintenance_step a db db'"
| Reset: "reset_within act a db = Some (Inr db') \<Longrightarrow> maintenance_step a db db'"

lemma reset_ok: "reset_within act a db = Some (Inr db') \<Longrightarrow> log_ok db \<Longrightarrow> log_ok db'"
  by (auto simp: reset_within_def split: option.splits intro: log_ok_init_checkpoints log_ok_trim)

lemma reset_isolates:
  "reset_within act a db = Some (Inr db') \<Longrightarrow> b \<noteq> a \<Longrightarrow> account_view b db' = account_view b db"
  using view_init_checkpoints [of b a act _ "trim_to a 0 db" db']
  by (auto simp: reset_within_def view_removals split: option.splits)

lemma prune_old_ok: "log_ok db \<Longrightarrow> log_ok (prune_old_checkpoints a cutoff db)"
  by (simp add: prune_old_checkpoints_def log_ok_prune split: option.split)

interpretation maintenance: account_scoped maintenance_step
proof
  fix a db db' assume "maintenance_step a db db'" "log_ok db"
  then show "log_ok db'"
    by (induction rule: maintenance_step.induct)
      (auto simp: recover_account_def trim_sync_data_def rewind_within_def prune_old_ok
        split: option.splits intro: log_ok_trim reset_ok)
next
  fix a b db db' assume "maintenance_step a db db'" "log_ok db" "b \<noteq> a"
  then show "account_view b db' = account_view b db"
    by (induction rule: maintenance_step.induct)
      (auto simp: recover_account_def trim_sync_data_def rewind_within_def view_removals
        prune_old_checkpoints_def split: option.splits dest: reset_isolates)
qed

end
