(* ===== verification/Chain_Example.thy ===== *)
theory Chain_Example
  imports Chain_Log
begin

text \<open>
  A small wallet on which the witnesses evaluate: account 1 with an unspent note received at
  height 100, a note spent and a locked change note at height 150, and witnesses of the first
  at both heights; account 2 with one transaction, the same one account 1 sent.
\<close>

definition ex_tx :: "u32 \<Rightarrow> u32 \<Rightarrow> blob \<Rightarrow> u32 \<Rightarrow> u32 option \<Rightarrow> transaction_row" where
  "ex_tx i a txid h category = \<lparr> tx_txid = txid, tx_height = h, tx_time = 0, tx_details = False,
     tx_tpe = None, tx_value = 0, tx_fee = 0, tx_price = None, tx_category = category, tx_id = i,
     tx_account = a, tx_zsa_value = 0, tx_asset_id = None \<rparr>"

definition ex_note_in :: "u32 \<Rightarrow> u32 \<Rightarrow> blob \<Rightarrow> i64 \<Rightarrow> bool \<Rightarrow> note_in" where
  "ex_note_in tx h nf v locked = \<lparr> nt_id_tx = tx, nt_height = h, nt_pool = 1, nt_scope = Some 0,
     nt_nullifier = nf, nt_value = v, nt_cmx = Some nf, nt_taddress = None, nt_position = Some 0,
     nt_diversifier = None, nt_rcm = None, nt_rho = None, nt_locked = locked, nt_id_asset = None,
     nt_diversifier_index = None \<rparr>"

definition ex_note :: "u32 \<Rightarrow> u32 \<Rightarrow> u32 \<Rightarrow> blob \<Rightarrow> i64 \<Rightarrow> bool \<Rightarrow> note_row" where
  "ex_note i tx h nf v locked = \<lparr> nt_id_tx = tx, nt_height = h, nt_pool = 1, nt_scope = Some 0,
     nt_nullifier = nf, nt_value = v, nt_cmx = Some nf, nt_taddress = None, nt_position = Some 0,
     nt_diversifier = None, nt_rcm = None, nt_rho = None, nt_locked = locked, nt_id_asset = None,
     nt_diversifier_index = None, nt_id = i, nt_account = 1 \<rparr>"

definition ex_header :: "u32 \<Rightarrow> header_in" where
  "ex_header h = \<lparr> hd_height = h, hd_hash = [h], hd_time = 1000 + h \<rparr>"

definition new_db :: db where
  "new_db = \<lparr> db_accounts = [\<lparr> ac_id = 1, ac_birth = 50, ac_use_internal = True \<rparr>,
       \<lparr> ac_id = 2, ac_birth = 60, ac_use_internal = False \<rparr>],
     db_transparent_accounts = [], db_sapling_accounts = [1, 2], db_orchard_accounts = [],
     db_taddresses = [], db_sync_heights = [], db_headers = [], db_transactions = [],
     db_notes = [], db_spends = [], db_witnesses = [], db_outputs = [], db_memos = [],
     db_user_memos = [], db_pending = [], db_assets = [] \<rparr>"

definition ex_db :: db where
  "ex_db = new_db\<lparr>
     db_sync_heights := [\<lparr> sh_account = 1, sh_pool = 1, sh_height = 150 \<rparr>],
     db_headers := [\<lparr> hd_height = 100, hd_hash = [100], hd_time = 1100, hd_account = 1 \<rparr>,
       \<lparr> hd_height = 150, hd_hash = [150], hd_time = 1150, hd_account = 1 \<rparr>],
     db_transactions := [ex_tx 1 1 [1] 100 None, ex_tx 2 1 [2] 150 None, ex_tx 3 2 [2] 150 None],
     db_notes := [ex_note 1 1 100 [10] 700 False, ex_note 2 1 100 [11] 500 False,
       ex_note 3 2 150 [12] 400 True],
     db_spends := [\<lparr> sp_id_note = 2, sp_height = 150, sp_account = 1, sp_pool = 1, sp_tx = 2,
       sp_value = - 500 \<rparr>],
     db_witnesses := [\<lparr> wt_id = 1, wt_account = 1, wt_note = 1, wt_height = 100, wt_witness = [0] \<rparr>,
       \<lparr> wt_id = 2, wt_account = 1, wt_note = 1, wt_height = 150, wt_witness = [1] \<rparr>],
     db_pending := [\<lparr> pd_id = 1, pd_account = 1, pd_txid = [2], pd_height = 145, pd_price = Some 7,
       pd_category = Some 5 \<rparr>] \<rparr>"

end
