(* ===== verification/Pay_Types.thy ===== *)
theory Pay_Types
  imports Pools Chain_Example
begin

text \<open>
  The payment types of \<open>rust/src/pay/mod.rs\<close> and the wallet's unspent notes as the planner
  reads them (\<open>fetch_unspent_notes_by_pool\<close> and \<open>fetch_unspent_notes_grouped_by_pool\<close> of
  \<open>rust/src/pay/plan.rs\<close>).
\<close>

record recipient =
  rc_address :: string
  rc_amount :: u64
  rc_pools :: "u8 option"
  rc_user_memo :: "string option"
  rc_memo_bytes :: "blob option"
  rc_price :: "f64 option"
  rc_asset_base :: blob
  rc_asset_name :: "string option"

definition default_recipient :: recipient where
  "default_recipient = \<lparr> rc_address = [], rc_amount = 0, rc_pools = None, rc_user_memo = None,
     rc_memo_bytes = None, rc_price = None, rc_asset_base = [], rc_asset_name = None \<rparr>"

record recipient_state =
  rs_recipient :: recipient
  rs_remaining :: u64
  rs_pool_mask :: pool_mask
  rs_asset_base :: blob

definition zec_base :: blob where "zec_base = replicate 32 0"

text \<open>\<open>RecipientState::new\<close>: an error of the address, or a panic of the assertion on the mask.\<close>

definition recipient_state_new ::
  "(string \<Rightarrow> 'addr option) \<Rightarrow> ('addr \<Rightarrow> pool_type \<Rightarrow> bool) \<Rightarrow> recipient
   \<Rightarrow> (pay_error + recipient_state) panics" where
  "recipient_state_new try_from_encoded can_receive_as recipient =
     (case from_address try_from_encoded can_receive_as (rc_address recipient) of
        Inl e \<Rightarrow> Some (Inl e)
      | Inr mask0 \<Rightarrow>
          (case trim_transparent mask0 of
             Inl e \<Rightarrow> Some (Inl e)
           | Inr pm \<Rightarrow>
               (if pm = 1 \<or> pm = 2 \<or> pm = 12 \<or> pm = 14
                then Some (Inr \<lparr> rs_recipient = recipient, rs_remaining = rc_amount recipient,
                       rs_pool_mask = pm,
                       rs_asset_base = (if rc_asset_base recipient = [] then zec_base
                                        else rc_asset_base recipient) \<rparr>)
                else None)))"

definition recipient_state_for_fee :: "u8 \<Rightarrow> u64 \<Rightarrow> recipient_state" where
  "recipient_state_for_fee pool amount =
     \<lparr> rs_recipient = default_recipient\<lparr> rc_amount := amount \<rparr>, rs_remaining = amount,
       rs_pool_mask = from_pool pool, rs_asset_base = zec_base \<rparr>"

record input_note =
  in_id :: u32
  in_height :: u32
  in_amount :: u64
  in_remaining :: u64
  in_pool :: u8
  in_id_asset :: "u32 option"
  in_asset_base :: blob
  in_taddress :: "u32 option"
  in_uncompressed :: bool

definition is_used :: "input_note \<Rightarrow> bool" where
  "is_used n \<longleftrightarrow> in_remaining n \<noteq> in_amount n"

section \<open>Unspent notes\<close>

text \<open>The left joins with \<open>assets\<close> and \<open>transparent_address_accounts\<close> are by primary key.\<close>

definition input_note_of :: "db \<Rightarrow> note_row \<Rightarrow> input_note" where
  "input_note_of db r =
     \<lparr> in_id = nt_id r, in_height = nt_height r, in_amount = as_u64 (nt_value r),
       in_remaining = as_u64 (nt_value r), in_pool = nt_pool r, in_id_asset = nt_id_asset r,
       in_asset_base = (case nt_id_asset r of
            None \<Rightarrow> zec_base
          | Some i \<Rightarrow> (case List.find (\<lambda>a. as_id a = i) (db_assets db) of
                         Some a \<Rightarrow> as_base a | None \<Rightarrow> zec_base)),
       in_taddress = nt_taddress r,
       in_uncompressed = (case nt_taddress r of
            None \<Rightarrow> False
          | Some t \<Rightarrow> (case List.find (\<lambda>a. fst a = t) (db_taddresses db) of
                         Some a \<Rightarrow> snd a | None \<Rightarrow> False)) \<rparr>"

definition spendable_rows :: "u32 \<Rightarrow> db \<Rightarrow> note_row list" where
  "spendable_rows account db =
     filter (\<lambda>r. unspent db r \<and> nt_account r = account \<and> \<not> nt_locked r) (db_notes db)"

definition fetch_unspent_notes_grouped_by_pool :: "u32 \<Rightarrow> db \<Rightarrow> input_note list" where
  "fetch_unspent_notes_grouped_by_pool account db =
     map (input_note_of db) (sort_key nt_pool (spendable_rows account db))"

datatype fetch_error = UnexpectedPool u8

definition fetch_unspent_notes_by_pool :: "u32 \<Rightarrow> db \<Rightarrow> fetch_error + input_note list list" where
  "fetch_unspent_notes_by_pool account db =
     foldl (\<lambda>acc note.
        case acc of
          Inl e \<Rightarrow> Inl e
        | Inr result \<Rightarrow>
            (if in_pool note < 4 then Inr (upd_at (in_pool note) (\<lambda>ns. ns @ [note]) result)
             else Inl (UnexpectedPool (in_pool note))))
       (Inr [[], [], [], []]) (map (input_note_of db) (spendable_rows account db))"

lemma fetch_unspent_prefix:
  assumes "\<forall>n \<in> set ns. in_pool n < 4"
  shows "foldl (\<lambda>acc note.
        case acc of
          Inl e \<Rightarrow> Inl e
        | Inr result \<Rightarrow>
            (if in_pool note < 4 then Inr (upd_at (in_pool note) (\<lambda>xs. xs @ [note]) result)
             else Inl (UnexpectedPool (in_pool note))))
       (Inr [[], [], [], []]) ns
    = Inr (map (\<lambda>p. filter (\<lambda>n. in_pool n = p) ns) [0, 1, 2, 3])"
  using assms
proof (induction ns rule: rev_induct)
  case Nil
  then show ?case by simp
next
  case (snoc n ns)
  then have "in_pool n = 0 \<or> in_pool n = 1 \<or> in_pool n = 2 \<or> in_pool n = 3"
    by (auto simp: pools_below_4)
  with snoc show ?case by (auto simp: upd_at_def numeral_3_eq_3 numeral_2_eq_2)
qed

lemma fetch_unspent_by_pool:
  assumes "\<forall>r \<in> set (db_notes db). nt_pool r < 4"
  shows "fetch_unspent_notes_by_pool account db
    = Inr (map (\<lambda>p. filter (\<lambda>n. in_pool n = p) (map (input_note_of db) (spendable_rows account db)))
        [0, 1, 2, 3])"
  unfolding fetch_unspent_notes_by_pool_def
  by (rule fetch_unspent_prefix) (use assms in \<open>auto simp: input_note_of_def spendable_rows_def\<close>)

text \<open>
  The notes offered to the planner. The four lists returned are, pool by pool, exactly
  the notes of the account that are neither spent nor locked, with their whole value
  remaining: a note locked at broadcast or recorded as spent is never offered again.
\<close>

theorem unspent_notes_are_spendable:
  assumes "\<forall>r \<in> set (db_notes db). nt_pool r < 4"
    and "fetch_unspent_notes_by_pool account db = Inr pools"
  shows "length pools = 4 \<and> (\<forall>p < 4. \<forall>n. n \<in> set (pools ! p) \<longleftrightarrow>
    (\<exists>r \<in> set (db_notes db). nt_account r = account \<and> nt_pool r = p \<and> \<not> nt_locked r
       \<and> \<not> (\<exists>s \<in> set (db_spends db). sp_id_note s = nt_id r) \<and> n = input_note_of db r
       \<and> \<not> is_used n))"
proof -
  have pool: "in_pool (input_note_of db r) = nt_pool r" for r by (simp add: input_note_of_def)
  have used: "\<not> is_used (input_note_of db r)" for r by (simp add: is_used_def input_note_of_def)
  have pools: "pools = map (\<lambda>p. filter (\<lambda>n. in_pool n = p)
      (map (input_note_of db) (spendable_rows account db))) [0, 1, 2, 3]"
    using assms(2) fetch_unspent_by_pool [OF assms(1), of account] by simp
  have "set (pools ! p) = input_note_of db ` {r \<in> set (spendable_rows account db). nt_pool r = p}"
    if "p < 4" for p
    using that by (auto simp: pools pool pools_below_4 numeral_3_eq_3 numeral_2_eq_2)
  then show ?thesis
    using used by (auto simp: pools spendable_rows_def unspent_def list_ex_iff)
qed

theorem unspent_notes_are_spendable_witness:
  "\<exists>pools. fetch_unspent_notes_by_pool 1 ex_db = Inr pools
    \<and> (\<forall>n. n \<in> set (pools ! 1) \<longleftrightarrow> (\<exists>r \<in> set (db_notes ex_db). nt_account r = 1 \<and> nt_pool r = 1
       \<and> \<not> nt_locked r \<and> \<not> (\<exists>s \<in> set (db_spends ex_db). sp_id_note s = nt_id r)
       \<and> n = input_note_of ex_db r \<and> \<not> is_used n))"
proof -
  have pools: "\<forall>r \<in> set (db_notes ex_db). nt_pool r < 4" by code_simp
  obtain pools where f: "fetch_unspent_notes_by_pool 1 ex_db = Inr pools"
    using fetch_unspent_by_pool [OF pools] by blast
  from unspent_notes_are_spendable [OF pools f] f show ?thesis by auto
qed

text \<open>
  An accepted address always has a usable mask: the assertion of \<open>RecipientState::new\<close>
  never fails, whatever the address decoder answers, and an accepted recipient can receive
  in a shielded pool unless the address is transparent only.
\<close>

theorem recipient_state_new_never_panics:
  "\<exists>r. recipient_state_new try_from_encoded can_receive_as recipient = Some r
    \<and> (\<forall>st. r = Inr st \<longrightarrow> rs_remaining st = rc_amount recipient
         \<and> (rs_pool_mask st = 1 \<longleftrightarrow> to_best_pool (rs_pool_mask st) = Some 0)
         \<and> to_best_pool (rs_pool_mask st) \<noteq> None)"
  by (auto simp: recipient_state_new_def from_address_def trim_transparent_def Let_def
      to_best_pool_def split: option.splits)

theorem recipient_state_new_never_panics_witness:
  "\<exists>st. recipient_state_new (\<lambda>_. Some ()) (\<lambda>_ pool. pool = Orchard_Pool)
       (default_recipient\<lparr> rc_amount := 5 \<rparr>) = Some (Inr st)
     \<and> rs_remaining st = 5 \<and> to_best_pool (rs_pool_mask st) \<noteq> None"
proof -
  let ?new = "recipient_state_new (\<lambda>_. Some ()) (\<lambda>_ pool. pool = Orchard_Pool)
    (default_recipient\<lparr> rc_amount := 5 \<rparr>)"
  have "(case ?new of Some (Inr _) \<Rightarrow> True | _ \<Rightarrow> False)" by code_simp
  then have ok: "\<exists>st. ?new = Some (Inr st)" by (auto split: option.splits sum.splits)
  have "rc_amount (default_recipient\<lparr> rc_amount := 5 \<rparr>) = 5" by simp
  with ok recipient_state_new_never_panics [of "\<lambda>_. Some ()" "\<lambda>_ pool. pool = Orchard_Pool"
      "default_recipient\<lparr> rc_amount := 5 \<rparr>"]
  show ?thesis by auto
qed

end
