(* ===== verification/Sync_Properties.thy ===== *)
theory Sync_Properties
  imports Sync_Run Pay_Types
begin

text \<open>
  The properties of the chain log and of the sync's maintenance of it: the invariant over all
  runs, the isolation of accounts, what a rewind and a recovery restore, what pruning keeps,
  the life of a note from its lock to its spend, and the pending metadata.
\<close>

section \<open>Runs\<close>

definition wallet_step :: "u32 \<Rightarrow> db \<Rightarrow> db \<Rightarrow> bool" where
  "wallet_step a db db' \<longleftrightarrow> log_step a db db' \<or> maintenance_step a db db'"

interpretation wallet: account_scoped wallet_step
  by unfold_locales
    (auto simp: wallet_step_def dest: chain_log.keeps chain_log.isolates maintenance.keeps
      maintenance.isolates)


text \<open>
  C9: accounts are isolated. A run of operations for the accounts of a set leaves the
  checkpoints, headers, transactions, notes, spends, witnesses, outputs, memos and pending
  entries of every other account exactly as they were.
\<close>

theorem accounts_are_isolated:
  assumes "log_ok db" and "(\<lambda>db db'. \<exists>a \<in> A. wallet_step a db db')\<^sup>*\<^sup>* db db'" and "b \<notin> A"
  shows "account_view b db' = account_view b db"
  using wallet.run_isolates [OF assms(2,1,3)] by simp

section \<open>Rewind and recovery\<close>

text \<open>
  C10: a rewind undoes a sync. When an account is synced to a height and a scan then records
  any sequence of events above it, trimming the account back to that height restores every
  row of every table (the lock flags of the notes apart, which a recorded spend clears) and
  puts all the account's checkpoints there.
\<close>

theorem rewind_undoes_sync:
  assumes "synced_to a h db" and "foldM (\<lambda>d ev. apply_event a ev d) db evs = Some db'"
    and "\<forall>ev \<in> set evs. event_height ev > h"
  shows "chain_rows (trim_to a h db') = chain_rows db
    \<and> (\<forall>r \<in> set (db_sync_heights (trim_to a h db')). sh_account r = a \<longrightarrow> sh_height r = h)"
  using trim_events [OF assms(2,3)] trim_synced [OF assms(1)] trim_heights by auto

lemma recover_account_min:
  assumes "recover_account null_u32 a db = Some db'" and "account_min_height a db = Some m"
  shows "db' = trim_to a m db" and "account_min_height a db' = Some m"
proof -
  show eq: "db' = trim_to a m db"
    using assms by (simp add: recover_account_def trim_sync_data_def)
  have "map sh_height (filter (\<lambda>r. sh_account r = a)
        (update_where (\<lambda>r. sh_account r = a) (\<lambda>r. r\<lparr> sh_height := m \<rparr>) rows))
      = map (\<lambda>_. m) (filter (\<lambda>r. sh_account r = a) rows)" for rows
    by (induction rows) (auto simp: update_where_def)
  then have "map sh_height (filter (\<lambda>r. sh_account r = a) (db_sync_heights db'))
      = map (\<lambda>_. m) (filter (\<lambda>r. sh_account r = a) (db_sync_heights db))"
    by (simp add: eq trim_to_def)
  moreover have "filter (\<lambda>r. sh_account r = a) (db_sync_heights db) \<noteq> []"
    using assms(2) by (auto simp: account_min_height_def min_height_def)
  moreover have "min_height (map (\<lambda>_. m) xs) = Some m" if "xs \<noteq> []" for xs :: "sync_height_row list"
  proof -
    have "foldr min (map (\<lambda>_. m) t) m = m" for t :: "sync_height_row list" by (induction t) simp_all
    with that show ?thesis by (cases xs) (simp_all add: min_height_def)
  qed
  ultimately show "account_min_height a db' = Some m" by (simp add: account_min_height_def)
qed

lemma other_account_min:
  "b \<noteq> a \<Longrightarrow> account_min_height b (trim_to a m db) = account_min_height b db"
  using view_removals(2) [of b a m db] by (simp add: account_min_height_def account_view_def)

text \<open>What an account keeps of a view when its rows above a height are removed.\<close>

definition view_trimmed :: "u32 \<Rightarrow> account_view \<Rightarrow> account_view" where
  "view_trimmed h v = v\<lparr>
     av_heights := map (\<lambda>r. r\<lparr> sh_height := h \<rparr>) (av_heights v),
     av_headers := filter (\<lambda>r. hd_height r \<le> h) (av_headers v),
     av_transactions := filter (\<lambda>r. tx_height r \<le> h) (av_transactions v),
     av_notes := filter (\<lambda>r. nt_height r \<le> h) (av_notes v),
     av_spends := filter (\<lambda>r. sp_height r \<le> h) (av_spends v),
     av_witnesses := filter (\<lambda>r. wt_height r \<le> h) (av_witnesses v),
     av_outputs := filter (\<lambda>r. ou_height r \<le> h) (av_outputs v),
     av_memos := filter (\<lambda>r. me_height r \<le> h) (av_memos v),
     av_user_memos := filter (\<lambda>r. um_height r \<le> h) (av_user_memos v) \<rparr>"

lemma filter_trimmed:
  "filter (\<lambda>r. acct r = a) (delete_where (\<lambda>r. ht r > (h :: nat) \<and> acct r = a) rows)
    = filter (\<lambda>r. ht r \<le> h) (filter (\<lambda>r. acct r = a) rows)"
  unfolding delete_where_def filter_filter by (rule filter_cong) auto

lemma view_trim: "account_view a (trim_to a h db) = view_trimmed h (account_view a db)"
proof -
  have "filter (\<lambda>r. sh_account r = a) (update_where (\<lambda>r. sh_account r = a)
      (\<lambda>r. r\<lparr> sh_height := h \<rparr>) rows)
    = map (\<lambda>r. r\<lparr> sh_height := h \<rparr>) (filter (\<lambda>r. sh_account r = a) rows)" for rows
    by (induction rows) (auto simp: update_where_def)
  then show ?thesis by (simp add: account_view_def trim_to_def view_trimmed_def filter_trimmed)
qed

lemma recover_rest:
  assumes "recover_from_partial_sync null_u32 as db = Some db'" and "a \<notin> set as"
    and "\<forall>b \<in> set as. account_min_height b db \<noteq> None"
  shows "account_view a db' = account_view a db"
  using assms
proof (induction as arbitrary: db)
  case Nil
  then show ?case by (simp add: recover_from_partial_sync_def)
next
  case (Cons b bs)
  obtain d where d: "recover_account null_u32 b db = Some d"
    "recover_from_partial_sync null_u32 bs d = Some db'"
    using Cons.prems(1) by (auto simp: recover_from_partial_sync_def split: option.splits)
  obtain m where m: "account_min_height b db = Some m" using Cons.prems(3) by auto
  note dm = recover_account_min(1) [OF d(1) m]
  have "account_min_height c d \<noteq> None" if "c \<in> set bs" for c
    using Cons.prems(3) that recover_account_min(2) [OF d(1) m] other_account_min [of c b m db]
    by (cases "c = b") (auto simp: dm)
  with Cons.IH [OF d(2)] Cons.prems(2) show ?case by (simp add: dm view_removals)
qed

lemma view_trimmed_idem: "view_trimmed h (view_trimmed h v) = view_trimmed h v"
  by (simp add: view_trimmed_def comp_def)

text \<open>
  The recovery from a partial sync. For accounts that have checkpoints it never panics
  and leaves each of them at the least of its checkpoints, without any row above it and
  with every row up to it; the other accounts are untouched.
\<close>

theorem recovery_is_exact:
  assumes "\<forall>a \<in> set as. account_min_height a db \<noteq> None"
  shows "\<exists>db'. recover_from_partial_sync null_u32 as db = Some db'
    \<and> (\<forall>a. account_view a db' = (if a \<in> set as
          then view_trimmed (the (account_min_height a db)) (account_view a db)
          else account_view a db))"
  using assms
proof (induction as arbitrary: db)
  case Nil
  then show ?case by (simp add: recover_from_partial_sync_def)
next
  case (Cons b bs)
  obtain m where m: "account_min_height b db = Some m" using Cons.prems by auto
  define d where "d = trim_to b m db"
  have rb: "recover_account null_u32 b db = Some d"
    by (simp add: recover_account_def m trim_sync_data_def d_def)
  have mins: "account_min_height c d = account_min_height c db" for c
    using recover_account_min(2) [OF rb m] other_account_min [of c b m db] m
    by (cases "c = b") (simp_all add: d_def)
  obtain db' where db': "recover_from_partial_sync null_u32 bs d = Some db'"
    "\<forall>a. account_view a db' = (if a \<in> set bs
          then view_trimmed (the (account_min_height a d)) (account_view a d)
          else account_view a d)"
    using Cons.IH [of d] Cons.prems mins by auto
  have "account_view a db' = (if a \<in> set (b # bs)
          then view_trimmed (the (account_min_height a db)) (account_view a db)
          else account_view a db)" for a
    using db'(2) mins m view_trim [of b m db] view_removals(2) [of a b m db]
    by (cases "a = b") (simp_all add: d_def view_trimmed_idem)
  moreover have "recover_from_partial_sync null_u32 (b # bs) db = Some db'"
    using db'(1) rb by (simp add: recover_from_partial_sync_def)
  ultimately show ?case by blast
qed

text \<open>
  Where a rewind lands. When the account has a witness checkpoint strictly below the
  height asked for, the rewind goes to the last such checkpoint, removing everything of the
  account above it and nothing at or below it, and never advances past the height.
\<close>

theorem rewind_lands_on_last_checkpoint:
  assumes "last_checkpoint_before a height db = Some c"
  shows "rewind_within act a height db = Some (Inr (trim_to a c db))
    \<and> c < height
    \<and> account_view a (trim_to a c db) = view_trimmed c (account_view a db)
    \<and> (\<forall>w \<in> set (db_witnesses db). wt_account w = a \<longrightarrow> wt_height w < height \<longrightarrow> wt_height w \<le> c)"
  using last_checkpoint_bounds [OF assms] assms
  by (simp add: rewind_within_def trim_sync_data_def view_trim)

section \<open>Pruning\<close>

lemma max_height_eq:
  "max_height xs = Some m \<longleftrightarrow> m \<in> set xs \<and> (\<forall>k \<in> set xs. k \<le> m)"
proof
  assume "m \<in> set xs \<and> (\<forall>k \<in> set xs. k \<le> m)"
  moreover then have "xs \<noteq> []" by auto
  then obtain m' where "max_height xs = Some m'" by (simp add: max_height_def)
  ultimately show "max_height xs = Some m" using max_height_bounds by fastforce
qed (rule max_height_bounds)

text \<open>
  Pruning keeps the rewind targets. After the old witnesses of an account are pruned at a
  cutoff, a rewind to any height at or above the cutoff still finds the same checkpoint.
\<close>

theorem pruning_keeps_rewind_targets:
  assumes "cutoff \<le> height"
  shows "last_checkpoint_before a height (prune_old_checkpoints a cutoff db)
    = last_checkpoint_before a height db"
proof (cases "last_checkpoint_before a cutoff db")
  case None
  then show ?thesis by (simp add: prune_old_checkpoints_def)
next
  case (Some c)
  note c = last_checkpoint_bounds [OF Some]
  then obtain w where w: "w \<in> set (db_witnesses db)" "wt_account w = a" "wt_height w = c" by blast
  let ?hs = "\<lambda>d. map wt_height (filter (\<lambda>r. wt_height r < height \<and> wt_account r = a) (db_witnesses d))"
  have cin: "c \<in> set (?hs db)" using w c assms by (auto simp: image_iff)
  then obtain m where m: "max_height (?hs db) = Some m"
    by (cases "?hs db") (auto simp: max_height_def)
  then have mm: "m \<in> set (?hs db)" "\<forall>k \<in> set (?hs db). k \<le> m" by (simp_all add: max_height_eq)
  with cin have "c \<le> m" by blast
  then have "m \<in> set (?hs (prune_old_checkpoints a cutoff db))"
    using mm(1) Some by (auto simp: prune_old_checkpoints_def prune_witnesses_before_def image_iff)
  moreover have "\<forall>k \<in> set (?hs (prune_old_checkpoints a cutoff db)). k \<le> m"
    using mm(2) Some by (auto simp: prune_old_checkpoints_def prune_witnesses_before_def)
  ultimately have "max_height (?hs (prune_old_checkpoints a cutoff db)) = Some m"
    by (simp add: max_height_eq)
  with m show ?thesis by (simp add: last_checkpoint_before_def)
qed

section \<open>The life of a note\<close>

lemma record_spend_result:
  assumes "record_spend a s db = Inr (fresh, db')" and "find_note a (si_note s) db = Some (i, v)"
  shows "fresh \<longleftrightarrow> \<not> list_ex (\<lambda>r. sp_id_note r = i) (db_spends db)"
    and "list_ex (\<lambda>r. sp_id_note r = i) (db_spends db')"
    and "db_notes db' = update_where (\<lambda>r. nt_id r = i) (set_locked False) (db_notes db)"
  using assms by (auto simp: record_spend_def Let_def split: if_splits)

lemma mem_update_where:
  "r \<in> set rows \<Longrightarrow> (if P r then f r else r) \<in> set (update_where P f rows)"
  by (auto simp: update_where_def)

lemma find_note_update_locks:
  assumes "db_notes db' = update_where P (set_locked l) (db_notes db)"
  shows "find_note a key db' = find_note a key db"
proof -
  have km: "key_matches key (set_locked l r) = key_matches key r" for r
    by (cases key) (simp_all add: set_locked_def)
  have "map_option (\<lambda>r. (nt_id r, nt_value r)) (List.find (\<lambda>r. nt_account r = a \<and> key_matches key r)
      (update_where P (set_locked l) ns))
    = map_option (\<lambda>r. (nt_id r, nt_value r)) (List.find (\<lambda>r. nt_account r = a \<and> key_matches key r) ns)"
    for ns
    by (induction ns) (auto simp: update_where_def km)
  then show ?thesis by (simp add: find_note_def assms)
qed

text \<open>
  A recorded spend. It releases the lock the wallet put on the note and makes the note
  spent for good: the note is never again among those offered to the planner, and recording
  the same spend again reports that it is known and changes nothing.
\<close>

theorem recorded_spend_is_final:
  assumes "record_spend a s db = Inr (fresh, db')" and "find_note a (si_note s) db = Some (i, v)"
  shows "(\<forall>r \<in> set (db_notes db'). nt_id r = i \<longrightarrow> \<not> nt_locked r \<and> \<not> unspent db' r)
    \<and> (\<forall>b. \<forall>r \<in> set (spendable_rows b db'). nt_id r \<noteq> i)
    \<and> record_spend a s db' = Inr (False, db')"
proof -
  have notes': "db_notes db' = update_where (\<lambda>r. nt_id r = i) (set_locked False) (db_notes db)"
    and sp: "list_ex (\<lambda>r. sp_id_note r = i) (db_spends db')"
    using record_spend_result [OF assms] by simp_all
  have locks: "\<not> nt_locked r" if mem: "r \<in> set (db_notes db')" and id: "nt_id r = i" for r
  proof -
    obtain r0 where "r = (if nt_id r0 = i then set_locked False r0 else r0)"
      using mem unfolding notes' set_update_where by blast
    with id show ?thesis by (cases "nt_id r0 = i") simp_all
  qed
  have spent: "\<not> unspent db' r" if "nt_id r = i" for r
    using sp that by (simp add: unspent_def)
  have "find_note a (si_note s) db' = Some (i, v)"
    using assms(2) find_note_update_locks [OF notes'] by simp
  moreover have "update_where (\<lambda>r. nt_id r = i) (set_locked False) (db_notes db') = db_notes db'"
    unfolding update_where_def
    by (rule map_idI) (auto simp: set_locked_def dest: locks)
  ultimately have "record_spend a s db' = Inr (False, db')"
    using sp by (simp add: record_spend_def Let_def)
  with locks spent show ?thesis by (auto simp: spendable_rows_def)
qed

section \<open>Pending metadata\<close>

text \<open>
  Pending metadata overwrites the user. While the entry recorded at broadcast is kept
  (100 blocks), every sync copies its category and price onto the mined transaction again:
  a category the user sets meanwhile is lost at the next sync. The entry need not belong
  to the account: one that another account of the wallet recorded for the same txid is
  copied onto this account's transaction too.
\<close>

theorem pending_metadata_overwrites_user:
  assumes "r \<in> set (db_transactions db)" and "tx_id r = i" and "tx_account r = a"
    and "filter (\<lambda>p. pd_txid p = tx_txid r) (db_pending db) = [p]"
    and "\<And>q. pick [q] = q"
    and "db' = apply_pending_metadata pick a height (set_transaction_category i user_choice db)"
  shows "\<exists>r' \<in> set (db_transactions db'). tx_id r' = i \<and> tx_txid r' = tx_txid r
    \<and> tx_category r' = pd_category p \<and> tx_price r' = pd_price p"
proof -
  let ?r1 = "r\<lparr> tx_category := user_choice \<rparr>"
  let ?r2 = "?r1\<lparr> tx_price := pd_price p, tx_category := pd_category p \<rparr>"
  have "?r1 \<in> set (db_transactions (set_transaction_category i user_choice db))"
    using mem_update_where [OF assms(1), of "\<lambda>r. tx_id r = i" "\<lambda>r. r\<lparr> tx_category := user_choice \<rparr>"]
      assms(2) by (simp add: set_transaction_category_def)
  moreover have "db_pending (set_transaction_category i user_choice db) = db_pending db"
    by (simp add: set_transaction_category_def)
  ultimately have "?r2 \<in> set (db_transactions db')"
    using mem_update_where [of ?r1 "db_transactions (set_transaction_category i user_choice db)"
        "\<lambda>r. tx_account r = a \<and> filter (\<lambda>p. pd_txid p = tx_txid r) (db_pending db) \<noteq> []"
        "\<lambda>r. r\<lparr> tx_price := pd_price (pick (filter (\<lambda>p. pd_txid p = tx_txid r) (db_pending db))),
          tx_category := pd_category (pick (filter (\<lambda>p. pd_txid p = tx_txid r) (db_pending db))) \<rparr>"]
      assms(3-5)
    by (simp add: assms(6) apply_pending_metadata_def Let_def)
  moreover have "tx_id ?r2 = i \<and> tx_txid ?r2 = tx_txid r \<and> tx_category ?r2 = pd_category p
      \<and> tx_price ?r2 = pd_price p" using assms(2) by simp
  ultimately show ?thesis by blast
qed


section \<open>Witnesses\<close>

lemma ex_db_ok: "log_ok ex_db"
  by (simp add: log_ok_def keys_unique_def refs_ok_def tx_keys_def note_keys_def ex_db_def new_db_def
      ex_tx_def ex_note_def)


theorem accounts_are_isolated_witness:
  "account_view 2 (trim_to 1 100 ex_db) = account_view 2 ex_db"
proof (rule accounts_are_isolated [where A = "{1}"])
  show "log_ok ex_db" by (rule ex_db_ok)
  show "(\<lambda>db db'. \<exists>a \<in> {1}. wallet_step a db db')\<^sup>*\<^sup>* ex_db (trim_to 1 100 ex_db)"
    by (rule r_into_rtranclp) (auto simp: wallet_step_def intro: log_step.Trim)
qed simp

theorem rewind_undoes_sync_witness:
  "\<exists>db'. foldM (\<lambda>d ev. apply_event 1 ev d) (trim_to 1 120 ex_db)
       [EvTransaction (transaction_chain [9] 130 0), EvNote (ex_note_in 3 130 [20] 40 False)] = Some db'
     \<and> chain_rows (trim_to 1 120 db') = chain_rows (trim_to 1 120 ex_db)"
proof -
  let ?evs = "[EvTransaction (transaction_chain [9] 130 0), EvNote (ex_note_in 3 130 [20] 40 False)]"
  obtain db' where run: "foldM (\<lambda>d ev. apply_event 1 ev d) (trim_to 1 120 ex_db) ?evs = Some db'"
    by simp
  have "\<forall>ev \<in> set ?evs. event_height ev > 120"
    by (simp add: transaction_chain_def ex_note_in_def)
  from rewind_undoes_sync [OF synced_trim run this] run show ?thesis by blast
qed

theorem recovery_is_exact_witness:
  "\<exists>db'. recover_from_partial_sync None [1] ex_db = Some db'
    \<and> account_view 1 db' = view_trimmed 150 (account_view 1 ex_db)"
proof -
  have "account_min_height 1 ex_db = Some 150" by code_simp
  then show ?thesis using recovery_is_exact [of "[1]" ex_db None] by auto
qed

theorem rewind_lands_on_last_checkpoint_witness:
  "rewind_within (\<lambda>_. None) 1 140 ex_db = Some (Inr (trim_to 1 100 ex_db))
    \<and> account_view 1 (trim_to 1 100 ex_db) = view_trimmed 100 (account_view 1 ex_db)"
proof -
  have "last_checkpoint_before 1 140 ex_db = Some 100" by code_simp
  from rewind_lands_on_last_checkpoint [OF this] show ?thesis by blast
qed

theorem pruning_keeps_rewind_targets_witness:
  "last_checkpoint_before 1 160 (prune_old_checkpoints 1 155 ex_db) = Some 150
    \<and> map wt_height (db_witnesses (prune_old_checkpoints 1 155 ex_db)) = [150]"
proof -
  have "last_checkpoint_before 1 160 ex_db = Some 150" by code_simp
  moreover have "map wt_height (db_witnesses (prune_old_checkpoints 1 155 ex_db)) = [150]"
    by code_simp
  ultimately show ?thesis using pruning_keeps_rewind_targets [of 155 160 1 ex_db] by simp
qed

definition ex_spend :: spend_in where
  "ex_spend = \<lparr> si_note = ByNullifier [12], si_id_tx = 3, si_height = 160, si_pool = 1, si_value = - 400 \<rparr>"

theorem recorded_spend_is_final_witness:
  "\<exists>db'. record_spend 1 ex_spend ex_db = Inr (True, db')
    \<and> (\<forall>b. \<forall>r \<in> set (spendable_rows b db'). nt_id r \<noteq> 3)
    \<and> record_spend 1 ex_spend db' = Inr (False, db')"
proof -
  have f: "find_note 1 (si_note ex_spend) ex_db = Some (3, 400)" by code_simp
  have "list_ex (\<lambda>r. sp_id_note r = 3) (db_spends ex_db) = False" by code_simp
  then obtain db' where r: "record_spend 1 ex_spend ex_db = Inr (True, db')"
    using f by (auto simp: record_spend_def Let_def)
  from recorded_spend_is_final [OF r f] r show ?thesis by blast
qed

theorem pending_metadata_overwrites_user_witness:
  "\<exists>r' \<in> set (db_transactions (apply_pending_metadata hd 2 160
       (set_transaction_category 3 (Some 9) ex_db))). tx_id r' = 3 \<and> tx_category r' = Some 5"
proof -
  let ?r = "ex_tx 3 2 [2] 150 None" and ?p = "\<lparr> pd_id = 1, pd_account = 1, pd_txid = [2], pd_height = 145,
    pd_price = Some 7, pd_category = Some 5 \<rparr>"
  have r: "?r \<in> set (db_transactions ex_db)" "tx_id ?r = 3" "tx_account ?r = 2"
    by (simp_all add: ex_db_def ex_tx_def)
  have "filter (\<lambda>p. pd_txid p = tx_txid ?r) (db_pending ex_db) = [?p]"
    by (simp add: ex_db_def ex_tx_def)
  from pending_metadata_overwrites_user [OF r this, where pick = hd, OF _ refl] show ?thesis by auto
qed

end
