(* ===== verification/Migrate_Denom.thy ===== *)
theory Migrate_Denom
  imports Fees "HOL-Library.While_Combinator"
begin

text \<open>
  The denomination arithmetic of the note migration (\<open>rust/src/migrate/mod.rs\<close>): the fee pad,
  the greedy decomposition of an amount into standard denominations, the two recognisers of a
  standard denomination and the anchor buckets.

  The lemmas show that the decomposition keeps every zatoshi (denominations and remainder sum
  to the amount), that it produces each denomination at most nine times and in decreasing
  order, and that both recognisers accept exactly the powers of ten from \<open>10 ^ 5\<close> on.
\<close>

definition min_sd :: "u64 \<Rightarrow> u64" where
  "min_sd cost = mul64 100 cost"

definition max_split_inputs :: usize where "max_split_inputs = 50"

definition anchor_bucket_size_max :: u32 where "anchor_bucket_size_max = 144"

definition target_block_spacing_ms :: u64 where "target_block_spacing_ms = 75000"

definition sd_fee_pad :: "u64 \<Rightarrow> u64" where
  "sd_fee_pad cost = mul64 4 cost"

text \<open>
  The loop of \<open>decompose_to_sd\<close> over the exponents 15 down to 5. The count is cast to \<open>u8\<close>;
  a denomination that wraps to 0 makes the division panic.
\<close>

fun decompose_loop ::
  "u64 \<Rightarrow> u64 \<Rightarrow> nat list \<Rightarrow> u64 \<Rightarrow> (u64 \<times> u8) list \<Rightarrow> ((u64 \<times> u8) list \<times> u64) panics" where
  "decompose_loop p d_min [] remainder result = Some (result, remainder)"
| "decompose_loop p d_min (k # ks) remainder result =
     (if remainder < d_min then Some (result, remainder)
      else let d = add64 (10 ^ k) p in
        if d = 0 then None
        else let count = (remainder div d) mod 2 ^ 8 in
          decompose_loop p d_min ks (remainder mod d)
            (if count > 0 then result @ [(d, count)] else result))"

definition decompose_to_sd :: "u64 \<Rightarrow> u64 \<Rightarrow> ((u64 \<times> u8) list \<times> u64) panics" where
  "decompose_to_sd amount p = decompose_loop p (add64 (10 ^ 5) p) (rev [5..<16]) amount []"

text \<open>The inner loop strips factors of ten; on 0 it would not end, and is not reached there.\<close>

definition strip_tens :: "u64 \<Rightarrow> u64 option" where
  "strip_tens = while_option (\<lambda>x. x mod 10 = 0) (\<lambda>x. x div 10)"

definition is_iw_sd :: "u64 \<Rightarrow> bool" where
  "is_iw_sd value \<longleftrightarrow>
     value \<ge> 100000 \<and> value mod 100000 = 0 \<and> strip_tens (value div 100000) = Some 1"

definition is_sd :: "u64 \<Rightarrow> u64 \<Rightarrow> bool" where
  "is_sd value p \<longleftrightarrow> value > p \<and> is_iw_sd (value - p)"

definition migration_anchor_bucket_size :: "u64 \<Rightarrow> u32" where
  "migration_anchor_bucket_size mean_delay_ms =
     (let blocks = sat_add64 mean_delay_ms (target_block_spacing_ms - 1) div target_block_spacing_ms
      in max 1 (min anchor_bucket_size_max (if blocks \<le> u32_max then blocks else u32_max)))"

text \<open>The remainder of a division by a bucket size of 0 panics.\<close>

definition next_anchor_bucket_height :: "u32 \<Rightarrow> u32 \<Rightarrow> u32 panics" where
  "next_anchor_bucket_height height bucket_size =
     (if bucket_size = 0 then None
      else let remainder = height mod bucket_size
        in Some (if remainder = 0 then height
                 else sat_add32 height (bucket_size - remainder)))"

definition planned_value :: "(u64 \<times> u8) list \<Rightarrow> u64" where
  "planned_value digits = foldl (\<lambda>acc (d, c). add64 acc (mul64 d c)) 0 digits"

section \<open>Powers of ten\<close>

lemma strip_tens_unfold:
  "strip_tens x = (if x mod 10 = 0 then strip_tens (x div 10) else Some x)"
  unfolding strip_tens_def by (subst while_option_unfold) simp

lemma strip_tens_power: "strip_tens (10 ^ i) = Some 1"
  by (induction i) (subst strip_tens_unfold, simp)+

text \<open>The loop ends on every value it is called with.\<close>

lemma strip_tens_ends: "0 < x \<Longrightarrow> \<exists>y i. strip_tens x = Some y \<and> x = y * 10 ^ i \<and> y mod 10 \<noteq> 0"
proof (induction x rule: less_induct)
  case (less x)
  show ?case
  proof (cases "x mod 10 = 0")
    case True
    then have "x div 10 < x" "0 < x div 10" using less.prems by auto
    from less.IH [OF this] obtain y i
      where y: "strip_tens (x div 10) = Some y" "x div 10 = y * 10 ^ i" "y mod 10 \<noteq> 0" by blast
    have "x = y * 10 ^ Suc i" using y(2) True by auto
    with y True show ?thesis by (subst strip_tens_unfold) (metis)
  next
    case False
    then show ?thesis by (subst strip_tens_unfold) (auto intro: exI [of _ "0::nat"])
  qed
qed

lemma is_iw_sd_iff: "is_iw_sd value \<longleftrightarrow> (\<exists>k \<ge> 5. value = 10 ^ k)"
proof
  assume sd: "is_iw_sd value"
  then have v: "value \<ge> 100000" "value = value div 100000 * 100000" and s: "strip_tens (value div 100000) = Some 1"
    by (auto simp: is_iw_sd_def)
  have "0 < value div 100000" using v by (metis gr0I mult_0 not_numeral_le_zero)
  from strip_tens_ends [OF this] s obtain i where "value div 100000 = 10 ^ i" by auto
  with v(2) have "value = 10 ^ (i + 5)" by (simp add: power_add)
  then show "\<exists>k \<ge> 5. value = 10 ^ k" by (intro exI [of _ "i + 5"]) simp
next
  assume "\<exists>k \<ge> 5. value = 10 ^ k"
  then obtain i where v: "value = 10 ^ i * 100000"
    by (auto simp: le_iff_add power_add mult.commute)
  then show "is_iw_sd value" by (simp add: is_iw_sd_def strip_tens_power)
qed

lemma is_sd_iff: "is_sd value p \<longleftrightarrow> (\<exists>k \<ge> 5. value = 10 ^ k + p)"
proof -
  have "(10::nat) ^ k > 0" for k by simp
  then show ?thesis
    by (auto simp: is_sd_def is_iw_sd_iff intro: exI [of _ "_ :: nat"])
qed

section \<open>The decomposition\<close>

text \<open>The exact value of a plan, its number of notes, and the shape of a decomposition.\<close>

definition digits_value :: "(u64 \<times> u8) list \<Rightarrow> nat" where
  "digits_value ds = sum_list (map (\<lambda>(d, c). d * c) ds)"

definition digits_count :: "(u64 \<times> u8) list \<Rightarrow> nat" where
  "digits_count ds = sum_list (map snd ds)"

definition digits_ok :: "u64 \<Rightarrow> nat \<Rightarrow> (u64 \<times> u8) list \<Rightarrow> bool" where
  "digits_ok p m ds \<longleftrightarrow> sorted_wrt (>) (map fst ds)
     \<and> (\<forall>(d, c) \<in> set ds. 1 \<le> c \<and> c \<le> 9 \<and> (\<exists>k. 5 \<le> k \<and> k < m \<and> d = 10 ^ k + p))"

lemma digits_simps [simp]:
  "digits_value [] = 0" "digits_value ((d, c) # ds) = d * c + digits_value ds"
  "digits_value (ds @ es) = digits_value ds + digits_value es"
  "digits_count [] = 0" "digits_count ((d, c) # ds) = c + digits_count ds"
  "digits_count (ds @ es) = digits_count ds + digits_count es"
  by (simp_all add: digits_value_def digits_count_def)

lemma digits_ok_Nil [simp]: "digits_ok p m []"
  by (simp add: digits_ok_def)

lemma digits_ok_mono: "digits_ok p m ds \<Longrightarrow> m \<le> m' \<Longrightarrow> digits_ok p m' ds"
  by (fastforce simp: digits_ok_def)

lemma digits_ok_Cons:
  assumes "digits_ok p m ds" and "5 \<le> m" and "1 \<le> c" and "c \<le> 9"
  shows "digits_ok p (Suc m) ((10 ^ m + p, c) # ds)"
proof -
  have "d < 10 ^ m + p" if "(d, c') \<in> set ds" for d c'
    using assms(1) that by (auto simp: digits_ok_def)
  then show ?thesis
    using assms by (fastforce simp: digits_ok_def)
qed

lemma digits_ok_count: "digits_ok p m ds \<Longrightarrow> digits_count ds \<le> 9 * (m - 5)"
proof -
  assume ok: "digits_ok p m ds"
  let ?K = "(\<lambda>k. 10 ^ k + p) ` {5..<m}"
  have sub: "set (map fst ds) \<subseteq> ?K" using ok by (fastforce simp: digits_ok_def)
  have "distinct xs" if "sorted_wrt (>) xs" for xs :: "nat list"
    using that by (induction xs) auto
  then have dist: "distinct (map fst ds)" using ok by (simp add: digits_ok_def)
  have "length ds = card (set (map fst ds))" using distinct_card [OF dist] by simp
  also have "\<dots> \<le> card ?K" by (rule card_mono [OF _ sub]) simp
  also have "\<dots> \<le> m - 5" using card_image_le [of "{5..<m}" "\<lambda>k. 10 ^ k + p"] by simp
  finally have len: "length ds \<le> m - 5" .
  have "\<forall>x \<in> set ds. snd x \<le> 9" using ok by (fastforce simp: digits_ok_def)
  then have "digits_count ds \<le> 9 * length ds" by (induction ds) (auto simp: digits_count_def)
  with len show ?thesis by (meson le_trans mult_le_mono2)
qed

lemma decompose_loop_exact:
  assumes "5 \<le> m" and "m \<le> 16" and "p < 2 ^ 63" and "r < 10 ^ m + p"
  shows "\<exists>ds r'. decompose_loop p (10 ^ 5 + p) (rev [5..<m]) r acc = Some (acc @ ds, r')
    \<and> digits_value ds + r' = r \<and> r' < 10 ^ 5 + p \<and> digits_ok p m ds"
  using assms
proof (induction m arbitrary: r acc rule: dec_induct)
  case base
  then show ?case by simp
next
  case (step m)
  have ks: "rev [5..<Suc m] = m # rev [5..<m]" using step.hyps(1) by simp
  show ?case
  proof (cases "r < 10 ^ 5 + p")
    case True
    then show ?thesis unfolding ks by (intro exI [of _ "[]"] exI [of _ r]) simp
  next
    case False
    let ?d = "10 ^ m + p"
    have "(10::nat) ^ m \<le> 10 ^ 15" using step.prems by (intro power_increasing) simp_all
    then have "?d < 2 ^ 64" using step.prems(2) by simp
    then have d: "add64 (10 ^ m) p = ?d" by (rule add64_exact)
    have dpos: "?d \<noteq> 0" by simp
    have "r < ?d * 10" using step.prems(3) by simp
    then have "r div ?d < 10" by (simp add: div_less_iff_less_mult mult.commute)
    then have count: "(r div ?d) mod 2 ^ 8 = r div ?d" by simp
    let ?acc = "if r div ?d > 0 then acc @ [(?d, r div ?d)] else acc"
    obtain ds r' where IH: "decompose_loop p (10 ^ 5 + p) (rev [5..<m]) (r mod ?d) ?acc = Some (?acc @ ds, r')"
      "digits_value ds + r' = r mod ?d" "r' < 10 ^ 5 + p" "digits_ok p m ds"
      using step.IH [of "r mod ?d" ?acc] step.prems step.hyps by (auto simp: mod_less_divisor)
    have loop: "decompose_loop p (10 ^ 5 + p) (rev [5..<Suc m]) r acc = Some (?acc @ ds, r')"
      unfolding ks decompose_loop.simps Let_def d count using False dpos IH(1) by simp
    let ?ds = "if r div ?d > 0 then (?d, r div ?d) # ds else ds"
    have "digits_value ?ds + r' = r"
    proof (cases "r div ?d > 0")
      case True
      with IH(2) mult_div_mod_eq [of ?d r] show ?thesis by (simp add: add.assoc)
    next
      case zero: False
      then have "r mod ?d = r" using mult_div_mod_eq [of ?d r] by (simp only: neq0_conv [symmetric] not_not mult_0_right add_0)
      with zero IH(2) show ?thesis by simp
    qed
    moreover have "digits_ok p (Suc m) ?ds"
      using digits_ok_Cons [OF IH(4) step.hyps(1), of "r div ?d"] \<open>r div ?d < 10\<close>
        digits_ok_mono [OF IH(4), of "Suc m"] by auto
    moreover have "?acc @ ds = acc @ ?ds" by simp
    ultimately show ?thesis using loop IH(3) by metis
  qed
qed

lemma decompose_to_sd_exact:
  assumes "p < 2 ^ 63" and "amount < 10 ^ 16"
  shows "\<exists>ds r. decompose_to_sd amount p = Some (ds, r) \<and> digits_value ds + r = amount
    \<and> r < 10 ^ 5 + p \<and> digits_ok p 16 ds"
proof -
  have "add64 (10 ^ 5) p = 10 ^ 5 + p" using assms(1) by (intro add64_exact) simp
  then show ?thesis
    using decompose_loop_exact [of 16 p amount "[]"] assms by (simp add: decompose_to_sd_def)
qed

end
