(* ===== verification/Migrate_Plan.thy ===== *)
theory Migrate_Plan
  imports Migrate_Denom Sync_Run
begin

text \<open>
  The decisions of the note migration: \<open>rust/src/migrate/plan.rs\<close>, \<open>state.rs\<close>, \<open>task.rs\<close> and
  \<open>step.rs\<close>. The observation of the wallet reads the tables of \<open>Chain_Log\<close>; the chain tip, the
  marginal fee and the wallet's own address are answers of code outside the planner and are
  arguments, as are the two broadcasts of \<open>exec.rs\<close>.
\<close>

section \<open>State\<close>

record note_ref =
  nr_id :: u32
  nr_height :: u32
  nr_value :: u64
  nr_cmx :: "blob option"
  nr_has_checkpoint :: bool

record migration_state =
  ms_tip_height :: u32
  ms_checkpoint_height :: u32
  ms_anchor_bucket_size :: u32
  ms_cost_per_action :: u64
  ms_orchard_sd :: "note_ref list"
  ms_orchard_non_sd :: "note_ref list"
  ms_ironwood_sd_count :: u32
  ms_own_address :: string

definition capped_non_sd :: "migration_state \<Rightarrow> note_ref list" where
  "capped_non_sd s = take max_split_inputs (sort_desc nr_value (ms_orchard_non_sd s))"

definition split_input_total :: "migration_state \<Rightarrow> u64" where
  "split_input_total s = foldl (\<lambda>acc n. add64 acc (nr_value n)) 0 (capped_non_sd s)"

definition sd_spendable_at :: "u32 \<Rightarrow> migration_state \<Rightarrow> note_ref list" where
  "sd_spendable_at anchor s =
     filter (\<lambda>n. nr_height n \<le> anchor \<and> nr_has_checkpoint n) (ms_orchard_sd s)"

definition note_ref_of :: "u32 \<Rightarrow> db \<Rightarrow> note_row \<Rightarrow> note_ref" where
  "note_ref_of checkpoint_height db r =
     \<lparr> nr_id = nt_id r, nr_height = nt_height r, nr_value = as_u64 (nt_value r),
       nr_cmx = nt_cmx r,
       nr_has_checkpoint = list_ex (\<lambda>w. wt_account w = nt_account r \<and> wt_note w = nt_id r
            \<and> wt_height w = checkpoint_height) (db_witnesses db) \<rparr>"

definition migratable :: "u32 \<Rightarrow> db \<Rightarrow> note_row \<Rightarrow> bool" where
  "migratable account db r \<longleftrightarrow> unspent db r \<and> nt_account r = account
     \<and> (nt_pool r = 2 \<or> nt_pool r = 3) \<and> nt_id_asset r = None \<and> \<not> nt_locked r"

definition observe_migration ::
  "u32 \<Rightarrow> u64 \<Rightarrow> string \<Rightarrow> u32 \<Rightarrow> u32 \<Rightarrow> db \<Rightarrow> sync_error + migration_state" where
  "observe_migration tip_height cost own_address account anchor_bucket_size db =
     (case get_db_height account db of
        Inl e \<Rightarrow> Inl e
      | Inr h \<Rightarrow>
          (let pad = sd_fee_pad cost;
               notes = map (\<lambda>r. (nt_pool r, note_ref_of (ht_height h) db r))
                 (filter (migratable account db) (db_notes db));
               (sd, non_sd, iw) = foldl (\<lambda>(sd, non_sd, iw) (pool, note).
                   if pool = 2 \<and> is_sd (nr_value note) pad then (sd @ [note], non_sd, iw)
                   else if pool = 2 then (sd, non_sd @ [note], iw)
                   else if pool = 3 \<and> is_iw_sd (nr_value note) then (sd, non_sd, add32 iw 1)
                   else (sd, non_sd, iw)) ([], [], 0) notes
           in Inr \<lparr> ms_tip_height = tip_height, ms_checkpoint_height = ht_height h,
                ms_anchor_bucket_size = anchor_bucket_size, ms_cost_per_action = cost,
                ms_orchard_sd = sd, ms_orchard_non_sd = non_sd, ms_ironwood_sd_count = iw,
                ms_own_address = own_address \<rparr>))"

section \<open>Tasks\<close>

datatype task_kind = TimeKind | EffectKind | TerminalKind

datatype migration_task =
  WaitDelay u64
| WaitBoundary u32
| Split "u32 list" "(u64 \<times> u8) list"
| Migrate u32 u64 u32
| Done

fun migration_kind :: "migration_task \<Rightarrow> task_kind" where
  "migration_kind (WaitDelay _) = TimeKind"
| "migration_kind (WaitBoundary _) = TimeKind"
| "migration_kind (Split _ _) = EffectKind"
| "migration_kind (Migrate _ _ _) = EffectKind"
| "migration_kind Done = TerminalKind"

text \<open>\<open>u32::is_multiple_of\<close>, which only 0 is of 0.\<close>

definition is_multiple_of :: "u32 \<Rightarrow> u32 \<Rightarrow> bool" where
  "is_multiple_of a b \<longleftrightarrow> (if b = 0 then a = 0 else a mod b = 0)"

fun migration_satisfied :: "migration_task \<Rightarrow> migration_state \<Rightarrow> bool" where
  "migration_satisfied (WaitDelay _) s = True"
| "migration_satisfied (WaitBoundary _) s = True"
| "migration_satisfied (Split inputs _) s =
     list_all (\<lambda>i. list_ex (\<lambda>n. nr_id n = i) (ms_orchard_non_sd s)) inputs"
| "migration_satisfied (Migrate note _ anchor) s =
     (ms_checkpoint_height s = anchor \<and> is_multiple_of anchor (ms_anchor_bucket_size s)
      \<and> list_ex (\<lambda>n. nr_id n = note) (sd_spendable_at anchor s))"
| "migration_satisfied Done s = True"

record pacing =
  pc_sampled_delay_ms :: u64
  pc_last_action_height :: "u32 option"
  pc_delay_served :: bool

definition pacing_default :: pacing where
  "pacing_default = \<lparr> pc_sampled_delay_ms = 0, pc_last_action_height = None, pc_delay_served = False \<rparr>"

definition pacing_restart :: "pacing \<Rightarrow> pacing" where
  "pacing_restart p = p\<lparr> pc_delay_served := False \<rparr>"

definition after_effect :: "u32 \<Rightarrow> pacing \<Rightarrow> pacing" where
  "after_effect height p = pacing_restart (p\<lparr> pc_last_action_height := Some height \<rparr>)"

section \<open>Decisions\<close>

text \<open>\<open>for _ in 0..n\<close> with a body that updates the fee counter.\<close>

fun repeat :: "nat \<Rightarrow> ('a \<Rightarrow> 'a) \<Rightarrow> 'a \<Rightarrow> 'a" where
  "repeat 0 f x = x"
| "repeat (Suc n) f x = repeat n f (f x)"

lemma repeat_Suc_outer: "repeat (Suc n) f x = f (repeat n f x)"
  by (induction n arbitrary: x) auto

text \<open>The trimming loop of \<open>plan_split\<close>, by the number of outputs left.\<close>

fun trim_split :: "nat \<Rightarrow> (u64 \<times> u8) list \<Rightarrow> u64 \<Rightarrow> fee_manager \<Rightarrow> (u64 \<times> u8) list" where
  "trim_split 0 digits remainder fm = digits"
| "trim_split (Suc n) digits remainder fm =
     (if fm_fee fm > remainder then
        (if digits = [] then digits
         else let (denom, count) = last digits;
                  count' = sub8 count 1;
                  digits' = (if count' = 0 then butlast digits
                             else butlast digits @ [(denom, count')])
              in trim_split n digits' (add64 remainder denom) (remove_output 2 fm))
      else digits)"

definition split_counter :: "u64 \<Rightarrow> u64 \<Rightarrow> u64 \<Rightarrow> fee_manager" where
  "split_counter cost num_inputs num_outputs =
     (let fm = (fm_new cost)\<lparr> fm_migration := True \<rparr>;
          fm = repeat num_inputs (add_input 2) fm;
          fm = repeat num_outputs (add_output 2) fm
      in add_output 2 fm)"

definition plan_split :: "u64 \<Rightarrow> u64 \<Rightarrow> u64 \<Rightarrow> (u64 \<times> u8) list panics" where
  "plan_split amount num_inputs cost =
     (if amount < min_sd cost then Some []
      else case decompose_to_sd amount (sd_fee_pad cost) of
        None \<Rightarrow> None
      | Some (digits, remainder) \<Rightarrow>
          (let num_outputs = foldl (\<lambda>acc (_, c). add64 acc c) 0 digits
           in Some (trim_split num_outputs digits remainder
                (split_counter cost num_inputs num_outputs))))"

definition split_of :: "migration_state \<Rightarrow> (u64 \<times> u8) list panics" where
  "split_of s = plan_split (split_input_total s) (length (capped_non_sd s)) (ms_cost_per_action s)"

text \<open>\<open>Vec<u8>\<close> compares lexicographically, and \<open>max_by\<close> returns the last greatest element.\<close>

fun blob_less :: "blob \<Rightarrow> blob \<Rightarrow> bool" where
  "blob_less _ [] = False"
| "blob_less [] (_ # _) = True"
| "blob_less (x # xs) (y # ys) = (x < y \<or> x = y \<and> blob_less xs ys)"

definition cmx_bytes :: "note_ref \<Rightarrow> blob" where
  "cmx_bytes n = (case nr_cmx n of None \<Rightarrow> [] | Some b \<Rightarrow> b)"

definition pick_sd :: "note_ref list \<Rightarrow> note_ref option" where
  "pick_sd spendable =
     (case spendable of
        [] \<Rightarrow> None
      | n # ns \<Rightarrow> Some (foldl (\<lambda>best n. if blob_less (cmx_bytes n) (cmx_bytes best) then best else n) n ns))"

datatype boundary_state = At u32 | Waiting u32

definition initial_boundary :: "u32 \<Rightarrow> u32 \<Rightarrow> u32 \<Rightarrow> u32 panics" where
  "initial_boundary tip wallet_height bucket_size =
     next_anchor_bucket_height (max tip wallet_height) bucket_size"

definition boundary_state_of :: "u32 \<Rightarrow> u32 \<Rightarrow> u32 \<Rightarrow> boundary_state panics" where
  "boundary_state_of tip cp bucket_size =
     (if is_multiple_of cp bucket_size then Some (At cp)
      else map_option Waiting (initial_boundary tip cp bucket_size))"

definition acted_this_block :: "migration_state \<Rightarrow> pacing \<Rightarrow> bool" where
  "acted_this_block s p =
     (case pc_last_action_height p of None \<Rightarrow> False | Some h \<Rightarrow> ms_tip_height s \<le> h)"

definition next_migration_task :: "migration_state \<Rightarrow> pacing \<Rightarrow> migration_task panics" where
  "next_migration_task s p =
     do {
       split \<leftarrow> split_of s;
       if split = [] \<and> ms_orchard_sd s = [] then Some Done
       else if \<not> pc_delay_served p \<or> acted_this_block s p
       then Some (WaitDelay (pc_sampled_delay_ms p))
       else if split \<noteq> [] then Some (Split (map nr_id (capped_non_sd s)) split)
       else do {
         b \<leftarrow> boundary_state_of (ms_tip_height s) (ms_checkpoint_height s) (ms_anchor_bucket_size s);
         case b of
           At anchor \<Rightarrow>
             (case pick_sd (sd_spendable_at anchor s) of
                Some note \<Rightarrow> Some (Migrate (nr_id note)
                  (sub64 (nr_value note) (sd_fee_pad (ms_cost_per_action s))) anchor)
              | None \<Rightarrow> map_option WaitBoundary
                  (next_anchor_bucket_height (sat_add32 anchor 1) (ms_anchor_bucket_size s)))
         | Waiting target \<Rightarrow> Some (WaitBoundary target)
       }
     }"

datatype migration_phase = Splitting | Migrating | PhaseComplete

definition phase :: "migration_state \<Rightarrow> migration_phase panics" where
  "phase s = map_option (\<lambda>split.
     if split \<noteq> [] then Splitting
     else if ms_orchard_sd s \<noteq> [] then Migrating else PhaseComplete) (split_of s)"

section \<open>One step\<close>

datatype step_outcome = SplitOutcome u64 | MigratedOutcome u64 | CompleteOutcome | NothingToDo

text \<open>
  \<open>step_once\<close> after its observation; the broadcasts answer the fee they paid or an error.
\<close>

definition step_once ::
  "(u32 list \<Rightarrow> (u64 \<times> u8) list \<Rightarrow> 'e + u64) \<Rightarrow> (u32 \<Rightarrow> u64 \<Rightarrow> u32 \<Rightarrow> 'e + u64)
   \<Rightarrow> migration_state \<Rightarrow> ('e + step_outcome) panics" where
  "step_once exec_split exec_migrate s =
     map_option (\<lambda>task.
       case task of
         Done \<Rightarrow> Inr CompleteOutcome
       | Split inputs outputs \<Rightarrow> map_sum id SplitOutcome (exec_split inputs outputs)
       | Migrate note amount anchor \<Rightarrow> map_sum id MigratedOutcome (exec_migrate note amount anchor)
       | _ \<Rightarrow> Inr NothingToDo)
     (next_migration_task s (pacing_default\<lparr> pc_delay_served := True \<rparr>))"

end
