(* ===== verification/Broadcast.thy ===== *)
theory Broadcast
  imports Pay_Types
begin

text \<open>
  What happens after a transaction is signed (\<open>rust/src/pay/broadcast.rs\<close>): it is posted, the
  notes it spends are locked and its pending metadata is recorded. The node and the parser of raw
  transactions are code outside the wallet: the height and the answer of the server, and \<open>read\<close>,
  which answers the bundles of a transaction under a network upgrade, are parameters.
\<close>

section \<open>Hex\<close>

definition hex_digit :: "nat \<Rightarrow> char" where
  "hex_digit n = char_of (if n < 10 then 48 + n else 87 + n)"

definition hex_value :: "char \<Rightarrow> nat option" where
  "hex_value c =
     (let n = of_char c :: nat
      in if 48 \<le> n \<and> n \<le> 57 then Some (n - 48)
         else if 97 \<le> n \<and> n \<le> 102 then Some (n - 87)
         else if 65 \<le> n \<and> n \<le> 70 then Some (n - 55) else None)"

definition hex_encode :: "blob \<Rightarrow> string" where
  "hex_encode bytes = concat (map (\<lambda>b. [hex_digit (b div 16), hex_digit (b mod 16)]) bytes)"

fun hex_decode :: "string \<Rightarrow> blob option" where
  "hex_decode [] = Some []"
| "hex_decode [_] = None"
| "hex_decode (a # b # cs) =
     (case (hex_value a, hex_value b, hex_decode cs) of
        (Some x, Some y, Some bytes) \<Rightarrow> Some ((16 * x + y) # bytes)
      | _ \<Rightarrow> None)"

lemma hex_value_digit: "n < 16 \<Longrightarrow> hex_value (hex_digit n) = Some n"
  by (auto simp: hex_value_def hex_digit_def Let_def)

lemma hex_roundtrip: "\<forall>b \<in> set bytes. b < 256 \<Longrightarrow> hex_decode (hex_encode bytes) = Some bytes"
  by (induction bytes) (auto simp: hex_encode_def hex_value_digit)

section \<open>Posting and recording\<close>

record pending_meta =
  pm_price :: "f64 option"
  pm_category :: "u32 option"

record sent =
  st_height :: u32
  st_txid :: blob
  st_response :: string

text \<open>An answer that is not hex is the server's rejection.\<close>

datatype 'e post_error = ServerError 'e | Rejected string

definition post ::
  "('e + u32) \<Rightarrow> (u32 \<Rightarrow> blob \<Rightarrow> 'e + string) \<Rightarrow> blob \<Rightarrow> 'e post_error + sent" where
  "post latest_height post_transaction tx_bytes =
     (case latest_height of
        Inl e \<Rightarrow> Inl (ServerError e)
      | Inr height \<Rightarrow>
          (case post_transaction height tx_bytes of
             Inl e \<Rightarrow> Inl (ServerError e)
           | Inr response \<Rightarrow>
               (case hex_decode response of
                  None \<Rightarrow> Inl (Rejected response)
                | Some txid \<Rightarrow> Inr \<lparr> st_height = height, st_txid = txid, st_response = response \<rparr>)))"

text \<open>
  The input keys of a parsed transaction, bundle by bundle. The outpoint of a transparent input
  is written out, which may fail.
\<close>

datatype branch_id = Nu6_3 | Nu6_2 | Nu6 | Nu5

datatype orchard_bundle = OrchardVanilla "blob list" | OrchardZSA "blob list"

record 'e parsed_tx =
  ptx_transparent :: "('e + blob) list option"
  ptx_sapling :: "blob list option"
  ptx_orchard :: "orchard_bundle option"
  ptx_ironwood :: "blob list option"

definition parse_transaction :: "(branch_id \<Rightarrow> blob \<Rightarrow> 'e parsed_tx option) \<Rightarrow> blob \<Rightarrow> 'e parsed_tx option" where
  "parse_transaction read tx_bytes =
     (case List.map_filter (\<lambda>b. read b tx_bytes) [Nu6_3, Nu6_2, Nu6, Nu5] of
        [] \<Rightarrow> None
      | tx # _ \<Rightarrow> Some tx)"

fun try_all :: "('e + 'a) list \<Rightarrow> 'e + 'a list" where
  "try_all [] = Inr []"
| "try_all (Inl e # _) = Inl e"
| "try_all (Inr x # xs) = map_sum id ((#) x) (try_all xs)"

definition spent_nullifiers ::
  "(branch_id \<Rightarrow> blob \<Rightarrow> 'e parsed_tx option) \<Rightarrow> blob \<Rightarrow> 'e + blob list option" where
  "spent_nullifiers read tx_bytes =
     (case parse_transaction read tx_bytes of
        None \<Rightarrow> Inr None
      | Some tx \<Rightarrow>
          map_sum id (\<lambda>vin. Some (vin
              @ (case ptx_sapling tx of None \<Rightarrow> [] | Some nfs \<Rightarrow> nfs)
              @ (case ptx_orchard tx of None \<Rightarrow> [] | Some (OrchardVanilla nfs) \<Rightarrow> nfs
                 | Some (OrchardZSA nfs) \<Rightarrow> nfs)
              @ (case ptx_ironwood tx of None \<Rightarrow> [] | Some nfs \<Rightarrow> nfs)))
            (try_all (case ptx_transparent tx of None \<Rightarrow> [] | Some vin \<Rightarrow> vin)))"

definition lock_spent_notes ::
  "(branch_id \<Rightarrow> blob \<Rightarrow> 'e parsed_tx option) \<Rightarrow> u32 \<Rightarrow> blob \<Rightarrow> db \<Rightarrow> 'e + db" where
  "lock_spent_notes read account tx_bytes db =
     map_sum id (\<lambda>nfs. case nfs of None \<Rightarrow> db | Some ks \<Rightarrow> lock_notes account ks db)
       (spent_nullifiers read tx_bytes)"

definition unlock_spent_notes ::
  "(branch_id \<Rightarrow> blob \<Rightarrow> 'e parsed_tx option) \<Rightarrow> u32 \<Rightarrow> blob \<Rightarrow> db \<Rightarrow> 'e + db" where
  "unlock_spent_notes read account tx_bytes db =
     map_sum id (\<lambda>nfs. case nfs of None \<Rightarrow> db | Some ks \<Rightarrow> unlock_notes account ks db)
       (spent_nullifiers read tx_bytes)"

text \<open>One database transaction: an error leaves the wallet as it was.\<close>

definition record_sent ::
  "(branch_id \<Rightarrow> blob \<Rightarrow> 'e parsed_tx option) \<Rightarrow> u32 \<Rightarrow> sent \<Rightarrow> blob \<Rightarrow> pending_meta option \<Rightarrow> db \<Rightarrow> 'e + db" where
  "record_sent read account sent tx_bytes pending db =
     map_sum id (\<lambda>db. case pending of
         None \<Rightarrow> db
       | Some p \<Rightarrow> store_pending_tx account (st_height sent) (st_txid sent) (pm_price p) (pm_category p) db)
       (lock_spent_notes read account tx_bytes db)"

text \<open>A failure to record an accepted transaction is logged, and the txid still returned.\<close>

definition broadcast_under_session ::
  "('e + u32) \<Rightarrow> (u32 \<Rightarrow> blob \<Rightarrow> 'e + string) \<Rightarrow> (branch_id \<Rightarrow> blob \<Rightarrow> 'e parsed_tx option)
   \<Rightarrow> u32 \<Rightarrow> blob \<Rightarrow> pending_meta option \<Rightarrow> db \<Rightarrow> ('e post_error + string) \<times> db" where
  "broadcast_under_session latest_height post_transaction read account tx_bytes pending db =
     (case post latest_height post_transaction tx_bytes of
        Inl e \<Rightarrow> (Inl e, db)
      | Inr sent \<Rightarrow>
          (Inr (st_response sent),
           case record_sent read account sent tx_bytes pending db of
             Inl _ \<Rightarrow> db
           | Inr db' \<Rightarrow> db'))"

section \<open>Locks\<close>

lemma set_lock_of_rows [simp]:
  "db_notes (set_lock_of l account nf db) =
     map (\<lambda>r. if nt_account r = account \<and> nt_nullifier r = nf then set_locked l r else r) (db_notes db)"
  "db_spends (set_lock_of l account nf db) = db_spends db"
  by (simp_all add: set_lock_of_def update_where_def)

lemma set_locked_keys [simp]:
  "nt_id (set_locked l r) = nt_id r" "nt_account (set_locked l r) = nt_account r"
  "nt_nullifier (set_locked l r) = nt_nullifier r" "nt_locked (set_locked l r) = l"
  "set_locked l (set_locked l' r) = set_locked l r"
  by (simp_all add: set_locked_def)

lemma set_locked_same: "nt_locked r = l \<Longrightarrow> set_locked l r = r"
  by (simp add: set_locked_def)

lemma db_notes_set_locks:
  "db_notes (fold (set_lock_of l account) nfs db) =
     map (\<lambda>r. if nt_account r = account \<and> nt_nullifier r \<in> set nfs then set_locked l r else r) (db_notes db)"
  by (induction nfs arbitrary: db) auto

lemma db_spends_set_locks [simp]: "db_spends (fold (set_lock_of l account) nfs db) = db_spends db"
  by (induction nfs arbitrary: db) auto

lemmas db_notes_lock_notes = db_notes_set_locks [where l = True, folded lock_notes_def]
lemmas db_notes_unlock_notes = db_notes_set_locks [where l = False, folded unlock_notes_def]

lemma store_pending_rows [simp]:
  "db_notes (store_pending_tx a h txid price category db) = db_notes db"
  "db_spends (store_pending_tx a h txid price category db) = db_spends db"
  by (simp_all add: store_pending_tx_def Let_def)

lemma filter_map_guarded:
  assumes "\<And>r. \<not> Q r \<Longrightarrow> f r = r" and "\<And>r. Q r \<Longrightarrow> \<not> P (f r)"
  shows "filter P (map f xs) = filter (\<lambda>r. P r \<and> \<not> Q r) xs"
proof (induction xs)
  case (Cons x xs)
  then show ?case using assms [of x] by (cases "Q x") simp_all
qed simp

lemma spendable_lock_notes:
  "spendable_rows account (lock_notes account nfs db)
     = filter (\<lambda>r. nt_nullifier r \<notin> set nfs) (spendable_rows account db)"
proof -
  have u: "unspent (lock_notes account nfs db) = unspent db"
    by (rule ext) (simp add: unspent_def lock_notes_def)
  have "filter (\<lambda>r. unspent db r \<and> nt_account r = account \<and> \<not> nt_locked r)
      (map (\<lambda>r. if nt_account r = account \<and> nt_nullifier r \<in> set nfs then set_locked True r else r) (db_notes db))
    = filter (\<lambda>r. (unspent db r \<and> nt_account r = account \<and> \<not> nt_locked r)
        \<and> \<not> (nt_account r = account \<and> nt_nullifier r \<in> set nfs)) (db_notes db)"
    by (rule filter_map_guarded) auto
  also have "\<dots> = filter (\<lambda>r. nt_nullifier r \<notin> set nfs) (spendable_rows account db)"
    by (auto simp: spendable_rows_def intro: filter_cong)
  finally show ?thesis by (simp add: spendable_rows_def db_notes_lock_notes u)
qed

text \<open>Unlocking what was not locked before undoes the lock, on the whole chain log.\<close>

lemma set_lock_only_notes: "set_lock_of l account nf db = db\<lparr> db_notes := db_notes (set_lock_of l account nf db) \<rparr>"
  by (simp add: set_lock_of_def)

lemma set_locks_only_notes:
  "fold (set_lock_of l account) nfs db = db\<lparr> db_notes := db_notes (fold (set_lock_of l account) nfs db) \<rparr>"
proof (induction nfs arbitrary: db)
  case (Cons nf nfs)
  show ?case
    by (subst fold_Cons, subst o_apply, subst Cons.IH) (simp add: set_lock_of_def)
qed simp

lemma unlock_after_lock:
  assumes "lock_spent_notes read account tx_bytes db = Inr db1"
    and "\<forall>nfs. spent_nullifiers read tx_bytes = Inr (Some nfs) \<longrightarrow>
      (\<forall>r \<in> set (db_notes db). nt_account r = account \<and> nt_nullifier r \<in> set nfs \<longrightarrow> \<not> nt_locked r)"
  shows "unlock_spent_notes read account tx_bytes db1 = Inr db"
proof (cases "spent_nullifiers read tx_bytes")
  case (Inr x)
  show ?thesis
  proof (cases x)
    case (Some nfs)
    have "db_notes (unlock_notes account nfs (lock_notes account nfs db)) = db_notes db"
      using assms(2) Inr Some
      by (auto simp: db_notes_lock_notes db_notes_unlock_notes intro!: map_idI set_locked_same)
    moreover have "unlock_notes account nfs (lock_notes account nfs db)
        = db\<lparr> db_notes := db_notes (unlock_notes account nfs (lock_notes account nfs db)) \<rparr>"
      unfolding unlock_notes_def lock_notes_def
      by (subst set_locks_only_notes, subst (2) set_locks_only_notes) simp
    ultimately have "unlock_notes account nfs (lock_notes account nfs db) = db" by simp
    then show ?thesis using assms(1) Inr Some by (simp add: lock_spent_notes_def unlock_spent_notes_def)
  qed (use assms(1) Inr in \<open>simp add: lock_spent_notes_def unlock_spent_notes_def\<close>)
qed (use assms(1) in \<open>simp add: lock_spent_notes_def\<close>)

section \<open>Properties\<close>

definition ex_read :: "branch_id \<Rightarrow> blob \<Rightarrow> unit parsed_tx option" where
  "ex_read b tx_bytes = (if b = Nu5 then Some \<lparr> ptx_transparent = Some [Inr [10]], ptx_sapling = None,
     ptx_orchard = None, ptx_ironwood = None \<rparr> else None)"

lemma ex_read_nullifiers: "spent_nullifiers ex_read [3] = Inr (Some [[10]])"
  by code_simp



text \<open>
  Unlocking is the inverse of locking. For a transaction none of whose notes was locked
  before, unlocking what it spends after locking it gives back exactly the notes of the wallet.
\<close>

theorem unlock_undoes_lock:
  assumes "lock_spent_notes read account tx_bytes db = Inr db1"
    and "unlock_spent_notes read account tx_bytes db1 = Inr db2"
    and "\<forall>nfs. spent_nullifiers read tx_bytes = Inr (Some nfs) \<longrightarrow>
      (\<forall>r \<in> set (db_notes db). nt_account r = account \<and> nt_nullifier r \<in> set nfs \<longrightarrow> \<not> nt_locked r)"
  shows "db_notes db2 = db_notes db"
  using unlock_after_lock [OF assms(1,3)] assms(2) by simp

theorem unlock_undoes_lock_witness:
  "\<exists>db1 db2. lock_spent_notes ex_read 1 [3] ex_db = Inr db1
     \<and> unlock_spent_notes ex_read 1 [3] db1 = Inr db2
     \<and> db_notes db1 \<noteq> db_notes ex_db \<and> db_notes db2 = db_notes ex_db"
proof -
  obtain db1 db2 where d: "lock_spent_notes ex_read 1 [3] ex_db = Inr db1"
    "unlock_spent_notes ex_read 1 [3] db1 = Inr db2"
    by (simp add: lock_spent_notes_def unlock_spent_notes_def ex_read_nullifiers)
  have "map nt_locked (db_notes (lock_notes 1 [[10]] ex_db)) \<noteq> map nt_locked (db_notes ex_db)"
    by code_simp
  then have "db_notes db1 \<noteq> db_notes ex_db" using d(1) by (auto simp: lock_spent_notes_def ex_read_nullifiers)
  moreover have "\<forall>r \<in> set (db_notes ex_db). nt_account r = 1 \<and> nt_nullifier r \<in> set [[10]] \<longrightarrow> \<not> nt_locked r"
    by code_simp
  moreover from calculation(2) have "db_notes db2 = db_notes ex_db"
    by (intro unlock_undoes_lock [OF d]) (simp add: ex_read_nullifiers)
  ultimately show ?thesis using d by blast
qed

end
