(* ===== verification/Migrate_Run.thy ===== *)
theory Migrate_Run
  imports Migrate_Plan Broadcast
begin

text \<open>
  What runs the migration's tasks: the recipients of the two self-sends (\<open>exec.rs\<close>) and the
  loop of \<open>rust/src/api/migrate.rs\<close>, one cycle at a time. What a cycle reads from outside
  (the sampled delay, two observations of the wallet, the answer of the broadcast, the height
  after it, whether the user cancelled) is a \<open>cycle_env\<close>; a run is driven by their sequence.
\<close>

section \<open>Recipients\<close>

definition split_recipients :: "string \<Rightarrow> (u64 \<times> u8) list \<Rightarrow> recipient list" where
  "split_recipients own_address outputs =
     concat (map (\<lambda>(denom, count). replicate count
       (default_recipient\<lparr> rc_address := own_address, rc_amount := denom,
          rc_pools := Some (unat (from_pool 2)) \<rparr>)) outputs)"

definition migrate_recipients :: "string \<Rightarrow> u64 \<Rightarrow> recipient list" where
  "migrate_recipients own_address amount =
     [default_recipient\<lparr> rc_address := own_address, rc_amount := amount,
        rc_pools := Some (unat (from_pool 3)) \<rparr>]"

section \<open>The loop\<close>

record 'e cycle_env =
  ce_delay :: u64
  ce_state :: "'e + migration_state"
  ce_fresh :: "'e + migration_state"
  ce_exec :: "'e + u64"
  ce_height :: "'e + u32"
  ce_cancelled :: bool

record run_state =
  rn_pacing :: pacing
  rn_split_fees :: u64
  rn_migrate_fees :: u64

definition run_initial :: run_state where
  "run_initial = \<lparr> rn_pacing = pacing_default, rn_split_fees = 0, rn_migrate_fees = 0 \<rparr>"

text \<open>How a cycle ends: the loop goes on, after executing a task or replanning, or returns.\<close>

datatype 'e cycle_end =
  Goes_On run_state "migration_task option"
| Returns "'e + unit"

text \<open>The arm of the match on what \<open>execute\<close> answers, without the panics of the planner.\<close>

definition executed :: "'e cycle_env \<Rightarrow> run_state \<Rightarrow> migration_task \<Rightarrow> 'e cycle_end" where
  "executed env rs task =
     (case ce_exec env of
        Inl e \<Rightarrow> Returns (Inl e)
      | Inr fee \<Rightarrow>
          (if migration_kind task \<noteq> EffectKind
           then Goes_On (rs\<lparr> rn_pacing := (rn_pacing rs)\<lparr> pc_delay_served := True \<rparr> \<rparr>) (Some task)
           else let rs' = (case task of
                    Split _ _ \<Rightarrow> rs\<lparr> rn_split_fees := add64 (rn_split_fees rs) fee \<rparr>
                  | _ \<Rightarrow> rs\<lparr> rn_migrate_fees := add64 (rn_migrate_fees rs) fee \<rparr>)
             in case ce_height env of
                  Inl e \<Rightarrow> Returns (Inl e)
                | Inr height \<Rightarrow>
                    Goes_On (rs'\<lparr> rn_pacing := after_effect height (rn_pacing rs') \<rparr>) (Some task)))"

definition cycle_task :: "'e cycle_env \<Rightarrow> run_state \<Rightarrow> migration_task \<Rightarrow> 'e cycle_end" where
  "cycle_task env rs task =
     (let proceed = (if ce_cancelled env then Returns (Inr ()) else executed env rs task)
      in if task = Done then Returns (Inr ())
         else if migration_kind task = EffectKind then
           (case ce_fresh env of
              Inl e \<Rightarrow> Returns (Inl e)
            | Inr fresh \<Rightarrow>
                (if \<not> migration_satisfied task fresh
                 then Goes_On (rs\<lparr> rn_pacing := pacing_restart (rn_pacing rs) \<rparr>) None
                 else proceed))
         else proceed)"

definition migration_cycle :: "'e cycle_env \<Rightarrow> run_state \<Rightarrow> 'e cycle_end panics" where
  "migration_cycle env rs0 =
     (let rs = rs0\<lparr> rn_pacing := (rn_pacing rs0)\<lparr> pc_sampled_delay_ms := ce_delay env \<rparr> \<rparr>
      in case ce_state env of
           Inl e \<Rightarrow> Some (Returns (Inl e))
         | Inr s \<Rightarrow> map_option (cycle_task env rs) (next_migration_task s (rn_pacing rs)))"

text \<open>
  The log of the tasks executed, each with the environment of its cycle, newest first, as the
  loop runs through a sequence of environments. A panic of the planner ends it with \<open>None\<close>.
\<close>

fun run_migration ::
  "'e cycle_env list \<Rightarrow> run_state \<Rightarrow> (migration_task \<times> 'e cycle_env) list
   \<Rightarrow> (run_state \<times> (migration_task \<times> 'e cycle_env) list) panics" where
  "run_migration [] rs log = Some (rs, log)"
| "run_migration (env # envs) rs log =
     (case migration_cycle env rs of
        None \<Rightarrow> None
      | Some (Returns _) \<Rightarrow> Some (rs, log)
      | Some (Goes_On rs' None) \<Rightarrow> run_migration envs rs' log
      | Some (Goes_On rs' (Some task)) \<Rightarrow> run_migration envs rs' ((task, env) # log))"

section \<open>What the planner guarantees\<close>

definition is_effect :: "migration_task \<times> 'e cycle_env \<Rightarrow> bool" where
  "is_effect x \<longleftrightarrow> migration_kind (fst x) = EffectKind"

text \<open>The tasks executed since the last broadcast, and the height recorded after it.\<close>

definition since_effect ::
  "(migration_task \<times> 'e cycle_env) list \<Rightarrow> (migration_task \<times> 'e cycle_env) list" where
  "since_effect log = takeWhile (\<lambda>x. \<not> is_effect x) log"

definition last_effect_height :: "(migration_task \<times> 'e cycle_env) list \<Rightarrow> u32 option" where
  "last_effect_height log =
     (case dropWhile (\<lambda>x. \<not> is_effect x) log of
        [] \<Rightarrow> None
      | x # _ \<Rightarrow> (case ce_height (snd x) of Inl _ \<Rightarrow> None | Inr h \<Rightarrow> Some h))"

lemma since_effect_Cons [simp]:
  "since_effect (x # log) = (if is_effect x then [] else x # since_effect log)"
  by (simp add: since_effect_def)

lemma last_effect_height_Cons [simp]:
  "last_effect_height (x # log) = (if is_effect x
     then (case ce_height (snd x) of Inl _ \<Rightarrow> None | Inr h \<Rightarrow> Some h) else last_effect_height log)"
  by (simp add: last_effect_height_def)

lemma next_task_effect:
  assumes "next_migration_task s p = Some task" and "migration_kind task = EffectKind"
  shows "pc_delay_served p" and "\<not> acted_this_block s p"
  using assms by (auto simp: next_migration_task_def split: Option.bind_splits if_splits option.splits boundary_state.splits)

lemma next_task_idle:
  assumes "next_migration_task s p = Some task" and "\<not> pc_delay_served p" and "task \<noteq> Done"
  shows "task = WaitDelay (pc_sampled_delay_ms p)"
  using assms by (auto simp: next_migration_task_def split: Option.bind_splits if_splits option.splits boundary_state.splits)

lemma pacing_simps [simp]:
  "pc_delay_served (pacing_restart p) = False"
  "pc_last_action_height (pacing_restart p) = pc_last_action_height p"
  "pc_delay_served (after_effect h p) = False"
  "pc_last_action_height (after_effect h p) = Some h"
  by (simp_all add: pacing_restart_def after_effect_def)

text \<open>A delay was served since the last broadcast.\<close>

definition delayed :: "(migration_task \<times> 'e cycle_env) list \<Rightarrow> bool" where
  "delayed log \<longleftrightarrow> (\<exists>x \<in> set (since_effect log). \<exists>ms. fst x = WaitDelay ms)"

lemma delayed_Cons [simp]:
  "delayed (x # log) \<longleftrightarrow> \<not> is_effect x \<and> ((\<exists>ms. fst x = WaitDelay ms) \<or> delayed log)"
  by (auto simp: delayed_def)

text \<open>The pacing state mirrors the log: nothing is broadcast before a delay is served.\<close>

definition paced :: "run_state \<Rightarrow> (migration_task \<times> 'e cycle_env) list \<Rightarrow> bool" where
  "paced rs log \<longleftrightarrow>
     pc_last_action_height (rn_pacing rs) = last_effect_height log
     \<and> (pc_delay_served (rn_pacing rs) \<longrightarrow> delayed log)"

definition effect_ok :: "migration_task \<times> 'e cycle_env \<Rightarrow> (migration_task \<times> 'e cycle_env) list \<Rightarrow> bool" where
  "effect_ok x earlier \<longleftrightarrow> delayed earlier
     \<and> (\<exists>fresh. ce_fresh (snd x) = Inr fresh \<and> migration_satisfied (fst x) fresh)
     \<and> (\<exists>s. ce_state (snd x) = Inr s
          \<and> (\<forall>h. last_effect_height earlier = Some h \<longrightarrow> h < ms_tip_height s))"

fun log_paced :: "(migration_task \<times> 'e cycle_env) list \<Rightarrow> bool" where
  "log_paced [] = True"
| "log_paced (x # log) = ((is_effect x \<longrightarrow> effect_ok x log) \<and> log_paced log)"

lemma migration_cycle_paced:
  assumes "migration_cycle env rs = Some (Goes_On rs' tk)" and "paced rs log" and "log_paced log"
  shows "case tk of None \<Rightarrow> paced rs' log
    | Some task \<Rightarrow> paced rs' ((task, env) # log) \<and> log_paced ((task, env) # log)"
proof -
  let ?p = "(rn_pacing rs)\<lparr> pc_sampled_delay_ms := ce_delay env \<rparr>"
  let ?rs = "rs\<lparr> rn_pacing := ?p \<rparr>"
  obtain s task where st: "ce_state env = Inr s" and nt: "next_migration_task s ?p = Some task"
    and cyc: "cycle_task env ?rs task = Goes_On rs' tk"
    using assms(1) by (auto simp: migration_cycle_def Let_def split: sum.splits)
  show ?thesis
  proof (cases "migration_kind task = EffectKind")
    case True
    note e = next_task_effect [OF nt True]
    have tip: "h < ms_tip_height s" if "last_effect_height log = Some h" for h
      using e(2) that assms(2) by (simp add: acted_this_block_def paced_def)
    have wait: "delayed log"
      using e(1) assms(2) by (simp add: paced_def)
    show ?thesis
      using assms(2,3) True cyc wait tip st
      by (cases task) (auto simp: cycle_task_def executed_def paced_def effect_ok_def is_effect_def
          Let_def split: if_splits sum.splits)
  next
    case False
    then have "pc_delay_served ?p \<or> task = Done \<or> (\<exists>ms. task = WaitDelay ms)"
      using next_task_idle [OF nt] by blast
    then show ?thesis
      using assms(2,3) False cyc
      by (cases task) (auto simp: cycle_task_def executed_def paced_def effect_ok_def is_effect_def
          Let_def split: if_splits sum.splits)
  qed
qed

lemma run_migration_paced:
  "run_migration envs rs log = Some (rs', log') \<Longrightarrow> paced rs log \<Longrightarrow> log_paced log
   \<Longrightarrow> paced rs' log' \<and> log_paced log'"
proof (induction envs rs log rule: run_migration.induct)
  case (2 env envs rs log)
  then show ?case
    by (auto split: option.splits cycle_end.splits dest!: migration_cycle_paced)
qed simp

lemma log_paced_split: "log_paced (l1 @ x # l2) \<Longrightarrow> is_effect x \<Longrightarrow> effect_ok x l2"
  by (induction l1) auto

end
