(* ===== verification/Migrate_Correct.thy ===== *)
theory Migrate_Correct
  imports Migrate_Run
begin

text \<open>
  What the migration planner guarantees, in lemmas: the fee counter of a split, the loop that
  trims it until its change pays the fee, the tasks the planner names, the notes an
  observation offers and the effect of a lock on the next observation.
\<close>

section \<open>The fee of a split\<close>

lemma repeat_add_input:
  "n < 256 \<Longrightarrow> repeat n (add_input 2) ((fm_new cost)\<lparr> fm_migration := True \<rparr>)
     = \<lparr> fm_cost_per_action = cost, fm_num_inputs = [0, 0, n, 0], fm_num_outputs = [0, 0, 0, 0],
         fm_t_in_size = 0, fm_issuance_actions = 0, fm_migration = True \<rparr>"
  by (induction n)
    (simp_all add: repeat_Suc_outer fm_new_def add_input_def upd_at_def add8_def del: repeat.simps(2))

definition split_fm :: "u64 \<Rightarrow> nat \<Rightarrow> nat \<Rightarrow> fee_manager" where
  "split_fm cost n m = \<lparr> fm_cost_per_action = cost, fm_num_inputs = [0, 0, n, 0],
     fm_num_outputs = [0, 0, m, 0], fm_t_in_size = 0, fm_issuance_actions = 0,
     fm_migration = True \<rparr>"

lemma add_output_split: "m + 1 < 256 \<Longrightarrow> add_output 2 (split_fm cost n m) = split_fm cost n (Suc m)"
  by (simp add: split_fm_def add_output_def upd_at_def add8_def)

lemma remove_output_split: "Suc m < 256 \<Longrightarrow> remove_output 2 (split_fm cost n (Suc m)) = split_fm cost n m"
  by (simp add: split_fm_def remove_output_def upd_at_def sub8_exact)

lemma repeat_add_output:
  "m < 256 \<Longrightarrow> repeat m (add_output 2) (split_fm cost n 0) = split_fm cost n m"
  by (induction m) (simp_all add: repeat_Suc_outer add_output_split del: repeat.simps(2))

lemma split_counter_eq:
  "n < 256 \<Longrightarrow> m + 1 < 256 \<Longrightarrow> split_counter cost n m = split_fm cost n (Suc m)"
  using repeat_add_output [of m cost n] repeat_add_input [of n cost] add_output_split [of m cost n]
  by (simp add: split_counter_def Let_def split_fm_def)

lemma split_fee:
  "fm_fee (split_fm cost n m) = mul64 (max (n + m) 2) cost"
  by (auto simp: fm_fee_def fm_actions_def split_fm_def Let_def pool_actions_def migration_actions_def
      div_ceil_def p2pkh_input_size_def)

section \<open>The trimming loop\<close>

definition drop_unit :: "(u64 \<times> u8) list \<Rightarrow> (u64 \<times> u8) list" where
  "drop_unit digits =
     (let (denom, count) = last digits; count' = sub8 count 1
      in if count' = 0 then butlast digits else butlast digits @ [(denom, count')])"

lemma drop_unit_spec:
  assumes "digits_ok p m digits" and "digits \<noteq> []" and "last digits = (denom, c)"
  shows "digits_ok p m (drop_unit digits)"
    and "digits_value (drop_unit digits) + denom = digits_value digits"
    and "Suc (digits_count (drop_unit digits)) = digits_count digits"
proof -
  have d: "digits = butlast digits @ [(denom, c)]"
    using assms(2,3) by (metis append_butlast_last_id)
  have "(denom, c) \<in> set digits" using assms(2,3) by (metis last_in_set)
  with assms(1) have c: "1 \<le> c" "c \<le> 9" by (auto simp: digits_ok_def)
  then have s: "sub8 c 1 = c - 1" by (intro sub8_exact) auto
  have du: "drop_unit digits = (if c = 1 then butlast digits else butlast digits @ [(denom, c - 1)])"
    using c unfolding drop_unit_def assms(3) Let_def prod.case s by auto
  have "denom * c = denom * (c - 1) + denom"
    using c(1) by (cases c) auto
  then show "digits_value (drop_unit digits) + denom = digits_value digits"
    using c by (subst (2) d) (auto simp: du)
  show "Suc (digits_count (drop_unit digits)) = digits_count digits"
    using c by (subst (2) d) (auto simp: du)
  have "digits_ok p m (butlast digits @ [(denom, c)])" using assms(1) d by simp
  then show "digits_ok p m (drop_unit digits)"
    using c by (auto simp: du digits_ok_def sorted_wrt_append)
qed

lemma trim_split_Suc:
  "trim_split (Suc k) digits r fm =
     (if fm_fee fm > r \<and> digits \<noteq> []
      then trim_split k (drop_unit digits) (add64 r (fst (last digits))) (remove_output 2 fm)
      else digits)"
  by (simp add: drop_unit_def Let_def split: prod.split)

lemma trim_split_exact:
  assumes "digits_ok p m digits" and "digits_count digits = k" and "k + 1 < 256"
    and "digits_value digits + r = v" and "v < 2 ^ 64"
  shows "\<exists>r'. digits_ok p m (trim_split k digits r (split_fm cost n (Suc k)))
    \<and> digits_value (trim_split k digits r (split_fm cost n (Suc k))) + r' = v
    \<and> (trim_split k digits r (split_fm cost n (Suc k)) \<noteq> []
       \<longrightarrow> fm_fee (split_fm cost n (Suc (digits_count (trim_split k digits r (split_fm cost n (Suc k)))))) \<le> r')"
  using assms
proof (induction k arbitrary: digits r)
  case 0
  have "digits = []"
  proof (cases digits)
    case (Cons x xs)
    with 0 show ?thesis by (cases x) (auto simp: digits_ok_def)
  qed simp
  with 0 show ?case by simp
next
  case (Suc k)
  show ?case
  proof (cases "fm_fee (split_fm cost n (Suc (Suc k))) > r \<and> digits \<noteq> []")
    case True
    obtain denom count where l: "last digits = (denom, count)" by force
    note d = drop_unit_spec [OF Suc.prems(1) _ l]
    have "r + denom \<le> v" using d(2) True Suc.prems(4) by linarith
    then have a: "add64 r denom = r + denom" using Suc.prems(5) by (intro add64_exact) simp
    have eq: "trim_split (Suc k) digits r (split_fm cost n (Suc (Suc k)))
        = trim_split k (drop_unit digits) (r + denom) (split_fm cost n (Suc k))"
      using True Suc.prems(3) by (simp add: trim_split_Suc l a remove_output_split del: trim_split.simps)
    show ?thesis
      unfolding eq using True d Suc.prems by (intro Suc.IH) auto
  next
    case False
    then have eq: "trim_split (Suc k) digits r (split_fm cost n (Suc (Suc k))) = digits"
      unfolding trim_split_Suc by (simp only: if_False)
    show ?thesis unfolding eq using False Suc.prems by (intro exI [of _ r]) auto
  qed
qed

text \<open>Evaluation of a concrete plan: the loop one step at a time, with its fee in closed form.\<close>

lemma rev_exponents: "rev [5..<16] = [15, 14, 13, 12, 11, 10, 9, 8, 7, 6, 5 :: nat]"
  by (simp add: upt_rec)

lemma trim_split_step:
  assumes "0 < k" and "0 < m" and "m < 256"
  shows "trim_split k digits r (split_fm cost n m) =
     (if mul64 (max (n + m) 2) cost > r \<and> digits \<noteq> []
      then trim_split (k - 1) (drop_unit digits) (add64 r (fst (last digits))) (split_fm cost n (m - 1))
      else digits)"
proof -
  obtain k' m' where "k = Suc k'" "m = Suc m'" using assms(1,2) by (metis gr0_implies_Suc)
  with assms(3) show ?thesis
    by (simp add: trim_split_Suc remove_output_split split_fee del: trim_split.simps)
qed

lemmas plan_eval = plan_split_def decompose_to_sd_def rev_exponents min_sd_def sd_fee_pad_def
  add64_def mul64_def split_counter_eq trim_split_step drop_unit_def sub8_exact

lemma plan_split_exact:
  assumes "cost < 2 ^ 56" and "amount < 10 ^ 16" and "n \<le> 50"
  shows "\<exists>ds r. plan_split amount n cost = Some ds \<and> digits_ok (4 * cost) 16 ds
    \<and> (ds \<noteq> [] \<longrightarrow> digits_value ds + r = amount \<and> 100 * cost \<le> amount
        \<and> fm_fee (split_counter cost n (digits_count ds)) \<le> r)"
proof -
  have pad: "sd_fee_pad cost = 4 * cost" using assms(1) by (simp add: sd_fee_pad_def mul64_exact)
  have msd: "min_sd cost = 100 * cost" using assms(1) by (simp add: min_sd_def mul64_exact)
  show ?thesis
  proof (cases "amount < min_sd cost")
    case True
    then show ?thesis by (simp add: plan_split_def)
  next
    case False
    obtain ds r where d: "decompose_to_sd amount (4 * cost) = Some (ds, r)" "digits_value ds + r = amount"
      "digits_ok (4 * cost) 16 ds"
      using decompose_to_sd_exact [of "4 * cost" amount] assms by auto
    have cnt: "digits_count ds \<le> 99" using digits_ok_count [OF d(3)] by simp
    have num: "foldl (\<lambda>acc (_, c). add64 acc c) k es = k + digits_count es"
      if "k + digits_count es < 2 ^ 64" for k and es :: "(u64 \<times> u8) list"
      using that by (induction es arbitrary: k) (auto simp: add64_exact)
    have num: "foldl (\<lambda>acc (_, c). add64 acc c) 0 ds = digits_count ds" using num [of 0 ds] cnt by simp
    let ?t = "trim_split (digits_count ds) ds r (split_fm cost n (Suc (digits_count ds)))"
    obtain r' where t: "digits_ok (4 * cost) 16 ?t" "digits_value ?t + r' = amount"
      "?t \<noteq> [] \<longrightarrow> fm_fee (split_fm cost n (Suc (digits_count ?t))) \<le> r'"
      using trim_split_exact [OF d(3) refl _ d(2), of cost n] cnt assms(2) by auto
    have "plan_split amount n cost = Some ?t"
      using False cnt assms(3) by (simp add: plan_split_def pad d(1) num split_counter_eq Let_def)
    moreover have "digits_count ?t \<le> 99" using digits_ok_count [OF t(1)] by simp
    then have "split_counter cost n (digits_count ?t) = split_fm cost n (Suc (digits_count ?t))"
      using assms(3) by (intro split_counter_eq) auto
    ultimately show ?thesis
      using t False msd by (intro exI [of _ ?t] exI [of _ r']) auto
  qed
qed

section \<open>The tasks\<close>

text \<open>
  The states the planner meets: less than 100 million ZEC to split (the supply is 21 million),
  a marginal fee below \<open>2 ^ 56\<close>, and a bucket of at least one block.
\<close>

definition migration_ok :: "migration_state \<Rightarrow> bool" where
  "migration_ok s \<longleftrightarrow> sum_list (map nr_value (ms_orchard_non_sd s)) < 10 ^ 16
     \<and> ms_cost_per_action s < 2 ^ 56 \<and> ms_anchor_bucket_size s \<noteq> 0"

lemma sum_list_take_le: "sum_list (map f (take n xs)) \<le> sum_list (map (f :: 'a \<Rightarrow> nat) xs)"
proof -
  have "sum_list (map f xs) = sum_list (map f (take n xs)) + sum_list (map f (drop n xs))"
    by (metis append_take_drop_id map_append sum_list_append)
  then show ?thesis by simp
qed

lemma foldl_add64:
  "k + sum_list (map f xs) < 2 ^ 64 \<Longrightarrow> foldl (\<lambda>acc x. add64 acc (f x)) k xs = k + sum_list (map f xs)"
  by (induction xs arbitrary: k) (auto simp: add64_exact add.assoc)

lemma length_capped [simp]: "length (capped_non_sd s) \<le> 50"
  by (simp add: capped_non_sd_def max_split_inputs_def)

lemma set_capped: "set (capped_non_sd s) \<subseteq> set (ms_orchard_non_sd s)"
  using set_take_subset [of max_split_inputs "sort_desc nr_value (ms_orchard_non_sd s)"]
  by (simp add: capped_non_sd_def)

lemma split_input_total_eq:
  assumes "migration_ok s"
  shows "split_input_total s = sum_list (map nr_value (capped_non_sd s))"
    and "split_input_total s < 10 ^ 16"
proof -
  have "sum_list (map nr_value (capped_non_sd s))
      \<le> sum_list (map nr_value (sort_desc nr_value (ms_orchard_non_sd s)))"
    unfolding capped_non_sd_def by (rule sum_list_take_le)
  also have "\<dots> = sum_list (map nr_value (ms_orchard_non_sd s))" by (rule sum_list_mset_eq) simp
  finally have b: "sum_list (map nr_value (capped_non_sd s)) < 10 ^ 16"
    using assms by (simp add: migration_ok_def)
  then show "split_input_total s = sum_list (map nr_value (capped_non_sd s))"
    using foldl_add64 [of 0 nr_value "capped_non_sd s"] by (simp add: split_input_total_def)
  with b show "split_input_total s < 10 ^ 16" by simp
qed

lemma split_of_exact:
  assumes "migration_ok s"
  shows "\<exists>ds r. split_of s = Some ds \<and> digits_ok (4 * ms_cost_per_action s) 16 ds
    \<and> (ds \<noteq> [] \<longrightarrow> digits_value ds + r = sum_list (map nr_value (capped_non_sd s))
        \<and> fm_fee (split_counter (ms_cost_per_action s) (length (capped_non_sd s)) (digits_count ds)) \<le> r)"
  using plan_split_exact [of "ms_cost_per_action s" "split_input_total s" "length (capped_non_sd s)"]
    split_input_total_eq [OF assms] assms
  by (auto simp: split_of_def migration_ok_def)

lemma pad_exact [simp]: "migration_ok s \<Longrightarrow> sd_fee_pad (ms_cost_per_action s) = 4 * ms_cost_per_action s"
  by (simp add: migration_ok_def sd_fee_pad_def mul64_exact)

lemma pick_sd_in: "pick_sd ns = Some n \<Longrightarrow> n \<in> set ns"
proof -
  have "foldl (\<lambda>best n. if blob_less (cmx_bytes n) (cmx_bytes best) then best else n) m ns \<in> insert m (set ns)"
    for m ns
  proof (induction ns arbitrary: m)
    case (Cons n ns)
    show ?case using Cons.IH [of m] Cons.IH [of n] by auto
  qed simp
  then show "pick_sd ns = Some n \<Longrightarrow> n \<in> set ns"
    by (auto simp: pick_sd_def split: list.splits)
qed

lemma next_anchor_exact:
  assumes "b \<noteq> 0"
  shows "\<exists>t. next_anchor_bucket_height h b = Some t"
  using assms by (simp add: next_anchor_bucket_height_def Let_def)

lemma next_task_cases:
  assumes "migration_ok s"
  obtains split where "split_of s = Some split" "next_migration_task s p = Some Done" "split = []" "ms_orchard_sd s = []"
  | split ms where "split_of s = Some split" "split \<noteq> [] \<or> ms_orchard_sd s \<noteq> []"
      "next_migration_task s p = Some (WaitDelay ms)" "\<not> pc_delay_served p \<or> acted_this_block s p"
  | split where "split_of s = Some split" "split \<noteq> []" "pc_delay_served p" "\<not> acted_this_block s p"
      "next_migration_task s p = Some (Split (map nr_id (capped_non_sd s)) split)"
  | n where "split_of s = Some []" "pc_delay_served p" "\<not> acted_this_block s p"
      "is_multiple_of (ms_checkpoint_height s) (ms_anchor_bucket_size s)"
      "n \<in> set (sd_spendable_at (ms_checkpoint_height s) s)"
      "next_migration_task s p = Some (Migrate (nr_id n)
         (sub64 (nr_value n) (sd_fee_pad (ms_cost_per_action s))) (ms_checkpoint_height s))"
  | t where "split_of s = Some []" "ms_orchard_sd s \<noteq> []" "next_migration_task s p = Some (WaitBoundary t)"
proof -
  obtain split where sp: "split_of s = Some split" using split_of_exact [OF assms] by blast
  have b: "ms_anchor_bucket_size s \<noteq> 0" using assms by (simp add: migration_ok_def)
  note cases = that
  consider "split = []" "ms_orchard_sd s = []"
    | "\<not> (split = [] \<and> ms_orchard_sd s = [])" "\<not> pc_delay_served p \<or> acted_this_block s p"
    | "split \<noteq> []" "pc_delay_served p" "\<not> acted_this_block s p"
    | "split = []" "ms_orchard_sd s \<noteq> []" "pc_delay_served p" "\<not> acted_this_block s p" by blast
  then show thesis
  proof cases
    case 1
    with sp show thesis by (intro cases(1) [of split]) (auto simp: next_migration_task_def)
  next
    case 2
    with sp show thesis by (intro cases(2) [of split]) (auto simp: next_migration_task_def)
  next
    case 3
    with sp show thesis by (intro cases(3) [of split]) (auto simp: next_migration_task_def)
  next
    case 4
    let ?cp = "ms_checkpoint_height s" and ?b = "ms_anchor_bucket_size s"
    show thesis
    proof (cases "is_multiple_of ?cp ?b")
      case True
      then have at: "boundary_state_of (ms_tip_height s) ?cp ?b = Some (At ?cp)"
        by (simp add: boundary_state_of_def)
      show thesis
      proof (cases "pick_sd (sd_spendable_at ?cp s)")
        case None
        obtain t where "next_anchor_bucket_height (sat_add32 ?cp 1) ?b = Some t"
          using next_anchor_exact [OF b] by blast
        with None 4 sp at show thesis by (intro cases(5) [of t]) (auto simp: next_migration_task_def)
      next
        case (Some n)
        with 4 sp at True show thesis
          by (intro cases(4) [of n]) (auto simp: next_migration_task_def dest: pick_sd_in)
      qed
    next
      case False
      obtain t where "boundary_state_of (ms_tip_height s) ?cp ?b = Some (Waiting t)"
        using False next_anchor_exact [OF b] by (auto simp: boundary_state_of_def initial_boundary_def)
      with 4 sp show thesis by (intro cases(5) [of t]) (auto simp: next_migration_task_def)
    qed
  qed
qed

section \<open>Observations\<close>

lemma observe_migration_notes:
  assumes "observe_migration tip cost addr account bucket db = Inr s"
  shows "ms_cost_per_action s = cost"
    and "set (ms_orchard_sd s) = note_ref_of (ms_checkpoint_height s) db
           ` {r \<in> set (db_notes db). migratable account db r \<and> nt_pool r = 2
                \<and> is_sd (as_u64 (nt_value r)) (sd_fee_pad cost)}"
    and "set (ms_orchard_non_sd s) = note_ref_of (ms_checkpoint_height s) db
           ` {r \<in> set (db_notes db). migratable account db r \<and> nt_pool r = 2
                \<and> \<not> is_sd (as_u64 (nt_value r)) (sd_fee_pad cost)}"
proof -
  let ?f = "\<lambda>(sd, non_sd, iw) (pool, note).
     if pool = 2 \<and> is_sd (nr_value note) (sd_fee_pad cost) then (sd @ [note], non_sd, iw)
     else if pool = 2 then (sd, non_sd @ [note], iw)
     else if pool = 3 \<and> is_iw_sd (nr_value note) then (sd, non_sd, add32 iw 1)
     else (sd, non_sd, iw)"
  have fold: "\<exists>iw'. foldl ?f (sd, non_sd, iw) ns
      = (sd @ map snd (filter (\<lambda>(p, n). p = 2 \<and> is_sd (nr_value n) (sd_fee_pad cost)) ns),
         non_sd @ map snd (filter (\<lambda>(p, n). p = 2 \<and> \<not> is_sd (nr_value n) (sd_fee_pad cost)) ns), iw')"
    for sd non_sd iw and ns :: "(u8 \<times> note_ref) list"
  proof (induction ns arbitrary: sd non_sd iw)
    case (Cons x ns)
    obtain p n where x: "x = (p, n)" by force
    show ?case
      using Cons.IH [of "sd @ [n]" non_sd iw] Cons.IH [of sd "non_sd @ [n]" iw]
        Cons.IH [of sd non_sd "add32 iw 1"] Cons.IH [of sd non_sd iw] by (auto simp: x)
  qed simp
  obtain h where h: "get_db_height account db = Inr h"
    using assms by (auto simp: observe_migration_def split: sum.splits)
  let ?ns = "map (\<lambda>r. (nt_pool r, note_ref_of (ht_height h) db r)) (filter (migratable account db) (db_notes db))"
  obtain iw where "foldl ?f ([], [], 0) ?ns
      = (map snd (filter (\<lambda>(p, n). p = 2 \<and> is_sd (nr_value n) (sd_fee_pad cost)) ?ns),
         map snd (filter (\<lambda>(p, n). p = 2 \<and> \<not> is_sd (nr_value n) (sd_fee_pad cost)) ?ns), iw)"
    using fold [of "[]" "[]" 0 ?ns] by auto
  with assms have s: "ms_cost_per_action s = cost" "ms_checkpoint_height s = ht_height h"
      "ms_orchard_sd s = map snd (filter (\<lambda>(p, n). p = 2 \<and> is_sd (nr_value n) (sd_fee_pad cost)) ?ns)"
      "ms_orchard_non_sd s = map snd (filter (\<lambda>(p, n). p = 2 \<and> \<not> is_sd (nr_value n) (sd_fee_pad cost)) ?ns)"
    by (auto simp: observe_migration_def h Let_def)
  show "ms_cost_per_action s = cost" by (rule s)
  have v: "nr_value (note_ref_of k db r) = as_u64 (nt_value r)" for k r by (simp add: note_ref_of_def)
  show "set (ms_orchard_sd s) = note_ref_of (ms_checkpoint_height s) db
           ` {r \<in> set (db_notes db). migratable account db r \<and> nt_pool r = 2
                \<and> is_sd (as_u64 (nt_value r)) (sd_fee_pad cost)}"
    unfolding s(2,3) by (force simp: v)
  show "set (ms_orchard_non_sd s) = note_ref_of (ms_checkpoint_height s) db
           ` {r \<in> set (db_notes db). migratable account db r \<and> nt_pool r = 2
                \<and> \<not> is_sd (as_u64 (nt_value r)) (sd_fee_pad cost)}"
    unfolding s(2,4) by (force simp: v)
qed

end
