(* ===== verification/Migrate_Properties.thy ===== *)
theory Migrate_Properties
  imports Migrate_Correct
begin

text \<open>
  The properties of the note migration, from the planner to the loop that drives it, with a
  witness for each on a small Orchard wallet.
\<close>

section \<open>Example wallets\<close>

definition orchard_note :: "u32 \<Rightarrow> i64 \<Rightarrow> note_row" where
  "orchard_note i v = (ex_note i 1 100 [i] v False)\<lparr> nt_pool := 2 \<rparr>"

definition orchard_db :: "i64 list \<Rightarrow> db" where
  "orchard_db vs = new_db\<lparr>
     db_sync_heights := [\<lparr> sh_account = 1, sh_pool = 2, sh_height = 288 \<rparr>],
     db_transactions := [ex_tx 1 1 [1] 100 None],
     db_notes := map (\<lambda>(i, v). orchard_note i v) (enumerate 1 vs),
     db_witnesses := map (\<lambda>(i, v). \<lparr> wt_id = i, wt_account = 1, wt_note = i, wt_height = 288,
       wt_witness = [0] \<rparr>) (enumerate 1 vs) \<rparr>"

definition orchard_state :: "i64 list \<Rightarrow> migration_state" where
  "orchard_state vs = (case observe_migration 300 5000 ''u1'' 1 144 (orchard_db vs) of
     Inr s \<Rightarrow> s | Inl _ \<Rightarrow> undefined)"

definition wallet_state :: "u64 list \<Rightarrow> u64 list \<Rightarrow> migration_state" where
  "wallet_state sd non_sd =
     (let note = (\<lambda>(i, v). \<lparr> nr_id = i, nr_height = 100, nr_value = v, nr_cmx = Some [i],
           nr_has_checkpoint = True \<rparr>)
      in \<lparr> ms_tip_height = 300, ms_checkpoint_height = 288, ms_anchor_bucket_size = 144,
           ms_cost_per_action = 5000, ms_orchard_sd = map note (enumerate 1 sd),
           ms_orchard_non_sd = map note (enumerate (1 + length sd) non_sd),
           ms_ironwood_sd_count = 0, ms_own_address = ''u1'' \<rparr>)"

definition ready :: pacing where
  "ready = \<lparr> pc_sampled_delay_ms = 1000, pc_last_action_height = None, pc_delay_served = True \<rparr>"

lemma wallet_state_ok: "migration_ok (wallet_state [] [500000000, 500100000])"
  by (simp add: migration_ok_def wallet_state_def)

lemma split_of_two:
  "split_of (wallet_state [] [500000000, 500100000]) = Some [(1000020000, 1)]"
  "split_of (wallet_state [] [500000000, 500020000]) = Some []"
  "split_of (wallet_state [] [500000000, 500019999])
     = Some [(100020000, 9), (10020000, 9), (1020000, 9), (120000, 2)]"
  by (simp_all add: split_of_def wallet_state_def split_input_total_def capped_non_sd_def
      max_split_inputs_def sort_desc_def plan_eval del: trim_split.simps(2))

lemma capped_two:
  "b > a \<Longrightarrow> map nr_id (capped_non_sd (wallet_state [] [a, b])) = [2, 1]"
  "b > a \<Longrightarrow> map nr_value (capped_non_sd (wallet_state [] [a, b])) = [b, a]"
  by (simp_all add: capped_non_sd_def wallet_state_def max_split_inputs_def sort_desc_def)

lemma next_task_split:
  "split_of s = Some ds \<Longrightarrow> ds \<noteq> [] \<Longrightarrow> next_migration_task s ready = Some (Split (map nr_id (capped_non_sd s)) ds)"
  by (simp add: next_migration_task_def ready_def acted_this_block_def)

section \<open>Properties\<close>

text \<open>
  C13: the planner is total and never contradicts itself. On every state it names a task which
  that state satisfies, so a task that is refused was planned on a different state; the phase
  shown to the user is complete exactly when the task is \<open>Done\<close>; and a broadcast is named
  only after a delay and in a block above the last one.
\<close>

theorem migration_planner_consistent:
  assumes "migration_ok s"
  shows "\<exists>task. next_migration_task s p = Some task \<and> migration_satisfied task s
    \<and> (task = Done \<longleftrightarrow> phase s = Some PhaseComplete)
    \<and> (migration_kind task = EffectKind \<longrightarrow> pc_delay_served p \<and> \<not> acted_this_block s p)"
proof -
  have inputs: "list_all (\<lambda>i. list_ex (\<lambda>n. nr_id n = i) (ms_orchard_non_sd s)) (map nr_id (capped_non_sd s))"
    using set_capped [of s] by (fastforce simp: list_all_iff list_ex_iff)
  show ?thesis
    using inputs by (rule_tac next_task_cases [OF assms, of p])
      (auto simp: phase_def list_ex_iff sd_spendable_at_def)
qed

theorem migration_planner_consistent_witness:
  "next_migration_task (wallet_state [] [500000000, 500100000]) ready
     = Some (Split [2, 1] [(1000020000, 1)])
   \<and> migration_satisfied (Split [2, 1] [(1000020000, 1)]) (wallet_state [] [500000000, 500100000])
   \<and> phase (wallet_state [] [500000000, 500100000]) \<noteq> Some PhaseComplete"
proof -
  have "next_migration_task (wallet_state [] [500000000, 500100000]) ready
     = Some (Split [2, 1] [(1000020000, 1)])"
    using next_task_split [OF split_of_two(1)] by (simp add: capped_two)
  with migration_planner_consistent [OF wallet_state_ok, of ready] show ?thesis
    by (simp only: option.inject ex_simps simp_thms) blast
qed

text \<open>
  C12: a split pays its own fee. Whenever the planner names a split, it spends the largest
  notes that are not at a standard denomination, at most 50 of them; every output is a
  standard denomination with the pad; and the outputs, with the fee the transaction pays for
  exactly those inputs, outputs and its change, never exceed the inputs.
\<close>

theorem split_pays_its_fee:
  assumes "migration_ok s" and "next_migration_task s p = Some (Split inputs outputs)"
  shows "inputs = map nr_id (capped_non_sd s) \<and> length inputs \<le> 50
    \<and> (\<exists>change. sum_list (map rc_amount (split_recipients addr outputs)) + change
         = sum_list (map nr_value (capped_non_sd s))
       \<and> fm_fee (split_counter (ms_cost_per_action s) (length inputs)
            (length (split_recipients addr outputs))) \<le> change)
    \<and> (\<forall>r \<in> set (split_recipients addr outputs).
         is_sd (rc_amount r) (sd_fee_pad (ms_cost_per_action s)))
    \<and> split_recipients addr outputs \<noteq> []"
proof -
  have sp: "split_of s = Some outputs" "outputs \<noteq> []" "inputs = map nr_id (capped_non_sd s)"
    using assms by (auto elim!: next_task_cases [of s p])
  obtain r where d: "digits_ok (4 * ms_cost_per_action s) 16 outputs"
    "digits_value outputs + r = sum_list (map nr_value (capped_non_sd s))"
    "fm_fee (split_counter (ms_cost_per_action s) (length (capped_non_sd s)) (digits_count outputs)) \<le> r"
    using split_of_exact [OF assms(1)] sp by auto
  have cnt: "length (split_recipients addr ds) = digits_count ds" for ds
    by (induction ds) (auto simp: split_recipients_def)
  have val: "sum_list (map rc_amount (split_recipients addr ds)) = digits_value ds" for ds
    by (induction ds) (auto simp: split_recipients_def sum_list_replicate mult.commute)
  have sd: "\<forall>r \<in> set (split_recipients addr outputs). is_sd (rc_amount r) (4 * ms_cost_per_action s)"
    using d(1) by (auto simp: split_recipients_def digits_ok_def is_sd_iff)
  obtain dn c ds where "outputs = (dn, c) # ds" using sp(2) by (cases outputs) auto
  then have "split_recipients addr outputs \<noteq> []"
    using d(1) by (auto simp: split_recipients_def digits_ok_def)
  with d(2,3) sd sp(3) assms(1) show ?thesis
    by (auto simp: cnt val)
qed

theorem split_pays_its_fee_witness:
  "map rc_amount (split_recipients ''u1'' [(1000020000, 1)]) = [1000020000]
   \<and> (\<exists>change. 1000020000 + change = (1000100000 :: nat)
       \<and> fm_fee (split_counter 5000 2 1) \<le> change)"
proof -
  let ?s = "wallet_state [] [500000000, 500100000]"
  have t: "next_migration_task ?s ready = Some (Split [2, 1] [(1000020000, 1)])"
    using next_task_split [OF split_of_two(1)] by (simp add: capped_two)
  have r: "map rc_amount (split_recipients ''u1'' [(1000020000, 1)]) = [1000020000]"
    "length (split_recipients ''u1'' [(1000020000, 1)]) = 1" by (simp_all add: split_recipients_def)
  have c: "ms_cost_per_action ?s = 5000" "map nr_value (capped_non_sd ?s) = [500100000, 500000000]"
    by (simp add: wallet_state_def) (simp add: capped_two)
  have l: "length [2 :: nat, 1] = 2" by simp
  obtain change where "sum_list [1000020000] + change = sum_list [500100000, 500000000 :: nat]"
    "fm_fee (split_counter 5000 2 1) \<le> change"
    using split_pays_its_fee [OF wallet_state_ok t, of "''u1''", unfolded r c l] by blast
  then show ?thesis unfolding r by (intro conjI refl exI [of _ change]) simp_all
qed

lemma hop_counter:
  "add_output 3 (add_output 2 (add_input 2 ((fm_new cost)\<lparr> fm_migration := True \<rparr>)))
     = \<lparr> fm_cost_per_action = cost, fm_num_inputs = [0, 0, 1, 0], fm_num_outputs = [0, 0, 1, 1],
         fm_t_in_size = 0, fm_issuance_actions = 0, fm_migration = True \<rparr>"
  by (simp add: fm_new_def add_output_def add_input_def upd_at_def add8_def)

lemma hop_fee:
  "fm_fee (add_output 3 (add_output 2 (add_input 2 ((fm_new cost)\<lparr> fm_migration := True \<rparr>))))
     = sd_fee_pad cost"
proof -
  have "fm_actions \<lparr> fm_cost_per_action = cost, fm_num_inputs = [0, 0, 1, 0],
      fm_num_outputs = [0, 0, 1, 1], fm_t_in_size = 0, fm_issuance_actions = 0, fm_migration = True \<rparr> = 4"
    by (simp add: fm_actions_def pool_actions_def migration_actions_def div_ceil_def p2pkh_input_size_def)
  then show ?thesis by (simp only: hop_counter fm_fee_def sd_fee_pad_def fee_manager.select_convs)
qed

text \<open>
  The hop to Ironwood is exact. When the planner, on a state it observed, names a hop, the
  note it spends is an unspent, unlocked Orchard note of the account with a witness at the
  anchor, and the account's checkpoint is the anchor; the amount minted is a pure power of
  ten; and what is left of the note is to the zatoshi the fee of a transaction with one
  Orchard input, one Orchard change and one Ironwood output.
\<close>

theorem migrate_hop_is_exact:
  assumes "observe_migration tip cost addr account bucket db = Inr s" and "migration_ok s"
    and "next_migration_task s p = Some (Migrate note amount anchor)"
    and "\<forall>r \<in> set (db_notes db). as_u64 (nt_value r) < 2 ^ 63"
  shows "is_iw_sd amount \<and> ms_checkpoint_height s = anchor
    \<and> (\<exists>r \<in> set (db_notes db). nt_id r = note \<and> nt_account r = account \<and> nt_pool r = 2
       \<and> unspent db r \<and> \<not> nt_locked r \<and> nt_id_asset r = None
       \<and> (\<exists>w \<in> set (db_witnesses db). wt_note w = note \<and> wt_height w = anchor)
       \<and> as_u64 (nt_value r) = amount + sd_fee_pad cost
       \<and> fm_fee (add_output 3 (add_output 2 (add_input 2 ((fm_new cost)\<lparr> fm_migration := True \<rparr>))))
           = sd_fee_pad cost)"
proof -
  note o = observe_migration_notes [OF assms(1)]
  obtain n where n: "n \<in> set (sd_spendable_at anchor s)" "note = nr_id n" "ms_checkpoint_height s = anchor"
    "amount = sub64 (nr_value n) (sd_fee_pad cost)"
    using assms(2,3) o(1) by (auto elim!: next_task_cases [of s p])
  then obtain r where r: "r \<in> set (db_notes db)" "migratable account db r" "nt_pool r = 2"
    "is_sd (as_u64 (nt_value r)) (sd_fee_pad cost)" "n = note_ref_of anchor db r"
    using o(2) by (auto simp: sd_spendable_at_def)
  then obtain k where k: "5 \<le> k" "as_u64 (nt_value r) = 10 ^ k + sd_fee_pad cost"
    by (auto simp: is_sd_iff)
  have v: "nr_value n = as_u64 (nt_value r)" using r(5) by (simp add: note_ref_of_def)
  have "as_u64 (nt_value r) < 2 ^ 64" using assms(4) r(1) by force
  then have a: "amount = 10 ^ k" unfolding n(4) v k(2) by (simp add: sub64_exact)
  have "fm_fee (add_output 3 (add_output 2 (add_input 2 ((fm_new cost)\<lparr> fm_migration := True \<rparr>))))
      = sd_fee_pad cost"
    by (rule hop_fee)
  moreover have "nr_has_checkpoint n" using n(1) by (simp add: sd_spendable_at_def)
  then have "\<exists>w \<in> set (db_witnesses db). wt_note w = note \<and> wt_height w = anchor"
    using r(5) n(2) by (auto simp: note_ref_of_def list_ex_iff)
  moreover have "nt_id r = note" using n(2) r(5) by (simp add: note_ref_of_def)
  ultimately show ?thesis
    using r(1-3) k a n(3) by (auto simp: is_iw_sd_iff migratable_def intro!: bexI [of _ r])
qed

theorem migrate_hop_is_exact_witness:
  "is_iw_sd 1000000000 \<and> as_u64 1000020000 = 1000000000 + sd_fee_pad 5000"
proof -
  let ?db = "orchard_db [1000020000]" and ?s = "orchard_state [1000020000]"
  have "case observe_migration 300 5000 ''u1'' 1 144 ?db of Inr s \<Rightarrow> s = ?s | Inl _ \<Rightarrow> False"
    by code_simp
  then have obs: "observe_migration 300 5000 ''u1'' 1 144 ?db = Inr ?s" by (auto split: sum.splits)
  have ok: "migration_ok ?s" by code_simp
  have t: "next_migration_task ?s ready = Some (Migrate 1 1000000000 288)" by code_simp
  have small: "\<forall>r \<in> set (db_notes ?db). as_u64 (nt_value r) < 2 ^ 63" by code_simp
  have vals: "\<forall>r \<in> set (db_notes ?db). nt_value r = 1000020000" by code_simp
  from migrate_hop_is_exact [OF obs ok t small] vals show ?thesis by auto
qed

text \<open>The notes a task names.\<close>

fun task_notes :: "migration_task \<Rightarrow> u32 list" where
  "task_notes (Split inputs _) = inputs"
| "task_notes (Migrate note _ _) = [note]"
| "task_notes _ = []"



text \<open>
  C15: the loop paces itself. In every run of the migration loop, whatever the environment
  answers, a transaction is broadcast only for a task that the state read just before it still
  satisfies, only after a delay served since the last broadcast (or since the start), and only
  in a block above the height recorded after the last broadcast.
\<close>

theorem migration_is_paced:
  fixes envs :: "'e cycle_env list"
  assumes "run_migration envs run_initial [] = Some (rs, newer @ (task, env) # earlier)"
    and "migration_kind task = EffectKind"
  shows "delayed earlier
    \<and> (\<exists>fresh. ce_fresh env = Inr fresh \<and> migration_satisfied task fresh)
    \<and> (\<exists>s. ce_state env = Inr s
         \<and> (\<forall>h. last_effect_height earlier = Some h \<longrightarrow> h < ms_tip_height s))"
proof -
  have "paced run_initial ([] :: (migration_task \<times> 'e cycle_env) list)"
    by (simp add: paced_def run_initial_def pacing_default_def last_effect_height_def)
  then have "log_paced (newer @ (task, env) # earlier)"
    using run_migration_paced [OF assms(1)] by simp
  from log_paced_split [OF this] assms(2) show ?thesis
    by (simp add: effect_ok_def is_effect_def)
qed

definition ex_env :: "u32 \<Rightarrow> unit cycle_env" where
  "ex_env tip = (let s = (wallet_state [1000020000] [])\<lparr> ms_tip_height := tip \<rparr>
     in \<lparr> ce_delay = 60000, ce_state = Inr s, ce_fresh = Inr s, ce_exec = Inr 20000, ce_height = Inr tip,
          ce_cancelled = False \<rparr>)"

lemma hop_state_next:
  "next_migration_task ((wallet_state [1000020000] [])\<lparr> ms_tip_height := tip \<rparr>) p
     = Some (if \<not> pc_delay_served p \<or> (\<exists>h. pc_last_action_height p = Some h \<and> tip \<le> h)
         then WaitDelay (pc_sampled_delay_ms p) else Migrate 1 1000000000 288)"
  by (auto simp: next_migration_task_def split_of_def split_input_total_def capped_non_sd_def
      wallet_state_def sort_desc_def plan_split_def min_sd_def mul64_def acted_this_block_def
      boundary_state_of_def is_multiple_of_def sd_spendable_at_def pick_sd_def sub64_def
      sd_fee_pad_def split: option.splits)

theorem migration_is_paced_witness:
  "\<exists>rs log. run_migration (map ex_env [300, 300, 300, 300, 301]) run_initial [] = Some (rs, log)
     \<and> map fst log = [Migrate 1 1000000000 288, WaitDelay 60000, WaitDelay 60000,
          Migrate 1 1000000000 288, WaitDelay 60000]
     \<and> last_effect_height (tl log) = Some 300
     \<and> (\<exists>s. ce_state (snd (hd log)) = Inr s \<and> 300 < ms_tip_height s)"
proof -
  let ?run = "run_migration (map ex_env [300, 300, 300, 300, 301]) run_initial []"
  have r: "map_option (\<lambda>(rs, log). (map fst log, last_effect_height (tl log))) ?run
    = Some ([Migrate 1 1000000000 288, WaitDelay 60000, WaitDelay 60000,
          Migrate 1 1000000000 288, WaitDelay 60000], Some 300)"
    by (simp add: migration_cycle_def ex_env_def hop_state_next run_initial_def pacing_default_def
        cycle_task_def executed_def Let_def is_effect_def)
      (simp add: wallet_state_def is_multiple_of_def sd_spendable_at_def)
  then obtain rs log where l: "?run = Some (rs, log)" "last_effect_height (tl log) = Some 300"
    "map fst log = [Migrate 1 1000000000 288, WaitDelay 60000, WaitDelay 60000,
          Migrate 1 1000000000 288, WaitDelay 60000]" by auto
  then obtain task env where c: "log = (task, env) # tl log" "task = Migrate 1 1000000000 288"
    by (cases log) auto
  from migration_is_paced [of "map ex_env [300, 300, 300, 300, 301]" rs "[]" task env "tl log"] l c
  have "\<exists>s. ce_state env = Inr s \<and> 300 < ms_tip_height s" by auto
  moreover have "snd (hd log) = env" using c(1) by (metis list.sel(1) snd_conv)
  ultimately show ?thesis using l by auto
qed

lemma nothing_to_do:
  "split_of s = Some [] \<Longrightarrow> ms_orchard_sd s = []
     \<Longrightarrow> next_migration_task s p = Some Done \<and> phase s = Some PhaseComplete"
  by (simp add: next_migration_task_def phase_def)


end
