(* ===== verification/Sync_Session.thy ===== *)
theory Sync_Session
  imports Zkool_Prelude
begin

text \<open>
  The sync session of a wallet (\<open>rust/src/sync/session.rs\<close>): the lock that lets one run at a
  time write the chain log, and the slot that holds the live run's cancellation token.

  A run is created in two steps, the lock and then \<open>run\<close>, which publishes a new token, and
  ends in two: \<open>drop\<close> clears the slot and only then the guard is released. A token is a
  number, drawn from a counter by \<open>CancellationToken::new\<close>; the tokio mutex serves its
  waiters in the order they came. Each operation below is one step that another task can
  come between.
\<close>

type_synonym token = nat

text \<open>Who holds the lock: nobody, a caller not yet given its run, a live run, or a run whose
  slot is already cleared.\<close>

datatype 'c holder = Free | Granted 'c | Live 'c token | Ended 'c

record 'c session =
  se_holder :: "'c holder"
  se_waiting :: "'c list"
  se_cancel :: "token option"
  se_cancelled :: "token set"
  se_next :: token

definition session_new :: "'c session" where
  "session_new = \<lparr> se_holder = Free, se_waiting = [], se_cancel = None, se_cancelled = {},
     se_next = 0 \<rparr>"

definition try_begin :: "'c \<Rightarrow> 'c session \<Rightarrow> 'c session option" where
  "try_begin c s =
     (if se_holder s = Free \<and> se_waiting s = [] then Some (s\<lparr> se_holder := Granted c \<rparr>) else None)"

definition begin_wait :: "'c \<Rightarrow> 'c session \<Rightarrow> 'c session" where
  "begin_wait c s = s\<lparr> se_waiting := se_waiting s @ [c] \<rparr>"

definition lock_grant :: "'c session \<Rightarrow> 'c session option" where
  "lock_grant s =
     (case se_waiting s of
        [] \<Rightarrow> None
      | c # cs \<Rightarrow> (if se_holder s = Free
                    then Some (s\<lparr> se_holder := Granted c, se_waiting := cs \<rparr>) else None))"

definition run_publish :: "'c session \<Rightarrow> 'c session option" where
  "run_publish s =
     (case se_holder s of
        Granted c \<Rightarrow> Some (s\<lparr> se_holder := Live c (se_next s), se_cancel := Some (se_next s),
                        se_next := se_next s + 1 \<rparr>)
      | _ \<Rightarrow> None)"

definition session_cancel :: "'c session \<Rightarrow> bool \<times> 'c session" where
  "session_cancel s =
     (case se_cancel s of
        Some t \<Rightarrow> (True, s\<lparr> se_cancelled := insert t (se_cancelled s) \<rparr>)
      | None \<Rightarrow> (False, s))"

definition session_is_running :: "'c session \<Rightarrow> bool" where
  "session_is_running s \<longleftrightarrow> se_cancel s \<noteq> None"

definition run_drop :: "'c session \<Rightarrow> 'c session option" where
  "run_drop s =
     (case se_holder s of
        Live c t \<Rightarrow> Some (s\<lparr> se_holder := Ended c, se_cancel := None \<rparr>)
      | _ \<Rightarrow> None)"

definition lock_release :: "'c session \<Rightarrow> 'c session option" where
  "lock_release s =
     (case se_holder s of Ended c \<Rightarrow> Some (s\<lparr> se_holder := Free \<rparr>) | _ \<Rightarrow> None)"

definition was_cancelled :: "token \<Rightarrow> 'c session \<Rightarrow> bool" where
  "was_cancelled t s \<longleftrightarrow> t \<in> se_cancelled s"

definition check_cancelled :: "token \<Rightarrow> 'c session \<Rightarrow> string + unit" where
  "check_cancelled t s = (if was_cancelled t s then Inl ''Sync canceled'' else Inr ())"

section \<open>Steps of the session\<close>

inductive session_step :: "'c session \<Rightarrow> 'c session \<Rightarrow> bool" where
  TryBegin: "try_begin c s = Some s' \<Longrightarrow> session_step s s'"
| BeginWait: "session_step s (begin_wait c s)"
| LockGrant: "lock_grant s = Some s' \<Longrightarrow> session_step s s'"
| RunPublish: "run_publish s = Some s' \<Longrightarrow> session_step s s'"
| SessionCancel: "session_cancel s = (b, s') \<Longrightarrow> session_step s s'"
| RunDrop: "run_drop s = Some s' \<Longrightarrow> session_step s s'"
| LockRelease: "lock_release s = Some s' \<Longrightarrow> session_step s s'"

inductive_cases session_stepE: "session_step s s'"

lemmas session_ops = try_begin_def begin_wait_def lock_grant_def run_publish_def session_cancel_def
  run_drop_def lock_release_def

text \<open>
  The slot holds the live run's token and nothing else, and every token is older than the
  next one.
\<close>

definition session_ok :: "'c session \<Rightarrow> bool" where
  "session_ok s \<longleftrightarrow> se_cancel s = (case se_holder s of Live c t \<Rightarrow> Some t | _ \<Rightarrow> None)
     \<and> (\<forall>t \<in> se_cancelled s. t < se_next s)
     \<and> (\<forall>c t. se_holder s = Live c t \<longrightarrow> t < se_next s)"

lemma session_ok_new [simp]: "session_ok session_new"
  by (simp add: session_ok_def session_new_def)

lemma session_ok_step: "session_step s s' \<Longrightarrow> session_ok s \<Longrightarrow> session_ok s'"
  by (induction rule: session_step.induct)
    (auto simp: session_ok_def session_ops split: option.splits holder.splits list.splits if_splits
      simp: less_Suc_eq)

lemma session_sticky: "session_step s s' \<Longrightarrow> se_cancelled s \<subseteq> se_cancelled s'"
  by (induction rule: session_step.induct)
    (auto simp: session_ops split: option.splits holder.splits list.splits if_splits)

text \<open>A cancel reaches the live run, and only it.\<close>

lemma session_cancel_reaches:
  "session_ok s \<Longrightarrow> session_step s s' \<Longrightarrow> t \<in> se_cancelled s' \<Longrightarrow> t \<notin> se_cancelled s
     \<Longrightarrow> \<exists>c. se_holder s = Live c t \<and> se_holder s' = Live c t"
  by (erule session_stepE)
    (auto simp: session_ok_def session_ops split: option.splits holder.splits list.splits if_splits)

lemma session_fresh_token:
  "session_ok s \<Longrightarrow> run_publish s = Some s' \<Longrightarrow> se_next s \<notin> se_cancelled s'"
  by (auto simp: session_ok_def run_publish_def split: holder.splits)

lemma session_next_mono: "session_step s s' \<Longrightarrow> se_next s \<le> se_next s'"
  by (induction rule: session_step.induct)
    (auto simp: session_ops split: option.splits holder.splits list.splits if_splits)

end
