(* ===== verification/Sync_Driver.thy ===== *)
theory Sync_Driver
  imports Sync_Session Chain_Log
begin

text \<open>
  The sync driver (\<open>rust/src/sync/driver.rs\<close>): its mailbox, the loop that serves it, and the
  session its operations run under. The world is stepped by events: what the callers of the
  driver do, each step the loop takes, each step of the session, and a write of the chain log
  by the run that is live. Other runs (the FROST protocol driver) take the session with
  \<open>try_begin\<close>, as outsiders. The payload of a request that the loop only passes on is opaque.
\<close>

section \<open>Requests\<close>

datatype rewind = To u32 | Reset

datatype apply_op =
  TxDetails u32 nat
| UserMemo u32 blob "string option"
| Sent u32 blob
| Lock u32 lock_op
| RecordAsset asset_in
| ImportAccount blob

datatype request =
  SyncReq "u32 list" u32 u32 u32 bool
| RewindReq u32 rewind
| ApplyReq apply_op
| DeleteReq u32

fun preempts :: "request \<Rightarrow> bool" where
  "preempts (RewindReq _ _) = True"
| "preempts (DeleteReq _) = True"
| "preempts _ = False"

fun is_sync :: "request \<Rightarrow> bool" where
  "is_sync (SyncReq _ _ _ _ _) = True"
| "is_sync _ = False"

section \<open>State\<close>

text \<open>A request with the number of its arrival, and how far the one in service has come.\<close>

type_synonym job = "nat \<times> request"

datatype stage = Called | InSession | Over

datatype caller = Job nat | Outsider nat

record driver =
  dr_handles :: bool
  dr_inbox :: "job list"
  dr_pending :: "job list"
  dr_closed :: bool
  dr_current :: "(job \<times> stage) option"
  dr_returned :: bool
  dr_done :: "job list"
  dr_arrivals :: "job list"

record world =
  w_driver :: driver
  w_session :: "caller session"
  w_writes :: "token list"

definition inbox_capacity :: nat where "inbox_capacity = 16"

definition driver_new :: driver where
  "driver_new = \<lparr> dr_handles = True, dr_inbox = [], dr_pending = [], dr_closed = False,
     dr_current = None, dr_returned = False, dr_done = [], dr_arrivals = [] \<rparr>"

definition world_new :: world where
  "world_new = \<lparr> w_driver = driver_new, w_session = session_new, w_writes = [] \<rparr>"

section \<open>The loop\<close>

definition arrive :: "request \<Rightarrow> driver \<Rightarrow> driver option" where
  "arrive r d =
     (if dr_handles d \<and> \<not> dr_returned d \<and> length (dr_inbox d) < inbox_capacity
      then let job = (length (dr_arrivals d), r)
        in Some (d\<lparr> dr_inbox := dr_inbox d @ [job], dr_arrivals := dr_arrivals d @ [job] \<rparr>)
      else None)"

text \<open>The head of the loop: a pending request first, the inbox only when none is pending.\<close>

definition take_next :: "driver \<Rightarrow> driver option" where
  "take_next d =
     (if dr_returned d \<or> dr_current d \<noteq> None then None
      else case dr_pending d of
        job # rest \<Rightarrow> Some (d\<lparr> dr_pending := rest, dr_current := Some (job, Called) \<rparr>)
      | [] \<Rightarrow>
          (if dr_closed d then Some (d\<lparr> dr_returned := True \<rparr>)
           else case dr_inbox d of
             job # rest \<Rightarrow> Some (d\<lparr> dr_inbox := rest, dr_current := Some (job, Called) \<rparr>)
           | [] \<Rightarrow> (if dr_handles d then None else Some (d\<lparr> dr_returned := True \<rparr>))))"

text \<open>
  The branch of the select that watches the inbox while a sync runs: it answers whether the
  arrival preempts the sync.
\<close>

definition watch_inbox :: "driver \<Rightarrow> (bool \<times> driver) option" where
  "watch_inbox d =
     (case dr_current d of
        Some ((i, r), st) \<Rightarrow>
          (if is_sync r \<and> \<not> dr_closed d then
             (case dr_inbox d of
                job # rest \<Rightarrow>
                  Some (preempts (snd job),
                    d\<lparr> dr_inbox := rest, dr_pending := dr_pending d @ [job] \<rparr>)
              | [] \<Rightarrow> (if dr_handles d then None else Some (False, d\<lparr> dr_closed := True \<rparr>)))
           else None)
      | None \<Rightarrow> None)"

definition reply :: "driver \<Rightarrow> driver option" where
  "reply d =
     (case dr_current d of
        Some (job, Over) \<Rightarrow> Some (d\<lparr> dr_current := None, dr_done := dr_done d @ [job] \<rparr>)
      | _ \<Rightarrow> None)"

section \<open>The world\<close>

datatype event =
  Arrive request
| HandlesDropped
| TakeNext
| WatchInbox
| CallOp
| Reply
| OutsiderTries nat
| Grant
| Publish
| UserCancels
| Write
| DropRun
| Release

definition with_session :: "world \<Rightarrow> caller session option \<Rightarrow> world option" where
  "with_session w s = map_option (\<lambda>s. w\<lparr> w_session := s \<rparr>) s"

definition with_driver :: "world \<Rightarrow> driver option \<Rightarrow> world option" where
  "with_driver w d = map_option (\<lambda>d. w\<lparr> w_driver := d \<rparr>) d"

text \<open>The operation of the request in service begins a run of its own, and is over when the
  run has released the session.\<close>

definition call_op :: "world \<Rightarrow> world option" where
  "call_op w =
     (case dr_current (w_driver w) of
        Some ((i, r), Called) \<Rightarrow>
          Some (w\<lparr> w_driver := (w_driver w)\<lparr> dr_current := Some ((i, r), InSession) \<rparr>,
                  w_session := begin_wait (Job i) (w_session w) \<rparr>)
      | _ \<Rightarrow> None)"

definition op_over :: "caller \<Rightarrow> driver \<Rightarrow> driver" where
  "op_over c d =
     (case (c, dr_current d) of
        (Job i, Some ((j, r), InSession)) \<Rightarrow>
          (if i = j then d\<lparr> dr_current := Some ((j, r), Over) \<rparr> else d)
      | _ \<Rightarrow> d)"

fun world_next :: "event \<Rightarrow> world \<Rightarrow> world option" where
  "world_next (Arrive r) w = with_driver w (arrive r (w_driver w))"
| "world_next HandlesDropped w =
     Some (w\<lparr> w_driver := (w_driver w)\<lparr> dr_handles := False \<rparr> \<rparr>)"
| "world_next TakeNext w = with_driver w (take_next (w_driver w))"
| "world_next WatchInbox w =
     (case watch_inbox (w_driver w) of
        None \<Rightarrow> None
      | Some (preempting, d) \<Rightarrow>
          Some (w\<lparr> w_driver := d,
                  w_session := (if preempting then snd (session_cancel (w_session w))
                                else w_session w) \<rparr>))"
| "world_next CallOp w = call_op w"
| "world_next Reply w = with_driver w (reply (w_driver w))"
| "world_next (OutsiderTries n) w = with_session w (try_begin (Outsider n) (w_session w))"
| "world_next Grant w = with_session w (lock_grant (w_session w))"
| "world_next Publish w = with_session w (run_publish (w_session w))"
| "world_next UserCancels w = Some (w\<lparr> w_session := snd (session_cancel (w_session w)) \<rparr>)"
| "world_next Write w =
     (case se_holder (w_session w) of
        Live c t \<Rightarrow> Some (w\<lparr> w_writes := w_writes w @ [t] \<rparr>)
      | _ \<Rightarrow> None)"
| "world_next DropRun w = with_session w (run_drop (w_session w))"
| "world_next Release w =
     (case se_holder (w_session w) of
        Ended c \<Rightarrow> with_session (w\<lparr> w_driver := op_over c (w_driver w) \<rparr>) (lock_release (w_session w))
      | _ \<Rightarrow> None)"

fun world_run :: "event list \<Rightarrow> world \<Rightarrow> world option" where
  "world_run [] w = Some w"
| "world_run (e # es) w = (case world_next e w of None \<Rightarrow> None | Some w' \<Rightarrow> world_run es w')"

lemma world_run_append:
  "world_run (es @ fs) w = (case world_run es w of None \<Rightarrow> None | Some w' \<Rightarrow> world_run fs w')"
  by (induction es arbitrary: w) (auto split: option.splits)

lemma world_run_invariant:
  assumes "world_run es w = Some w'" and "P w"
    and "\<And>e w w'. P w \<Longrightarrow> world_next e w = Some w' \<Longrightarrow> P w'"
  shows "P w'"
  using assms(1,2)
  by (induction es arbitrary: w) (auto split: option.splits intro: assms(3))

section \<open>The abstract server\<close>

text \<open>One queue, one job in service, served in the order of arrival.\<close>

record 'j fifo =
  ff_queue :: "'j list"
  ff_serving :: "'j option"
  ff_served :: "'j list"

inductive fifo_step :: "'j fifo \<Rightarrow> 'j fifo \<Rightarrow> bool" where
  Enqueue: "fifo_step f (f\<lparr> ff_queue := ff_queue f @ [j] \<rparr>)"
| Serve: "ff_queue f = j # q \<Longrightarrow> ff_serving f = None
    \<Longrightarrow> fifo_step f (f\<lparr> ff_queue := q, ff_serving := Some j \<rparr>)"
| Complete: "ff_serving f = Some j
    \<Longrightarrow> fifo_step f (f\<lparr> ff_serving := None, ff_served := ff_served f @ [j] \<rparr>)"

inductive_simps fifo_step_simps: "fifo_step f g"

definition fifo_of :: "driver \<Rightarrow> job fifo" where
  "fifo_of d = \<lparr> ff_queue = dr_pending d @ dr_inbox d, ff_serving = map_option fst (dr_current d),
     ff_served = dr_done d \<rparr>"

lemmas driver_ops = arrive_def take_next_def watch_inbox_def reply_def call_op_def op_over_def
  with_driver_def with_session_def

lemma fifo_arrive: "arrive r d = Some d' \<Longrightarrow> fifo_step (fifo_of d) (fifo_of d')"
  by (auto simp: arrive_def fifo_of_def fifo_step_simps Let_def split: if_splits)

lemma fifo_take:
  "take_next d = Some d' \<Longrightarrow> fifo_of d' = fifo_of d \<or> fifo_step (fifo_of d) (fifo_of d')"
  by (cases "dr_pending d"; cases "dr_inbox d"; cases "dr_current d")
    (auto simp: take_next_def fifo_of_def fifo_step_simps split: if_splits)

lemma fifo_watch: "watch_inbox d = Some (b, d') \<Longrightarrow> fifo_of d' = fifo_of d"
  by (auto simp: watch_inbox_def fifo_of_def split: option.splits if_splits list.splits)

lemma fifo_reply: "reply d = Some d' \<Longrightarrow> fifo_step (fifo_of d) (fifo_of d')"
  by (auto simp: reply_def fifo_of_def fifo_step_simps split: option.splits stage.splits)

lemma fifo_over: "fifo_of (op_over c d) = fifo_of d"
  by (auto simp: op_over_def fifo_of_def split: caller.splits option.splits stage.splits)

lemma driver_refines_fifo:
  assumes "world_next e w = Some w'"
  shows "fifo_of (w_driver w') = fifo_of (w_driver w)
    \<or> fifo_step (fifo_of (w_driver w)) (fifo_of (w_driver w'))"
proof (cases e)
  case CallOp
  with assms show ?thesis by (auto simp: call_op_def fifo_of_def split: option.splits stage.splits)
next
  case HandlesDropped
  with assms show ?thesis by (auto simp: fifo_of_def)
qed (use assms in \<open>auto simp: with_driver_def with_session_def fifo_over
    dest: fifo_arrive fifo_take fifo_watch fifo_reply split: option.splits holder.splits\<close>)

section \<open>Invariants\<close>

lemma session_step_cancel: "session_step s (snd (session_cancel s))"
  by (rule session_step.SessionCancel [of s "fst (session_cancel s)"]) simp

lemma world_session_step:
  assumes "world_next e w = Some w'"
  shows "w_session w' = w_session w \<or> session_step (w_session w) (w_session w')"
  using assms
  by (cases e)
    (auto simp: driver_ops Let_def intro: session_step.intros session_step_cancel
      split: if_splits option.splits list.splits stage.splits caller.splits prod.splits holder.splits)

lemma world_session_ok:
  "world_next e w = Some w' \<Longrightarrow> session_ok (w_session w) \<Longrightarrow> session_ok (w_session w')"
  using world_session_step session_ok_step by metis

text \<open>Nothing is lost: what arrived is what is served, in service and still queued, in order.\<close>

definition driver_ok :: "driver \<Rightarrow> bool" where
  "driver_ok d \<longleftrightarrow>
     dr_arrivals d = dr_done d @ (case dr_current d of None \<Rightarrow> [] | Some (j, _) \<Rightarrow> [j])
       @ dr_pending d @ dr_inbox d
     \<and> map fst (dr_arrivals d) = [0..<length (dr_arrivals d)]
     \<and> (dr_closed d \<longrightarrow> dr_inbox d = [] \<and> \<not> dr_handles d)
     \<and> (dr_returned d \<longrightarrow> dr_current d = None \<and> dr_pending d = [] \<and> dr_inbox d = [])"

lemma driver_ok_new [simp]: "driver_ok driver_new"
  by (simp add: driver_ok_def driver_new_def)

lemma driver_ok_arrive: "arrive r d = Some d' \<Longrightarrow> driver_ok d \<Longrightarrow> driver_ok d'"
  by (auto simp: driver_ok_def arrive_def Let_def split: if_splits)

lemma driver_ok_take: "take_next d = Some d' \<Longrightarrow> driver_ok d \<Longrightarrow> driver_ok d'"
  by (auto simp: driver_ok_def take_next_def split: if_splits list.splits option.splits)

lemma driver_ok_watch: "watch_inbox d = Some (b, d') \<Longrightarrow> driver_ok d \<Longrightarrow> driver_ok d'"
  by (auto simp: driver_ok_def watch_inbox_def split: if_splits list.splits option.splits)

lemma driver_ok_reply: "reply d = Some d' \<Longrightarrow> driver_ok d \<Longrightarrow> driver_ok d'"
  by (auto simp: driver_ok_def reply_def split: option.splits stage.splits)

lemma driver_ok_stage:
  "dr_current d = Some (j, st) \<Longrightarrow> driver_ok d \<Longrightarrow> driver_ok (d\<lparr> dr_current := Some (j, st') \<rparr>)"
  by (auto simp: driver_ok_def)

lemma driver_ok_over: "driver_ok d \<Longrightarrow> driver_ok (op_over c d)"
  by (auto simp: op_over_def driver_ok_stage split: caller.splits option.splits stage.splits)

lemma driver_ok_next:
  assumes "world_next e w = Some w'" and "driver_ok (w_driver w)"
  shows "driver_ok (w_driver w')"
proof (cases e)
  case CallOp
  with assms show ?thesis
    by (auto simp: call_op_def driver_ok_stage split: option.splits stage.splits)
next
  case HandlesDropped
  with assms show ?thesis by (auto simp: driver_ok_def)
qed (use assms in \<open>auto simp: with_driver_def with_session_def driver_ok_over
    intro: driver_ok_arrive driver_ok_take driver_ok_watch driver_ok_reply
    split: option.splits holder.splits\<close>)

text \<open>The writes of a run are never interleaved with another's: their tokens only grow.\<close>

definition writes_ok :: "world \<Rightarrow> bool" where
  "writes_ok w \<longleftrightarrow> sorted (w_writes w) \<and> (\<forall>t \<in> set (w_writes w). t < se_next (w_session w))
     \<and> (\<forall>c t. se_holder (w_session w) = Live c t
          \<longrightarrow> t + 1 = se_next (w_session w) \<and> (\<forall>u \<in> set (w_writes w). u \<le> t))"

lemma writes_ok_new [simp]: "writes_ok world_new"
  by (simp add: writes_ok_def world_new_def session_new_def)

lemma writes_ok_next:
  "world_next e w = Some w' \<Longrightarrow> writes_ok w \<Longrightarrow> writes_ok w'"
  by (cases e)
    (auto simp: writes_ok_def driver_ops session_ops Let_def sorted_append less_Suc_eq order.strict_implies_order
      split: if_splits option.splits list.splits stage.splits caller.splits prod.splits holder.splits)

definition world_ok :: "world \<Rightarrow> bool" where
  "world_ok w \<longleftrightarrow> driver_ok (w_driver w) \<and> session_ok (w_session w) \<and> writes_ok w"

lemma world_ok_run: "world_run es world_new = Some w \<Longrightarrow> world_ok w"
  by (erule world_run_invariant)
    (auto simp: world_ok_def world_new_def [THEN arg_cong [of _ _ w_driver]]
        world_new_def [THEN arg_cong [of _ _ w_session]]
      dest: driver_ok_next world_session_ok writes_ok_next)

end
