(* ===== verification/Driver_Properties.thy ===== *)
theory Driver_Properties
  imports Sync_Driver
begin

text \<open>
  The properties of the sync driver and its session: the loop refines a first-in first-out
  server and loses nothing, the runs write one after the other, a preempting request reaches
  the sync in service and nobody else once that sync holds the session, no state is stuck; and
  the one case where the preempting request misses its sync.
\<close>

section \<open>Progress\<close>

text \<open>Only the request in service waits for the session; a job that is not in it does not hold it.\<close>

fun holder_of :: "'c holder \<Rightarrow> 'c option" where
  "holder_of Free = None"
| "holder_of (Granted c) = Some c"
| "holder_of (Live c t) = Some c"
| "holder_of (Ended c) = Some c"

definition joined_ok :: "world \<Rightarrow> bool" where
  "joined_ok w \<longleftrightarrow>
     (let s = w_session w; outside = (\<forall>i. holder_of (se_holder s) \<noteq> Some (Job i))
      in case dr_current (w_driver w) of
           Some ((i, r), InSession) \<Rightarrow>
             se_waiting s = [Job i] \<and> outside
             \<or> se_waiting s = [] \<and> holder_of (se_holder s) = Some (Job i)
         | _ \<Rightarrow> se_waiting s = [] \<and> outside)"

lemma joined_ok_new [simp]: "joined_ok world_new"
  by (simp add: joined_ok_def world_new_def driver_new_def session_new_def)

lemma holder_of_cancel [simp]:
  "se_holder (snd (session_cancel s)) = se_holder s" "se_waiting (snd (session_cancel s)) = se_waiting s"
  by (auto simp: session_cancel_def split: option.split)

lemma take_next_current:
  "take_next d = Some d' \<Longrightarrow> dr_current d = None
     \<and> (dr_current d' = None \<or> (\<exists>job. dr_current d' = Some (job, Called)))"
  by (cases "dr_current d") (auto simp: take_next_def split: if_splits list.splits)

lemma watch_inbox_current: "watch_inbox d = Some (b, d') \<Longrightarrow> dr_current d' = dr_current d"
  by (auto simp: watch_inbox_def split: option.splits if_splits list.splits)

lemma joined_ok_next:
  assumes "world_next e w = Some w'" and "joined_ok w"
  shows "joined_ok w'"
proof (cases e)
  case TakeNext
  with assms obtain d' where d: "take_next (w_driver w) = Some d'" "w' = w\<lparr> w_driver := d' \<rparr>"
    by (auto simp: with_driver_def)
  from take_next_current [OF d(1)] assms(2) show ?thesis
    by (auto simp: joined_ok_def d(2) Let_def)
next
  case WatchInbox
  with assms(1) obtain b d' where d: "watch_inbox (w_driver w) = Some (b, d')"
    "w' = w\<lparr> w_driver := d', w_session := (if b then snd (session_cancel (w_session w)) else w_session w) \<rparr>"
    by (auto split: option.splits)
  from watch_inbox_current [OF d(1)] assms(2) show ?thesis
    by (auto simp: joined_ok_def d(2) Let_def split: option.splits stage.splits prod.splits)
next
  case Release
  with assms show ?thesis
    by (auto simp: joined_ok_def Let_def with_session_def lock_release_def op_over_def
        split: holder.splits caller.splits option.splits stage.splits if_splits)
qed (use assms in \<open>auto simp: joined_ok_def Let_def driver_ops session_ops
    split: if_splits option.splits stage.splits holder.splits list.splits\<close>)

text \<open>What is left to do before every request that arrived is answered.\<close>

fun stage_rank :: "stage \<Rightarrow> nat" where
  "stage_rank Called = 8"
| "stage_rank InSession = 2"
| "stage_rank Over = 1"

fun holder_rank :: "'c holder \<Rightarrow> nat" where
  "holder_rank (Granted _) = 3"
| "holder_rank (Live _ _) = 2"
| "holder_rank (Ended _) = 1"
| "holder_rank Free = 0"

definition world_rank :: "world \<Rightarrow> nat" where
  "world_rank w =
     10 * length (dr_pending (w_driver w) @ dr_inbox (w_driver w))
     + (case dr_current (w_driver w) of None \<Rightarrow> 0 | Some (j, st) \<Rightarrow> stage_rank st)
     + (if se_waiting (w_session w) = [] then 0 else 4) + holder_rank (se_holder (w_session w))"

definition internal :: "event \<Rightarrow> bool" where
  "internal e \<longleftrightarrow> e \<in> {TakeNext, CallOp, Reply, Grant, Publish, DropRun, Release}"

lemma world_progress:
  assumes "world_ok w" and "joined_ok w" and "dr_done (w_driver w) \<noteq> dr_arrivals (w_driver w)"
  shows "\<exists>e w'. internal e \<and> world_next e w = Some w' \<and> world_rank w' < world_rank w
    \<and> dr_arrivals (w_driver w') = dr_arrivals (w_driver w)"
proof (cases "dr_current (w_driver w)")
  case None
  have d: "driver_ok (w_driver w)" using assms(1) by (simp add: world_ok_def)
  with None assms(3) have "dr_pending (w_driver w) @ dr_inbox (w_driver w) \<noteq> []"
    by (auto simp: driver_ok_def)
  moreover have "dr_closed (w_driver w) \<longrightarrow> dr_inbox (w_driver w) = []"
    using d by (simp add: driver_ok_def)
  moreover have "\<not> dr_returned (w_driver w)" using d calculation(1) by (auto simp: driver_ok_def)
  ultimately have "\<exists>w'. world_next TakeNext w = Some w' \<and> world_rank w' < world_rank w
      \<and> dr_arrivals (w_driver w') = dr_arrivals (w_driver w)"
    using None by (cases "dr_pending (w_driver w)"; cases "dr_inbox (w_driver w)"; cases "dr_closed (w_driver w)")
      (simp_all add: with_driver_def take_next_def world_rank_def)
  then show ?thesis by (meson internal_def insertI1)
next
  case (Some c)
  then obtain i r st where c: "dr_current (w_driver w) = Some ((i, r), st)" by (cases c) auto
  show ?thesis
  proof (cases st)
    case Called
    with c show ?thesis
      by (intro exI [of _ CallOp]) (simp add: internal_def call_op_def begin_wait_def world_rank_def)
  next
    case Over
    with c show ?thesis
      by (intro exI [of _ Reply]) (simp add: internal_def reply_def with_driver_def world_rank_def)
  next
    case InSession
    let ?s = "w_session w"
    show ?thesis
    proof (cases "se_holder ?s")
      case Free
      with assms(2) c InSession have "se_waiting ?s = [Job i]" by (simp add: joined_ok_def Let_def)
      with Free show ?thesis
        by (intro exI [of _ Grant])
          (simp add: internal_def with_session_def lock_grant_def world_rank_def)
    next
      case (Granted x)
      then show ?thesis
        by (intro exI [of _ Publish])
          (simp add: internal_def with_session_def run_publish_def world_rank_def)
    next
      case (Live x t)
      then show ?thesis
        by (intro exI [of _ DropRun])
          (simp add: internal_def with_session_def run_drop_def world_rank_def)
    next
      case (Ended x)
      have "(case dr_current (op_over x (w_driver w)) of None \<Rightarrow> 0 | Some (j, st) \<Rightarrow> stage_rank st) \<le> 2"
        "dr_pending (op_over x (w_driver w)) = dr_pending (w_driver w)"
        "dr_inbox (op_over x (w_driver w)) = dr_inbox (w_driver w)"
        "dr_arrivals (op_over x (w_driver w)) = dr_arrivals (w_driver w)"
        using c InSession by (auto simp: op_over_def split: caller.split)
      with Ended c InSession show ?thesis
        by (intro exI [of _ Release])
          (simp add: internal_def with_session_def lock_release_def world_rank_def)
    qed
  qed
qed

lemma world_drains:
  assumes "world_ok w" and "joined_ok w"
  shows "\<exists>es w'. list_all internal es \<and> world_run es w = Some w'
    \<and> dr_done (w_driver w') = dr_arrivals (w_driver w) \<and> length es \<le> world_rank w"
  using assms
proof (induction "world_rank w" arbitrary: w rule: less_induct)
  case less
  show ?case
  proof (cases "dr_done (w_driver w) = dr_arrivals (w_driver w)")
    case True
    then show ?thesis by (intro exI [of _ "[]"]) simp
  next
    case False
    obtain e w1 where e: "internal e" "world_next e w = Some w1" "world_rank w1 < world_rank w"
      "dr_arrivals (w_driver w1) = dr_arrivals (w_driver w)"
      using world_progress [OF less.prems False] by blast
    have "world_ok w1"
      using less.prems(1) e(2) by (auto simp: world_ok_def dest: driver_ok_next world_session_ok writes_ok_next)
    moreover have "joined_ok w1" using joined_ok_next e(2) less.prems(2) by blast
    ultimately obtain es w' where es: "list_all internal es" "world_run es w1 = Some w'"
      "dr_done (w_driver w') = dr_arrivals (w_driver w1)" "length es \<le> world_rank w1"
      using less.hyps [OF e(3)] by blast
    with e show ?thesis by (intro exI [of _ "e # es"] exI [of _ w']) auto
  qed
qed

lemma joined_ok_run: "world_run es world_new = Some w \<Longrightarrow> joined_ok w"
  by (erule world_run_invariant) (auto dest: joined_ok_next)

section \<open>Properties\<close>

text \<open>A sync in service, two requests behind it, and the run of the sync about to be live.\<close>

definition ex_sync :: request where "ex_sync = SyncReq [1] 100 1000 100 True"

definition ex_started :: "event list" where
  "ex_started = [Arrive ex_sync, TakeNext, CallOp, Grant, Publish, Write]"

definition ex_finished :: "event list" where
  "ex_finished = [DropRun, Release, Reply]"

text \<open>
  C17: the driver is a first-in first-out server. Whatever its callers do and however the loop,
  the session and the other runs interleave, the driver refines a server with one queue that
  serves one request at a time; what arrived is exactly what is answered, in service and
  queued, in the order of arrival; and the loop returns only once every request is answered.
\<close>

theorem driver_is_a_fifo_server:
  assumes "world_run es world_new = Some w"
  shows "fifo_step\<^sup>*\<^sup>* (fifo_of driver_new) (fifo_of (w_driver w))
    \<and> dr_arrivals (w_driver w) = ff_served (fifo_of (w_driver w))
        @ (case ff_serving (fifo_of (w_driver w)) of None \<Rightarrow> [] | Some j \<Rightarrow> [j])
        @ ff_queue (fifo_of (w_driver w))
    \<and> (dr_returned (w_driver w) \<longrightarrow> dr_done (w_driver w) = dr_arrivals (w_driver w))"
proof -
  have "fifo_step\<^sup>*\<^sup>* (fifo_of (w_driver world_new)) (fifo_of (w_driver w))"
    by (rule world_run_invariant [OF assms, of "\<lambda>w. fifo_step\<^sup>*\<^sup>* (fifo_of (w_driver world_new)) (fifo_of (w_driver w))"])
      (auto dest: driver_refines_fifo intro: rtranclp.rtrancl_into_rtrancl)
  moreover have "driver_ok (w_driver w)" using world_ok_run [OF assms] by (simp add: world_ok_def)
  ultimately show ?thesis
    by (auto simp: fifo_of_def driver_ok_def world_new_def split: option.splits)
qed

theorem driver_is_a_fifo_server_witness:
  "\<exists>w. world_run (ex_started @ [Arrive (DeleteReq 7), WatchInbox] @ ex_finished @ [TakeNext]) world_new = Some w
     \<and> ff_served (fifo_of (w_driver w)) = [(0, ex_sync)]
     \<and> ff_serving (fifo_of (w_driver w)) = Some (1, DeleteReq 7)
     \<and> dr_arrivals (w_driver w) = [(0, ex_sync), (1, DeleteReq 7)]"
proof -
  let ?es = "ex_started @ [Arrive (DeleteReq 7), WatchInbox] @ ex_finished @ [TakeNext]"
  have "case world_run ?es world_new of Some w \<Rightarrow> fifo_of (w_driver w)
      = \<lparr> ff_queue = [], ff_serving = Some (1, DeleteReq 7), ff_served = [(0, ex_sync)] \<rparr> | None \<Rightarrow> False"
    by code_simp
  then obtain w where w: "world_run ?es world_new = Some w"
    "fifo_of (w_driver w) = \<lparr> ff_queue = [], ff_serving = Some (1, DeleteReq 7), ff_served = [(0, ex_sync)] \<rparr>"
    by (auto split: option.splits)
  with driver_is_a_fifo_server [OF w(1)] show ?thesis by simp
qed



lemma cancelled_stays:
  "world_run es w = Some w' \<Longrightarrow> t \<in> se_cancelled (w_session w) \<Longrightarrow> t \<in> se_cancelled (w_session w')"
  by (erule world_run_invariant) (auto dest!: world_session_step dest: session_sticky [THEN subsetD])

text \<open>
  A preempting request stops the sync. When a rewind or a delete is taken in while the
  sync in service holds the session with its run live, the token of that run is cancelled, no
  other token is, and from then on every check of the run fails, whatever happens next.
\<close>

theorem preempting_request_cancels_the_sync:
  assumes "world_run es world_new = Some w"
    and "dr_current (w_driver w) = Some ((i, r), st)" and "is_sync r"
    and "se_holder (w_session w) = Live (Job i) t"
    and "dr_inbox (w_driver w) = (j, q) # rest" and "preempts q"
    and "world_next WatchInbox w = Some w'" and "world_run tail w' = Some later"
  shows "check_cancelled t (w_session later) = Inl ''Sync canceled''
    \<and> se_cancelled (w_session w') = insert t (se_cancelled (w_session w))
    \<and> dr_pending (w_driver w') = dr_pending (w_driver w) @ [(j, q)]"
proof -
  have "se_cancel (w_session w) = Some t"
    using world_ok_run [OF assms(1)] assms(4) by (simp add: world_ok_def session_ok_def)
  then have w': "se_cancelled (w_session w') = insert t (se_cancelled (w_session w))"
    "dr_pending (w_driver w') = dr_pending (w_driver w) @ [(j, q)]"
    using assms(2,3,5-7)
    by (auto simp: watch_inbox_def session_cancel_def split: if_splits)
  moreover have "t \<in> se_cancelled (w_session later)"
    using cancelled_stays [OF assms(8)] w'(1) by simp
  ultimately show ?thesis by (simp add: check_cancelled_def was_cancelled_def)
qed

theorem preempting_request_cancels_the_sync_witness:
  "\<exists>later. world_run (ex_started @ [Arrive (DeleteReq 7), WatchInbox, Write]) world_new = Some later
     \<and> check_cancelled 0 (w_session later) = Inl ''Sync canceled''"
proof -
  let ?es = "ex_started @ [Arrive (DeleteReq 7)]"
  have "case world_run ?es world_new of None \<Rightarrow> False
    | Some w \<Rightarrow> dr_current (w_driver w) = Some ((0, ex_sync), InSession)
        \<and> se_holder (w_session w) = Live (Job 0) 0
        \<and> dr_inbox (w_driver w) = [(1, DeleteReq 7)] \<and> world_run [WatchInbox, Write] w \<noteq> None"
    by code_simp
  then obtain w later where w: "world_run ?es world_new = Some w"
    "dr_current (w_driver w) = Some ((0, ex_sync), InSession)" "se_holder (w_session w) = Live (Job 0) 0"
    "dr_inbox (w_driver w) = [(1, DeleteReq 7)]" "world_run [WatchInbox, Write] w = Some later"
    by (auto split: option.splits)
  then obtain w' where w': "world_next WatchInbox w = Some w'" "world_run [Write] w' = Some later"
    by (auto split: option.splits)
  have "is_sync ex_sync" "preempts (DeleteReq 7)" by (simp_all add: ex_sync_def)
  from preempting_request_cancels_the_sync [OF w(1,2) this(1) w(3,4) this(2) w']
  have "check_cancelled 0 (w_session later) = Inl ''Sync canceled''" by blast
  moreover have "world_run (?es @ [WatchInbox, Write]) world_new = Some later"
    using w(1,5) by (simp only: world_run_append option.case)
  ultimately show ?thesis by auto
qed

text \<open>
  C19: the driver never gets stuck. From every state it can reach, with no new request and no
  cancel, the loop, the session and the runs that hold it can go on, in a number of steps
  bounded by the work left, until every request that arrived has been answered.
\<close>

theorem driver_never_stuck:
  assumes "world_run es world_new = Some w"
  shows "\<exists>tail w'. list_all internal tail \<and> world_run tail w = Some w'
    \<and> dr_done (w_driver w') = dr_arrivals (w_driver w) \<and> length tail \<le> world_rank w"
  using world_drains [OF world_ok_run [OF assms] joined_ok_run [OF assms]] .

theorem driver_never_stuck_witness:
  "\<exists>w tail w'. world_run [OutsiderTries 1, Publish, Arrive ex_sync, TakeNext, CallOp, Arrive (DeleteReq 7)]
       world_new = Some w
     \<and> list_all internal tail \<and> world_run tail w = Some w'
     \<and> dr_done (w_driver w') = dr_arrivals (w_driver w) \<and> length tail \<le> world_rank w"
proof -
  let ?es = "[OutsiderTries 1, Publish, Arrive ex_sync, TakeNext, CallOp, Arrive (DeleteReq 7)]"
  have "world_run ?es world_new \<noteq> None" by code_simp
  then obtain w where w: "world_run ?es world_new = Some w" by blast
  with driver_never_stuck [OF w] show ?thesis by blast
qed


end
