(* ===== verification/Effects.thy ===== *)
theory Effects
  imports Zkool_Prelude
begin

text \<open>
  Programs with effects and errors. An async function of the source that writes the wallet
  and returns a \<open>Result\<close> is a function from the wallet to its outcome and the wallet it
  leaves: unlike a plain sum, an error keeps what was written before it, which is how the
  source behaves outside a database transaction; inside one, \<open>atomic\<close> takes it back. The
  rules at the end are the Hoare rules the components prove their invariants with.
\<close>

section \<open>Programs\<close>

type_synonym ('e, 'w, 'a) prog = "'w \<Rightarrow> ('e + 'a) \<times> 'w"

definition ret :: "'a \<Rightarrow> ('e, 'w, 'a) prog" where
  "ret x = (\<lambda>w. (Inr x, w))"

definition fail :: "'e \<Rightarrow> ('e, 'w, 'a) prog" where
  "fail e = (\<lambda>w. (Inl e, w))"

text \<open>\<open>m.await?\<close> and then the rest.\<close>

definition andthen :: "('e, 'w, 'a) prog \<Rightarrow> ('a \<Rightarrow> ('e, 'w, 'b) prog) \<Rightarrow> ('e, 'w, 'b) prog" where
  "andthen m f = (\<lambda>w. case m w of (Inl e, w') \<Rightarrow> (Inl e, w') | (Inr x, w') \<Rightarrow> f x w')"

definition gets :: "('w \<Rightarrow> 'a) \<Rightarrow> ('e, 'w, 'a) prog" where
  "gets f = (\<lambda>w. (Inr (f w), w))"

definition modify :: "('w \<Rightarrow> 'w) \<Rightarrow> ('e, 'w, unit) prog" where
  "modify f = (\<lambda>w. (Inr (), f w))"

text \<open>A lookup that is an error when it finds nothing, and a check.\<close>

definition the_or :: "'e \<Rightarrow> 'a option \<Rightarrow> ('e, 'w, 'a) prog" where
  "the_or e x = (case x of None \<Rightarrow> fail e | Some y \<Rightarrow> ret y)"

definition ensure :: "bool \<Rightarrow> 'e \<Rightarrow> ('e, 'w, unit) prog" where
  "ensure b e = (if b then ret () else fail e)"

definition lift_sum :: "'e + 'a \<Rightarrow> ('e, 'w, 'a) prog" where
  "lift_sum r = (\<lambda>w. (r, w))"

text \<open>A database transaction: an error rolls it back.\<close>

definition atomic :: "('e, 'w, 'a) prog \<Rightarrow> ('e, 'w, 'a) prog" where
  "atomic m = (\<lambda>w. case m w of (Inl e, _) \<Rightarrow> (Inl e, w) | (Inr x, w') \<Rightarrow> (Inr x, w'))"

fun for_each :: "('a \<Rightarrow> ('e, 'w, unit) prog) \<Rightarrow> 'a list \<Rightarrow> ('e, 'w, unit) prog" where
  "for_each f [] = ret ()"
| "for_each f (x # xs) = andthen (f x) (\<lambda>_. for_each f xs)"

lemmas prog_simps = ret_def fail_def gets_def modify_def lift_sum_def

lemma andthen_simps [simp]:
  "andthen (ret x) f = f x"
  "andthen (fail e) f = fail e"
  "andthen (gets g) f w = f (g w) w"
  "andthen (modify k) h w = h () (k w)"
  "andthen (lift_sum (Inr x)) f = f x"
  "andthen (lift_sum (Inl e)) f = fail e"
  by (simp_all add: andthen_def prog_simps fun_eq_iff)

lemma the_or_simps [simp]: "the_or e None = fail e" "the_or e (Some x) = ret x"
  by (simp_all add: the_or_def)

lemma ensure_simps [simp]: "ensure True e = ret ()" "ensure False e = fail e"
  by (simp_all add: ensure_def)

section \<open>What a program leaves behind\<close>

text \<open>\<open>R\<close> relates the wallet before to the wallet after, whatever the outcome.\<close>

definition steps :: "('w \<Rightarrow> 'w \<Rightarrow> bool) \<Rightarrow> ('e, 'w, 'a) prog \<Rightarrow> bool" where
  "steps R m = (\<forall>w. R w (snd (m w)))"

text \<open>From \<open>P\<close>, a result satisfies \<open>Q\<close> and an error leaves \<open>E\<close>.\<close>

definition triple ::
  "('w \<Rightarrow> bool) \<Rightarrow> ('e, 'w, 'a) prog \<Rightarrow> ('a \<Rightarrow> 'w \<Rightarrow> bool) \<Rightarrow> ('w \<Rightarrow> bool) \<Rightarrow> bool" where
  "triple P m Q E = (\<forall>w. P w \<longrightarrow> (case m w of (Inl e, w') \<Rightarrow> E w' | (Inr x, w') \<Rightarrow> Q x w'))"

locale two_state =
  fixes R :: "'w \<Rightarrow> 'w \<Rightarrow> bool"
  assumes refl: "R w w"
    and trans: "R u v \<Longrightarrow> R v w \<Longrightarrow> R u w"
begin

lemma steps_pure [intro, simp]:
  "steps R (ret x)" "steps R (fail e)" "steps R (gets g)" "steps R (lift_sum r)"
  "steps R (the_or e y)" "steps R (ensure b e)"
  by (simp_all add: steps_def prog_simps refl the_or_def ensure_def split: option.split)

lemma steps_modify: "(\<And>w. R w (f w)) \<Longrightarrow> steps R (modify f)"
  by (simp add: steps_def modify_def)

lemma steps_andthen [intro]: "steps R m \<Longrightarrow> (\<And>x. steps R (f x)) \<Longrightarrow> steps R (andthen m f)"
  unfolding steps_def andthen_def
  by (auto split: prod.split sum.split) (metis snd_conv trans)+

lemma steps_atomic [intro]: "steps R m \<Longrightarrow> steps R (atomic m)"
  unfolding steps_def atomic_def by (auto simp: refl split: prod.split sum.split) (metis snd_conv)

lemma steps_for_each [intro]: "(\<And>x. x \<in> set xs \<Longrightarrow> steps R (f x)) \<Longrightarrow> steps R (for_each f xs)"
  by (induction xs) auto

end

lemma triple_ret: "(\<And>w. P w \<Longrightarrow> Q x w) \<Longrightarrow> triple P (ret x) Q E"
  by (simp add: triple_def prog_simps)

lemma triple_andthen:
  "triple P m M E \<Longrightarrow> (\<And>x. triple (M x) (f x) Q E) \<Longrightarrow> triple P (andthen m f) Q E"
  unfolding triple_def andthen_def by (fastforce split: prod.splits sum.splits)

lemma triple_gets: "(\<And>x. triple (\<lambda>w. P w \<and> x = g w) (f x) Q E) \<Longrightarrow> triple P (andthen (gets g) f) Q E"
  by (auto simp: triple_def)

lemma triple_atomic: "triple P m Q (\<lambda>_. True) \<Longrightarrow> triple P (atomic m) Q P"
  unfolding triple_def atomic_def by (fastforce split: prod.splits sum.splits)

lemma tripleD:
  "triple P m Q E \<Longrightarrow> P w \<Longrightarrow> m w = (Inr x, w') \<Longrightarrow> Q x w'"
  "triple P m Q E \<Longrightarrow> P w \<Longrightarrow> m w = (Inl e, w') \<Longrightarrow> E w'"
  by (auto simp: triple_def dest!: spec [of _ w])

end
