(* ===== verification/Frost_Store.thy ===== *)
theory Frost_Store
  imports Broadcast Effects
begin

text \<open>
  What the FROST protocols keep in the wallet (\<open>rust/src/frost/protocol.rs\<close>,
  \<open>rust/src/frost/dkg/mod.rs\<close>): the tables of the DKG and of a signing session, the
  properties, and the write-ahead publish of a protocol message, which is a transaction whose
  bytes, txid and expiry are committed before it is sent.

  The cryptography, the byte formats of the libraries, the planner and signer of the message
  transaction and the server are parameters: the records \<open>frost_lib\<close> and \<open>server\<close>.
  A table without a use for its order is a map from its primary key.
\<close>

section \<open>Tables\<close>

record dkg_params_row =
  dp_id :: u8
  dp_n :: u8
  dp_t :: u8
  dp_seed :: string
  dp_birth_height :: u32
  dp_name :: string
  dp_version :: u8
  dp_sk :: "blob option"

text \<open>The outgoing bytes of a round, staged before the message transaction is planned.\<close>

record pending_publish =
  pp_round :: u8
  pp_recipients :: "(string \<times> blob) list"

record dkg_state_row =
  ds_signing_key :: "blob option"
  ds_spkg1 :: "blob option"
  ds_spkg2 :: "blob option"
  ds_key_pkg :: "blob option"
  ds_pending :: "pending_publish option"

record peer_row =
  pe_account :: u32
  pe_round :: u8
  pe_from :: u8
  pe_data :: blob

record address_row =
  ad_account :: u32
  ad_from :: u8
  ad_address :: string

text \<open>The columns of \<open>accounts\<close> and \<open>orchard_accounts\<close> that the protocols read.\<close>

record wallet_account =
  wa_id :: u32
  wa_name :: string
  wa_seed :: "string option"
  wa_internal :: bool
  wa_xsk :: "blob option"
  wa_xvk :: "blob option"

record signature_row =
  sg_account :: u32
  sg_sighash :: blob
  sg_idx :: u32
  sg_nonce :: blob
  sg_package :: "blob option"
  sg_randomizer :: "blob option"
  sg_share :: "blob option"
  sg_signature :: "blob option"

record commitment_row =
  cm_account :: u32
  cm_sighash :: blob
  cm_idx :: u32
  cm_from :: u32
  cm_commitment :: blob
  cm_share :: "blob option"

text \<open>\<open>fw_posted\<close> is what the wallet has handed to the server, in order.\<close>

record frost_wallet =
  fw_log :: db
  fw_props :: "string \<rightharpoonup> string"
  fw_params :: "u32 \<rightharpoonup> dkg_params_row"
  fw_addresses :: "address_row list"
  fw_state :: "u32 \<rightharpoonup> dkg_state_row"
  fw_peers :: "peer_row list"
  fw_accounts :: "wallet_account list"
  fw_signatures :: "signature_row list"
  fw_commitments :: "commitment_row list"
  fw_posted :: "blob list"

section \<open>Parameters\<close>

datatype frost_error =
    NoFeasibleSelection
  | Library
  | Panicked
  | SendFailed "unit post_error"
  | BadMarker string
  | NotHex
  | NotAHeight string
  | ConflictingPackage u8 u8
  | BadParams
  | IdOutOfGroup u8
  | InProgress
  | NoParams
  | AddressesIncomplete
  | InputMissing
  | NoAccount
  | ConstraintFailed
  | InvalidRound u8
  | TooManyEffects
  | SigningAborted u32 nat
  | DuplicateAction
  | NotAGroup u32
  | BadCoordinator u8
  | NoExpiry
  | ForeignTransaction

type_synonym 'a frost = "(frost_error, frost_wallet, 'a) prog"

record signed_tx =
  stx_bytes :: blob
  stx_txid :: blob
  stx_expiry :: u32

text \<open>
  \<open>fl_plan\<close> plans, signs and extracts the message transaction; \<open>fl_memo\<close> answers the
  payload of an arbitrary memo; \<open>fl_package\<close> is a round-1 or round-2 package read and
  written back; \<open>fl_part1\<close>, \<open>fl_part2\<close> and \<open>fl_part3\<close> are the parts of the FROST
  key generation, the randomness of this run included.
\<close>

record frost_lib =
  fl_read :: "branch_id \<Rightarrow> blob \<Rightarrow> unit parsed_tx option"
  fl_plan :: "db \<Rightarrow> u32 \<Rightarrow> (string \<times> blob) list \<Rightarrow> frost_error + signed_tx"
  fl_memo :: "blob \<Rightarrow> blob option"
  fl_encode :: "u8 \<times> blob \<Rightarrow> blob option"
  fl_decode :: "blob \<Rightarrow> (u8 \<times> blob) option"
  fl_vk_ok :: "blob \<Rightarrow> bool"
  fl_signing_key :: blob
  fl_verifying_key :: "blob \<Rightarrow> blob"
  fl_package :: "u8 \<Rightarrow> blob \<Rightarrow> blob option"
  fl_part1 :: "u8 \<Rightarrow> u8 \<Rightarrow> u8 \<Rightarrow> (blob \<times> blob) option"
  fl_part2 :: "blob \<Rightarrow> (u8 \<times> blob) list \<Rightarrow> (blob \<times> (u8 \<times> blob) list) option"
  fl_part3 :: "blob \<Rightarrow> (u8 \<times> blob) list \<Rightarrow> (u8 \<times> blob) list \<Rightarrow> (blob \<times> blob) option"
  fl_broadcast_seed :: "string list \<Rightarrow> string"
  fl_fresh_seed :: string
  fl_orchard_keys :: "string \<Rightarrow> blob \<times> blob"
  fl_address :: "blob \<Rightarrow> string"
  fl_group_key :: "blob \<Rightarrow> blob option"
  fl_group_fvk :: "u8 \<Rightarrow> blob \<Rightarrow> blob \<Rightarrow> blob option"

record server =
  sv_latest :: "unit + u32"
  sv_post :: "u32 \<Rightarrow> blob \<Rightarrow> unit + string"

section \<open>Heights in decimal\<close>

definition digit :: "nat \<Rightarrow> char" where
  "digit n = char_of (48 + n)"

fun show_nat :: "nat \<Rightarrow> string" where
  "show_nat n = (if n < 10 then [digit n] else show_nat (n div 10) @ [digit (n mod 10)])"

declare show_nat.simps [simp del]

definition digit_value :: "char \<Rightarrow> nat option" where
  "digit_value c = (let n = of_char c :: nat in if 48 \<le> n \<and> n \<le> 57 then Some (n - 48) else None)"

text \<open>\<open>parse::<u32>\<close>: an optional plus sign, at least one digit, no overflow.\<close>

fun parse_digits :: "nat \<Rightarrow> string \<Rightarrow> u32 option" where
  "parse_digits acc [] = Some acc"
| "parse_digits acc (c # cs) =
     (case digit_value c of
        None \<Rightarrow> None
      | Some d \<Rightarrow> if 10 * acc + d \<le> u32_max then parse_digits (10 * acc + d) cs else None)"

definition parse_u32 :: "string \<Rightarrow> u32 option" where
  "parse_u32 s =
     (case s of
        [] \<Rightarrow> None
      | c # cs \<Rightarrow>
          if c = CHR ''+'' then (if cs = [] then None else parse_digits 0 cs) else parse_digits 0 s)"

lemma digit_value_digit: "n < 10 \<Longrightarrow> digit_value (digit n) = Some n"
  by (simp add: digit_value_def digit_def Let_def)

lemma parse_digits_snoc:
  "parse_digits acc cs = Some a \<Longrightarrow> d < 10 \<Longrightarrow> 10 * a + d \<le> u32_max \<Longrightarrow>
   parse_digits acc (cs @ [digit d]) = Some (10 * a + d)"
  by (induction acc cs rule: parse_digits.induct)
    (auto simp: digit_value_digit split: option.splits if_splits)

lemma parse_show_digits: "n \<le> u32_max \<Longrightarrow> parse_digits 0 (show_nat n) = Some n"
proof (induction n rule: show_nat.induct)
  case (1 n)
  then show ?case
    by (subst show_nat.simps) (auto simp: digit_value_digit intro!: parse_digits_snoc
        [where a = "n div 10" and d = "n mod 10" and acc = 0, simplified])
qed

lemma show_nat_hd: "\<exists>d cs. d < 10 \<and> show_nat n = digit d # cs"
proof (induction n rule: show_nat.induct)
  case (1 n)
  then show ?case by (subst show_nat.simps) (auto, blast)
qed

lemma digit_not_plus: "d < 10 \<Longrightarrow> digit d \<noteq> CHR ''+''"
  using digit_value_digit [of d] by (auto simp: digit_value_def Let_def)

lemma parse_u32_show: "n \<le> u32_max \<Longrightarrow> parse_u32 (show_nat n) = Some n"
  using show_nat_hd [of n] parse_show_digits [of n] digit_not_plus
  by (auto simp: parse_u32_def)

end
