(* ===== verification/Frost_Publish.thy ===== *)
theory Frost_Publish
  imports Frost_Store
begin

text \<open>
  The write-ahead publish of a protocol message (\<open>rust/src/frost/protocol.rs\<close>). The marker
  of a message is three properties: the txid under \<open>key\<close>, the bytes and the expiry height
  under the two keys derived from it. Staging writes them with the locks on the notes the
  transaction spends; the scan that finds it mined, or the tip that passes its expiry, clears
  them.
\<close>

section \<open>Properties of the wallet\<close>

definition put_prop :: "string \<Rightarrow> string \<Rightarrow> unit frost" where
  "put_prop key v = modify (\<lambda>w. w\<lparr> fw_props := (fw_props w)(key \<mapsto> v) \<rparr>)"

definition get_prop :: "string \<Rightarrow> string option frost" where
  "get_prop key = gets (\<lambda>w. fw_props w key)"

definition DKG_LAST_TXID_PROP :: string where "DKG_LAST_TXID_PROP = ''dkg_last_txid''"
definition SIGN_LAST_TXID_PROP :: string where "SIGN_LAST_TXID_PROP = ''frost_last_txid''"

definition publish_tx_prop :: "string \<Rightarrow> string" where
  "publish_tx_prop key = key @ ''_tx''"

definition publish_expiry_prop :: "string \<Rightarrow> string" where
  "publish_expiry_prop key = key @ ''_expiry''"

lemma marker_keys_distinct [simp]:
  "publish_tx_prop key \<noteq> key" "key \<noteq> publish_tx_prop key"
  "publish_expiry_prop key \<noteq> key" "key \<noteq> publish_expiry_prop key"
  "publish_tx_prop key \<noteq> publish_expiry_prop key" "publish_expiry_prop key \<noteq> publish_tx_prop key"
  by (simp_all add: publish_tx_prop_def publish_expiry_prop_def)

section \<open>Publishing\<close>

definition to_arb_memo :: "blob \<Rightarrow> blob" where
  "to_arb_memo bytes = 255 # bytes"

text \<open>\<open>post\<close> asks the height first; a server that does not answer it is handed nothing.\<close>

definition post_to :: "server \<Rightarrow> blob \<Rightarrow> sent frost" where
  "post_to sv tx_bytes = (\<lambda>w.
     (case post (sv_latest sv) (sv_post sv) tx_bytes of Inl e \<Rightarrow> Inl (SendFailed e) | Inr s \<Rightarrow> Inr s,
      case sv_latest sv of Inl _ \<Rightarrow> w | Inr _ \<Rightarrow> w\<lparr> fw_posted := fw_posted w @ [tx_bytes] \<rparr>))"

definition on_log :: "(db \<Rightarrow> unit + db) \<Rightarrow> unit frost" where
  "on_log f = (\<lambda>w. case f (fw_log w) of
       Inl _ \<Rightarrow> (Inl Library, w)
     | Inr db \<Rightarrow> (Inr (), w\<lparr> fw_log := db \<rparr>))"

definition stage_publish :: "frost_lib \<Rightarrow> u32 \<Rightarrow> (string \<times> blob) list \<Rightarrow> string \<Rightarrow> blob frost" where
  "stage_publish lib account recipients key =
     andthen (gets fw_log) (\<lambda>db.
     andthen (lift_sum (fl_plan lib db account (map (\<lambda>(a, data). (a, to_arb_memo data)) recipients))) (\<lambda>tx.
     andthen (ensure (parse_transaction (fl_read lib) (stx_bytes tx) \<noteq> None) Library) (\<lambda>_.
     andthen (on_log (lock_spent_notes (fl_read lib) account (stx_bytes tx))) (\<lambda>_.
     andthen (put_prop key (hex_encode (stx_txid tx))) (\<lambda>_.
     andthen (put_prop (publish_tx_prop key) (hex_encode (stx_bytes tx))) (\<lambda>_.
     andthen (put_prop (publish_expiry_prop key) (show_nat (stx_expiry tx))) (\<lambda>_.
       ret (stx_bytes tx))))))))"

definition send_staged :: "server \<Rightarrow> blob \<Rightarrow> string frost" where
  "send_staged sv tx_bytes = andthen (post_to sv tx_bytes) (\<lambda>s. ret (st_response s))"

text \<open>A rejection is logged, not returned.\<close>

definition resend_publish :: "server \<Rightarrow> string \<Rightarrow> unit frost" where
  "resend_publish sv key =
     andthen (get_prop (publish_tx_prop key)) (\<lambda>tx_hex.
       case tx_hex of
         None \<Rightarrow> ret ()
       | Some hex \<Rightarrow>
           andthen (the_or NotHex (hex_decode hex)) (\<lambda>tx_bytes w. (Inr (), snd (post_to sv tx_bytes w))))"

definition clear_publish :: "string \<Rightarrow> unit frost" where
  "clear_publish key = modify (\<lambda>w. w\<lparr> fw_props := (fw_props w)
     (key := None, publish_tx_prop key := None, publish_expiry_prop key := None) \<rparr>)"

definition transaction_known :: "u32 \<Rightarrow> blob \<Rightarrow> db \<Rightarrow> bool" where
  "transaction_known account txid db =
     list_ex (\<lambda>r. tx_account r = account \<and> (tx_txid r = txid \<or> tx_txid r = rev txid)) (db_transactions db)"

definition publish_unmined :: "string \<Rightarrow> u32 \<Rightarrow> bool frost" where
  "publish_unmined key funding_account =
     andthen (get_prop key) (\<lambda>marker.
       case marker of
         None \<Rightarrow> ret False
       | Some txid_hex \<Rightarrow>
           (case hex_decode txid_hex of
              None \<Rightarrow> fail (BadMarker txid_hex)
            | Some txid \<Rightarrow>
                if length txid \<noteq> 32 then fail (BadMarker txid_hex)
                else andthen (gets (\<lambda>w. transaction_known funding_account txid (fw_log w))) (\<lambda>mined.
                  if mined then andthen (clear_publish key) (\<lambda>_. ret False) else ret True)))"

definition publish_expired :: "frost_lib \<Rightarrow> string \<Rightarrow> u32 \<Rightarrow> u32 \<Rightarrow> bool frost" where
  "publish_expired lib key funding_account height =
     andthen (get_prop (publish_expiry_prop key)) (\<lambda>marker.
       case marker of
         None \<Rightarrow> ret False
       | Some s \<Rightarrow>
           andthen (the_or (NotAHeight s) (parse_u32 s)) (\<lambda>expiry.
             if expiry = 0 \<or> height < expiry then ret False
             else andthen (get_prop (publish_tx_prop key)) (\<lambda>tx_hex.
               andthen (case tx_hex of
                   None \<Rightarrow> ret ()
                 | Some hex \<Rightarrow>
                     andthen (the_or NotHex (hex_decode hex)) (\<lambda>tx_bytes.
                       on_log (unlock_spent_notes (fl_read lib) funding_account tx_bytes))) (\<lambda>_.
               andthen (clear_publish key) (\<lambda>_. ret True)))))"

section \<open>What the marker says\<close>

definition signed_ok :: "signed_tx \<Rightarrow> bool" where
  "signed_ok tx = (list_all (\<lambda>b. b < 256) (stx_bytes tx) \<and> list_all (\<lambda>b. b < 256) (stx_txid tx)
     \<and> length (stx_txid tx) = 32 \<and> 0 < stx_expiry tx \<and> stx_expiry tx \<le> u32_max)"

definition cleared :: "string \<Rightarrow> frost_wallet \<Rightarrow> frost_wallet" where
  "cleared key w = w\<lparr> fw_props := (fw_props w)
     (key := None, publish_tx_prop key := None, publish_expiry_prop key := None) \<rparr>"

definition marked :: "string \<Rightarrow> signed_tx \<Rightarrow> frost_wallet \<Rightarrow> bool" where
  "marked key tx w = (fw_props w key = Some (hex_encode (stx_txid tx))
     \<and> fw_props w (publish_tx_prop key) = Some (hex_encode (stx_bytes tx))
     \<and> fw_props w (publish_expiry_prop key) = Some (show_nat (stx_expiry tx)))"

lemma clear_publish_eq: "clear_publish key w = (Inr (), cleared key w)"
  by (simp add: clear_publish_def modify_def cleared_def)

lemma hex_roundtrip_all: "list_all (\<lambda>b. b < 256) bytes \<Longrightarrow> hex_decode (hex_encode bytes) = Some bytes"
  by (simp add: hex_roundtrip list_all_iff)

lemma publish_unmined_marked:
  assumes "marked key tx w" and "signed_ok tx"
  shows "publish_unmined key account w =
    (if transaction_known account (stx_txid tx) (fw_log w) then (Inr False, cleared key w) else (Inr True, w))"
  using assms by (simp add: publish_unmined_def marked_def signed_ok_def get_prop_def hex_roundtrip_all
      andthen_def clear_publish_eq prog_simps)

lemma resend_publish_marked:
  assumes "marked key tx w" and "signed_ok tx"
  shows "resend_publish sv key w = (Inr (), snd (post_to sv (stx_bytes tx) w))"
  using assms by (simp add: resend_publish_def marked_def signed_ok_def get_prop_def hex_roundtrip_all)

lemma publish_expired_marked:
  assumes "marked key tx w" and "signed_ok tx"
  shows "publish_expired lib key account height w =
    (if height < stx_expiry tx then (Inr False, w)
     else case unlock_spent_notes (fl_read lib) account (stx_bytes tx) (fw_log w) of
       Inl _ \<Rightarrow> (Inl Library, w)
     | Inr db \<Rightarrow> (Inr True, cleared key (w\<lparr> fw_log := db \<rparr>)))"
  using assms
  by (auto simp: publish_expired_def marked_def signed_ok_def get_prop_def hex_roundtrip_all
      parse_u32_show on_log_def andthen_def clear_publish_eq prog_simps split: sum.split)

lemma stage_publish_ok:
  assumes "stage_publish lib account recipients key w = (Inr bytes, w')"
  obtains tx db where
    "fl_plan lib (fw_log w) account (map (\<lambda>(a, data). (a, to_arb_memo data)) recipients) = Inr tx"
    "bytes = stx_bytes tx" "lock_spent_notes (fl_read lib) account bytes (fw_log w) = Inr db"
    "w' = w\<lparr> fw_log := db, fw_props := (fw_props w)(key \<mapsto> hex_encode (stx_txid tx),
        publish_tx_prop key \<mapsto> hex_encode (stx_bytes tx),
        publish_expiry_prop key \<mapsto> show_nat (stx_expiry tx)) \<rparr>"
  using assms
  by (auto simp: stage_publish_def andthen_def prog_simps put_prop_def on_log_def ensure_def
      split: sum.splits if_splits)

lemma stage_publish_marked:
  assumes "stage_publish lib account recipients key w = (Inr bytes, w')"
  obtains tx where
    "fl_plan lib (fw_log w) account (map (\<lambda>(a, data). (a, to_arb_memo data)) recipients) = Inr tx"
    "bytes = stx_bytes tx" "marked key tx w'"
  using assms by (rule stage_publish_ok) (simp add: marked_def)

end
