(* ===== verification/Dkg_Store.thy ===== *)
theory Dkg_Store
  imports Frost_Publish
begin

text \<open>
  The tables of the distributed key generation (\<open>rust/src/frost/dkg/mod.rs\<close>,
  \<open>rust/src/frost/protocol.rs\<close>): its parameters and setup guards, the participants'
  addresses, the two helper accounts, the packages of the peers and their ingest from the
  memos, and the teardown. Of a new account the rows that the protocol reads are modelled,
  its name, seed and Orchard key; its other keys and checkpoints belong to the account
  component.
\<close>

section \<open>Setup\<close>

definition MAX_THRESHOLD :: u8 where "MAX_THRESHOLD = 13"
definition DKG_VERSION_1 :: u8 where "DKG_VERSION_1 = 1"
definition DKG_VERSION_2 :: u8 where "DKG_VERSION_2 = 2"

definition is_recoverable :: "u8 \<Rightarrow> bool" where
  "is_recoverable version = (DKG_VERSION_2 \<le> version)"

definition check_dkg_params :: "u8 \<Rightarrow> u8 \<Rightarrow> u8 \<Rightarrow> frost_error + unit" where
  "check_dkg_params ident n t =
     (if t < 2 \<or> n < t then Inl BadParams
      else if MAX_THRESHOLD < t then Inl BadParams
      else if ident < 1 \<or> n < ident then Inl BadParams
      else Inr ())"

definition is_signing_in_progress :: "frost_wallet \<Rightarrow> bool" where
  "is_signing_in_progress w = (fw_props w ''frost_pczt'' \<noteq> None)"

definition dkg_in_progress :: "frost_wallet \<Rightarrow> bool" where
  "dkg_in_progress w = (\<not> is_signing_in_progress w \<and> fw_props w ''dkg_account'' \<noteq> None)"

definition check_no_dkg :: "unit frost" where
  "check_no_dkg =
     andthen (gets is_signing_in_progress) (\<lambda>signing.
     andthen (ensure (\<not> signing) InProgress) (\<lambda>_.
     andthen (gets dkg_in_progress) (\<lambda>running. ensure (\<not> running) InProgress)))"

text \<open>A plain insert of a property fails when the key is taken.\<close>

definition insert_prop :: "string \<Rightarrow> string \<Rightarrow> unit frost" where
  "insert_prop key v =
     andthen (gets (\<lambda>w. fw_props w key)) (\<lambda>old.
     andthen (ensure (old = None) ConstraintFailed) (\<lambda>_. put_prop key v))"

definition insert_params :: "u32 \<Rightarrow> dkg_params_row \<Rightarrow> unit frost" where
  "insert_params account row =
     andthen (gets (\<lambda>w. fw_params w account)) (\<lambda>old.
     andthen (ensure (old = None) ConstraintFailed) (\<lambda>_.
       modify (\<lambda>w. w\<lparr> fw_params := (fw_params w)(account \<mapsto> row) \<rparr>)))"

definition set_dkg_params ::
  "server \<Rightarrow> string \<Rightarrow> u8 \<Rightarrow> u8 \<Rightarrow> u8 \<Rightarrow> u32 \<Rightarrow> u8 \<Rightarrow> unit frost" where
  "set_dkg_params sv name ident n t funding_account dkg_version =
     andthen (lift_sum (check_dkg_params ident n t)) (\<lambda>_.
     andthen (lift_sum (map_sum (\<lambda>e. SendFailed (ServerError e)) id (sv_latest sv))) (\<lambda>height.
       atomic (andthen check_no_dkg (\<lambda>_.
         andthen (insert_params funding_account \<lparr> dp_id = ident, dp_n = n, dp_t = t, dp_seed = [],
             dp_birth_height = add32 (sat_sub height 10000) 1, dp_name = name,
             dp_version = dkg_version, dp_sk = None \<rparr>) (\<lambda>_.
           insert_prop ''dkg_account'' (show_nat funding_account))))))"

text \<open>An insert that replaces the address of a row already there.\<close>

definition store_address :: "u32 \<Rightarrow> u8 \<Rightarrow> string \<Rightarrow> unit frost" where
  "store_address account ident address =
     modify (\<lambda>w. w\<lparr> fw_addresses :=
       (if list_ex (\<lambda>r. ad_account r = account \<and> ad_from r = ident) (fw_addresses w)
        then update_where (\<lambda>r. ad_account r = account \<and> ad_from r = ident)
               (\<lambda>r. r\<lparr> ad_address := address \<rparr>) (fw_addresses w)
        else fw_addresses w @ [\<lparr> ad_account = account, ad_from = ident, ad_address = address \<rparr>]) \<rparr>)"

definition set_dkg_address :: "u32 \<Rightarrow> u8 \<Rightarrow> u8 \<Rightarrow> u8 \<Rightarrow> string \<Rightarrow> unit frost" where
  "set_dkg_address account ident my_id n address =
     andthen (ensure (1 \<le> ident \<and> ident \<le> n) (IdOutOfGroup ident)) (\<lambda>_.
       if ident = my_id then ret ()
       else store_address account ident address)"

section \<open>Addresses and helper accounts\<close>

text \<open>Slot \<open>from_id - 1\<close> of a vector of \<open>n\<close>; outside it the source panics.\<close>

fun place_addresses :: "address_row list \<Rightarrow> string list \<Rightarrow> string list panics" where
  "place_addresses [] addresses = Some addresses"
| "place_addresses (r # rs) addresses =
     (if sub8 (ad_from r) 1 < length addresses
      then place_addresses rs (addresses[sub8 (ad_from r) 1 := ad_address r])
      else None)"

definition addresses_of :: "u32 \<Rightarrow> frost_wallet \<Rightarrow> address_row list" where
  "addresses_of account w = filter (\<lambda>r. ad_account r = account) (fw_addresses w)"

definition get_addresses :: "u32 \<Rightarrow> u8 \<Rightarrow> string list frost" where
  "get_addresses account n =
     andthen (gets (addresses_of account)) (\<lambda>rows.
       the_or Panicked (place_addresses rows (replicate n [])))"

definition find_by_seed :: "string \<Rightarrow> frost_wallet \<Rightarrow> wallet_account option" where
  "find_by_seed seed w = List.find (\<lambda>a. wa_seed a = Some seed) (fw_accounts w)"

definition find_account :: "u32 \<Rightarrow> frost_wallet \<Rightarrow> wallet_account option" where
  "find_account account w = List.find (\<lambda>a. wa_id a = account) (fw_accounts w)"

definition mailbox_account_id :: "u32 \<Rightarrow> frost_wallet \<Rightarrow> u32 option" where
  "mailbox_account_id params_account w =
     (case fw_params w params_account of
        None \<Rightarrow> None
      | Some p \<Rightarrow> if dp_seed p = [] then None else map_option wa_id (find_by_seed (dp_seed p) w))"

text \<open>The account and its key, by the seed.\<close>

definition find_orchard_by_seed :: "string \<Rightarrow> frost_wallet \<Rightarrow> (u32 \<times> blob) option" where
  "find_orchard_by_seed seed w =
     (case List.find (\<lambda>a. wa_seed a = Some seed \<and> wa_xvk a \<noteq> None) (fw_accounts w) of
        None \<Rightarrow> None
      | Some a \<Rightarrow> Some (wa_id a, the (wa_xvk a)))"

definition ordered_addresses :: "u32 \<Rightarrow> frost_wallet \<Rightarrow> string list" where
  "ordered_addresses account w = map ad_address (sort_key ad_from (addresses_of account w))"

definition lookup_broadcast_account :: "frost_lib \<Rightarrow> u32 \<Rightarrow> frost_wallet \<Rightarrow> (u32 \<times> string) option" where
  "lookup_broadcast_account lib account w =
     (let addresses = ordered_addresses account w
      in if list_ex (\<lambda>a. a = []) addresses then None
         else map_option (\<lambda>(i, xvk). (i, fl_address lib xvk))
                (find_orchard_by_seed (fl_broadcast_seed lib addresses) w))"

definition new_account :: "frost_lib \<Rightarrow> string \<Rightarrow> string \<Rightarrow> u32 frost" where
  "new_account lib name key = (\<lambda>w.
     let seed = (if key = [] then fl_fresh_seed lib else key);
         account = next_id wa_id (fw_accounts w);
         keys = fl_orchard_keys lib seed
     in (Inr account, w\<lparr> fw_accounts := fw_accounts w @ [\<lparr> wa_id = account, wa_name = name,
          wa_seed = Some seed, wa_internal = True, wa_xsk = Some (fst keys), wa_xvk = Some (snd keys) \<rparr>] \<rparr>))"

definition mailbox_address :: "frost_lib \<Rightarrow> u32 \<Rightarrow> string frost" where
  "mailbox_address lib account =
     andthen (gets (\<lambda>w. Option.bind (find_account account w) wa_xvk)) (\<lambda>xvk.
       the_or NoAccount (map_option (fl_address lib) xvk))"

definition set_params :: "u32 \<Rightarrow> (dkg_params_row \<Rightarrow> dkg_params_row) \<Rightarrow> unit frost" where
  "set_params account f =
     modify (\<lambda>w. w\<lparr> fw_params := (fw_params w)(account := map_option f (fw_params w account)) \<rparr>)"

definition create_mailbox :: "frost_lib \<Rightarrow> u32 \<Rightarrow> string \<Rightarrow> u32 frost" where
  "create_mailbox lib account seed =
     andthen (new_account lib ''frost-mailbox'' seed) (\<lambda>mailbox.
     andthen (gets (\<lambda>w. Option.bind (find_account mailbox w) wa_seed)) (\<lambda>found.
     andthen (the_or NoAccount found) (\<lambda>mnemonic.
     andthen (set_params account (\<lambda>p. p\<lparr> dp_seed := mnemonic \<rparr>)) (\<lambda>_. ret mailbox))))"

definition get_mailbox_account :: "frost_lib \<Rightarrow> u32 \<Rightarrow> u8 \<Rightarrow> (u32 \<times> string) frost" where
  "get_mailbox_account lib account self_id = atomic (
     andthen (gets (\<lambda>w. case fw_params w account of None \<Rightarrow> [] | Some p \<Rightarrow> dp_seed p)) (\<lambda>seed.
     andthen (gets (\<lambda>w. map_option ad_address
        (List.find (\<lambda>r. ad_account r = account \<and> ad_from r = self_id) (fw_addresses w)))) (\<lambda>stored_address.
     andthen (gets (\<lambda>w. if seed = [] then None else map_option wa_id (find_by_seed seed w))) (\<lambda>existing.
     andthen (case existing of Some mailbox \<Rightarrow> ret mailbox | None \<Rightarrow> create_mailbox lib account seed) (\<lambda>mailbox.
     andthen (mailbox_address lib mailbox) (\<lambda>address.
     andthen (if stored_address = Some address then ret () else store_address account self_id address) (\<lambda>_.
       ret (mailbox, address))))))))"

text \<open>
  The loop of the source looks the account up, creates it when it is missing and looks again;
  an account found the second time ends it.
\<close>

definition get_coordinator_broadcast_account :: "frost_lib \<Rightarrow> u32 \<Rightarrow> (u32 \<times> string) frost" where
  "get_coordinator_broadcast_account lib account =
     andthen (gets (\<lambda>w. fl_broadcast_seed lib (ordered_addresses account w))) (\<lambda>seed.
     andthen (gets (find_orchard_by_seed seed)) (\<lambda>found.
     andthen (case found of
         Some _ \<Rightarrow> ret ()
       | None \<Rightarrow> andthen (new_account lib ''frost-broadcast'' seed) (\<lambda>_. ret ())) (\<lambda>_.
     andthen (gets (find_orchard_by_seed seed)) (\<lambda>found.
     andthen (the_or NoAccount found) (\<lambda>(i, xvk). ret (i, fl_address lib xvk))))))"

section \<open>Packages of the peers\<close>

text \<open>Round 0 sends the message key and the version; a bare key is a version-1 build's.\<close>

record round0_pkg =
  r0_key :: blob
  r0_version :: u8

definition round0_to_bytes :: "round0_pkg \<Rightarrow> blob" where
  "round0_to_bytes p = r0_key p @ [r0_version p]"

definition round0_from_bytes :: "frost_lib \<Rightarrow> blob \<Rightarrow> round0_pkg option" where
  "round0_from_bytes lib data =
     (if length data \<noteq> 32 \<and> length data \<noteq> 33 then None
      else if fl_vk_ok lib (take 32 data)
           then Some \<lparr> r0_key = take 32 data,
                  r0_version = (if length data = 32 then DKG_VERSION_1 else data ! 32) \<rparr>
           else None)"

definition round_prefix :: "u8 \<Rightarrow> blob" where
  "round_prefix round = map of_char
     (if round = 0 then ''DK00'' else if round = 1 then ''DK11'' else ''DK21'')"

text \<open>A package as it is stored: read from the message and written back.\<close>

definition public_bytes :: "frost_lib \<Rightarrow> u8 \<Rightarrow> blob \<Rightarrow> blob option" where
  "public_bytes lib round data =
     (if round = 0 then map_option round0_to_bytes (round0_from_bytes lib data)
      else fl_package lib round data)"

definition peer_at :: "u32 \<Rightarrow> u8 \<Rightarrow> u8 \<Rightarrow> frost_wallet \<Rightarrow> peer_row option" where
  "peer_at account round from w =
     List.find (\<lambda>r. pe_account r = account \<and> pe_round r = round \<and> pe_from r = from) (fw_peers w)"

definition store_peer_package :: "u32 \<Rightarrow> u8 \<Rightarrow> u8 \<Rightarrow> blob \<Rightarrow> unit frost" where
  "store_peer_package account round from data =
     andthen (gets (peer_at account round from)) (\<lambda>slot.
       case slot of
         None \<Rightarrow> modify (\<lambda>w. w\<lparr> fw_peers := fw_peers w @
           [\<lparr> pe_account = account, pe_round = round, pe_from = from, pe_data = data \<rparr>] \<rparr>)
       | Some r \<Rightarrow> ensure (pe_data r = data) (ConflictingPackage round from))"

text \<open>The messages of a round among the memos of an account, in row order.\<close>

definition round_messages :: "frost_lib \<Rightarrow> u8 \<Rightarrow> u32 \<Rightarrow> frost_wallet \<Rightarrow> (u8 \<times> blob) list" where
  "round_messages lib round mailbox w =
     List.map_filter (\<lambda>r. case fl_memo lib (me_bytes r) of
         None \<Rightarrow> None
       | Some pkg \<Rightarrow> if length pkg < 4 \<or> take 4 pkg \<noteq> round_prefix round then None
                    else fl_decode lib (drop 4 pkg))
       (filter (\<lambda>r. me_account r = mailbox) (db_memos (fw_log w)))"

definition ingest_message :: "frost_lib \<Rightarrow> u8 \<Rightarrow> u32 \<Rightarrow> u8 \<Rightarrow> u8 \<times> blob \<Rightarrow> unit frost" where
  "ingest_message lib round account participant_count msg =
     (let (from, data) = msg
      in if \<not> (1 \<le> from \<and> from \<le> participant_count) then ret ()
         else case public_bytes lib round data of
           None \<Rightarrow> ret ()
         | Some p \<Rightarrow> store_peer_package account round from p)"

definition decode_dkg_memos :: "frost_lib \<Rightarrow> u8 \<Rightarrow> u32 \<Rightarrow> u32 \<Rightarrow> unit frost" where
  "decode_dkg_memos lib round account mailbox =
     andthen (gets (\<lambda>w. fw_params w account)) (\<lambda>params.
     andthen (the_or NoParams params) (\<lambda>p.
     andthen (gets (round_messages lib round mailbox)) (\<lambda>msgs.
       for_each (ingest_message lib round account (dp_n p)) msgs)))"

definition publics_of :: "u32 \<Rightarrow> u8 \<Rightarrow> frost_wallet \<Rightarrow> (u8 \<times> blob) list" where
  "publics_of account round w = map (\<lambda>r. (pe_from r, pe_data r))
     (filter (\<lambda>r. pe_account r = account \<and> pe_round r = round) (fw_peers w))"

section \<open>Teardown\<close>

text \<open>SQLite's \<open>LIKE\<close>: \<open>_\<close> is any character, ASCII case is ignored; the pattern ends in \<open>%\<close>.\<close>

definition lower :: "char \<Rightarrow> char" where
  "lower c = (let n = of_char c :: nat in if 65 \<le> n \<and> n \<le> 90 then char_of (n + 32) else c)"

fun like_prefix :: "string \<Rightarrow> string \<Rightarrow> bool" where
  "like_prefix [] _ = True"
| "like_prefix (_ # _) [] = False"
| "like_prefix (p # ps) (c # cs) = ((p = CHR ''_'' \<or> lower p = lower c) \<and> like_prefix ps cs)"

definition delete_props_like :: "string \<Rightarrow> unit frost" where
  "delete_props_like pat = modify (\<lambda>w. w\<lparr> fw_props := (\<lambda>k. if like_prefix pat k then None else fw_props w k) \<rparr>)"

definition delete_account :: "u32 \<Rightarrow> unit frost" where
  "delete_account account = modify (\<lambda>w. w\<lparr>
     fw_params := (fw_params w)(account := None),
     fw_addresses := delete_where (\<lambda>r. ad_account r = account) (fw_addresses w),
     fw_state := (fw_state w)(account := None),
     fw_peers := delete_where (\<lambda>r. pe_account r = account) (fw_peers w),
     fw_signatures := delete_where (\<lambda>r. sg_account r = account) (fw_signatures w),
     fw_commitments := delete_where (\<lambda>r. cm_account r = account) (fw_commitments w),
     fw_log := delete_account_data account (fw_log w),
     fw_accounts := delete_where (\<lambda>r. wa_id r = account) (fw_accounts w) \<rparr>)"

definition frost_accounts :: "frost_wallet \<Rightarrow> u32 list" where
  "frost_accounts w = map wa_id
     (filter (\<lambda>a. like_prefix ''frost-'' (wa_name a) \<and> wa_internal a) (fw_accounts w))"

definition delete_frost_state :: "unit frost" where
  "delete_frost_state =
     andthen (modify (\<lambda>w. w\<lparr> fw_signatures := [], fw_commitments := [] \<rparr>)) (\<lambda>_.
     andthen (delete_props_like ''frost_'') (\<lambda>_.
     andthen (delete_props_like ''dkg_'') (\<lambda>_.
     andthen (gets frost_accounts) (\<lambda>accounts. for_each delete_account accounts))))"

definition cancel_dkg :: "u32 \<Rightarrow> unit frost" where
  "cancel_dkg account =
     andthen (modify (\<lambda>w. w\<lparr>
       fw_state := (fw_state w)(account := None),
       fw_peers := delete_where (\<lambda>r. pe_account r = account) (fw_peers w),
       fw_addresses := delete_where (\<lambda>r. ad_account r = account) (fw_addresses w),
       fw_params := (fw_params w)(account := None) \<rparr>)) (\<lambda>_.
     andthen (delete_props_like ''dkg_'') (\<lambda>_. delete_frost_state))"

end
