(* ===== verification/Planner.thy ===== *)
theory Planner
  imports Zkool_Prelude
begin

text \<open>
  The contract between a planner and the loop that executes its tasks, shared by the note
  migration, the key generation and the signing session: a task is planned from one
  observation and executed only if a second one still satisfies it.
\<close>

locale planner =
  fixes plan :: "'s \<Rightarrow> 't option"
    and satisfied :: "'t \<Rightarrow> 's \<Rightarrow> bool"
    and ok :: "'s \<Rightarrow> bool"
  assumes planned_satisfied: "ok s \<Longrightarrow> plan s = Some t \<Longrightarrow> satisfied t s"
begin

text \<open>A task refused by the second observation means that the state has moved.\<close>

lemma refused_means_moved:
  "ok s \<Longrightarrow> plan s = Some t \<Longrightarrow> \<not> satisfied t s' \<Longrightarrow> s' \<noteq> s"
  using planned_satisfied by blast

lemma quiet_never_refused: "ok s \<Longrightarrow> s' = s \<Longrightarrow> plan s = Some t \<Longrightarrow> satisfied t s'"
  using planned_satisfied by blast

end

end
