(* ===== verification/Dkg_Plan.thy ===== *)
theory Dkg_Plan
  imports Dkg_Store Planner
begin

text \<open>
  The planner of the key generation: the snapshot it reads (\<open>rust/src/frost/dkg/state.rs\<close>),
  its tasks (\<open>task.rs\<close>), the decision (\<open>plan.rs\<close>), and the statuses a pass reports
  (\<open>step.rs\<close>). The round inputs rebuilt from the stored packages are part of the snapshot.
\<close>

section \<open>State\<close>

record dkg_init =
  di_self_id :: u8
  di_n :: u8
  di_t :: u8
  di_version :: u8

record dkg_state0 =
  s0_init :: dkg_init
  s0_signing_key :: blob
  s0_verifying_key :: blob
  s0_peer_keys :: "(u8 \<times> blob) list"

record dkg_state1 =
  s1_state0 :: dkg_state0
  s1_spkg1 :: blob
  s1_ppkg1s :: "(u8 \<times> blob) list"

record dkg_state2 =
  s2_state1 :: dkg_state1
  s2_spkg2 :: blob
  s2_ppkg2s :: "(u8 \<times> blob) list"

record round_state =
  rs_secret_present :: bool
  rs_others :: u8
  rs_pending :: "u8 option"

record version_mismatch =
  vm_peer :: u8
  vm_ours :: u8
  vm_theirs :: u8

record dkg_obs =
  do_funding_account :: u32
  do_params :: dkg_params_row
  do_addresses :: "string list"
  do_mailbox :: "u32 option"
  do_broadcast :: "u32 option"
  do_broadcast_address :: "string option"
  do_rounds :: "round_state list"
  do_key_pkg_present :: bool
  do_frost_account :: "u32 option"
  do_rekeyed :: bool
  do_version :: u8
  do_mismatch :: "version_mismatch option"
  do_publish_unmined :: bool
  do_state0 :: "dkg_state0 option"
  do_state1 :: "dkg_state1 option"
  do_state2 :: "dkg_state2 option"

definition addresses_complete :: "dkg_obs \<Rightarrow> bool" where
  "addresses_complete s = (length (do_addresses s) = dp_n (do_params s)
     \<and> list_all (\<lambda>a. a \<noteq> []) (do_addresses s))"

definition position :: "('a \<Rightarrow> bool) \<Rightarrow> 'a list \<Rightarrow> nat option" where
  "position P xs = map_option fst (List.find (\<lambda>(i, x). P x) (enumerate 0 xs))"

definition pending_round :: "dkg_obs \<Rightarrow> u8 option" where
  "pending_round s = position (\<lambda>r. rs_pending r \<noteq> None) (do_rounds s)"

section \<open>Tasks\<close>

datatype task_kind = TimeTask | EffectTask | TerminalTask

datatype dkg_task =
    WaitAddresses
  | EnsureAccounts
  | PublishRound u8
  | WaitOwnPublish
  | WaitRound u8
  | FinalizeKey
  | CreateFrostAccount
  | CompleteFinalize
  | VersionMismatch u8 u8 u8
  | DkgDone

fun dkg_kind :: "dkg_task \<Rightarrow> task_kind" where
  "dkg_kind WaitAddresses = TimeTask"
| "dkg_kind (WaitRound _) = TimeTask"
| "dkg_kind WaitOwnPublish = TimeTask"
| "dkg_kind EnsureAccounts = EffectTask"
| "dkg_kind (PublishRound _) = EffectTask"
| "dkg_kind FinalizeKey = EffectTask"
| "dkg_kind CreateFrostAccount = EffectTask"
| "dkg_kind CompleteFinalize = EffectTask"
| "dkg_kind (VersionMismatch _ _ _) = TerminalTask"
| "dkg_kind DkgDone = TerminalTask"

fun dkg_satisfied :: "dkg_task \<Rightarrow> dkg_obs \<Rightarrow> bool" where
  "dkg_satisfied EnsureAccounts s = (do_mailbox s = None \<or> do_broadcast s = None)"
| "dkg_satisfied (PublishRound round) s =
     (let rs = do_rounds s ! round
      in \<not> rs_secret_present rs \<or> rs_pending rs = Some round)"
| "dkg_satisfied FinalizeKey s = (\<not> do_key_pkg_present s)"
| "dkg_satisfied CreateFrostAccount s = (do_frost_account s = None)"
| "dkg_satisfied _ s = True"

section \<open>The decision\<close>

definition finish_task :: "dkg_obs \<Rightarrow> dkg_task" where
  "finish_task s =
     (if \<not> do_key_pkg_present s then FinalizeKey
      else if do_frost_account s = None then CreateFrostAccount
      else CompleteFinalize)"

fun rounds_task :: "dkg_obs \<Rightarrow> u8 list \<Rightarrow> dkg_task" where
  "rounds_task s [] = finish_task s"
| "rounds_task s (round # rounds) =
     (let rs = do_rounds s ! round
      in if \<not> rs_secret_present rs then
           (if do_publish_unmined s then WaitOwnPublish else PublishRound round)
         else if rs_others rs < sat_sub (dp_n (do_params s)) 1 then WaitRound round
         else rounds_task s rounds)"

definition next_dkg_task :: "dkg_obs \<Rightarrow> dkg_task" where
  "next_dkg_task s =
     (if \<not> addresses_complete s then WaitAddresses
      else case do_mismatch s of
        Some m \<Rightarrow> VersionMismatch (vm_peer m) (vm_ours m) (vm_theirs m)
      | None \<Rightarrow>
          if do_mailbox s = None \<or> do_broadcast s = None then EnsureAccounts
          else case pending_round s of
            Some round \<Rightarrow> PublishRound round
          | None \<Rightarrow> rounds_task s [0..<3])"

section \<open>Statuses of a pass\<close>

record dkg_outcome =
  dk_executed :: "dkg_task list"
  dk_shared_address :: "string option"
  dk_waiting_for_funds :: bool
  dk_progress :: "(string \<times> u8 \<times> u8) option"

datatype dkg_status =
    PublishRound0Pkg | PublishRound1Pkg | PublishRound2Pkg
  | WaitRound0Pkg | WaitRound1Pkg | WaitRound2Pkg
  | StatusWaitOwnPublish | Finalize | StatusVersionMismatch u8 u8 u8
  | WaitProgress string u8 u8 | WaitingForFunds | SharedAddress string

fun status_of_task :: "dkg_task \<Rightarrow> dkg_status option" where
  "status_of_task (PublishRound round) =
     (if round = 0 then Some PublishRound0Pkg else if round = 1 then Some PublishRound1Pkg
      else if round = 2 then Some PublishRound2Pkg else None)"
| "status_of_task (WaitRound round) =
     (if round = 0 then Some WaitRound0Pkg else if round = 1 then Some WaitRound1Pkg
      else if round = 2 then Some WaitRound2Pkg else None)"
| "status_of_task WaitOwnPublish = Some StatusWaitOwnPublish"
| "status_of_task FinalizeKey = Some Finalize"
| "status_of_task CreateFrostAccount = Some Finalize"
| "status_of_task CompleteFinalize = Some Finalize"
| "status_of_task (VersionMismatch p u t) = Some (StatusVersionMismatch p u t)"
| "status_of_task _ = None"

definition dkg_statuses :: "dkg_outcome \<Rightarrow> dkg_status list" where
  "dkg_statuses out = List.map_filter status_of_task (dk_executed out)
     @ (case dk_progress out of None \<Rightarrow> [] | Some (what, n, m) \<Rightarrow> [WaitProgress what n m])
     @ (if dk_waiting_for_funds out then [WaitingForFunds] else [])
     @ (case dk_shared_address out of None \<Rightarrow> [] | Some a \<Rightarrow> [SharedAddress a])"

section \<open>The planner's contract\<close>

text \<open>What every observation satisfies: three rounds, and a staged round names its own slot.\<close>

definition obs_ok :: "dkg_obs \<Rightarrow> bool" where
  "obs_ok s = (length (do_rounds s) = 3
     \<and> (\<forall>i < 3. rs_pending (do_rounds s ! i) = None \<or> rs_pending (do_rounds s ! i) = Some i))"

lemma rounds_three: "[0..<3] = [0, 1, 2 :: nat]"
  by (simp add: upt_rec)

lemma all_three: "(\<forall>i < 3. P i) = (P 0 \<and> P (Suc 0) \<and> P (2 :: nat))"
  by (auto simp: less_Suc_eq numeral_3_eq_3 numeral_2_eq_2)

lemma ex_three: "(\<exists>i < 3. P i) = (P 0 \<or> P (Suc 0) \<or> P (2 :: nat))"
  by (auto simp: less_Suc_eq numeral_3_eq_3 numeral_2_eq_2)

lemma pending_round_cases:
  assumes "length (do_rounds s) = 3"
  shows "pending_round s =
    (if rs_pending (do_rounds s ! 0) \<noteq> None then Some 0
     else if rs_pending (do_rounds s ! 1) \<noteq> None then Some 1
     else if rs_pending (do_rounds s ! 2) \<noteq> None then Some 2 else None)"
proof -
  obtain a b c where "do_rounds s = [a, b, c]"
    using assms by (auto simp: numeral_3_eq_3 length_Suc_conv)
  then show ?thesis by (simp add: pending_round_def position_def)
qed

lemmas next_dkg_unfold = next_dkg_task_def rounds_three finish_task_def Let_def sat_sub_def

lemma dkg_planned_satisfied: "obs_ok s \<Longrightarrow> dkg_satisfied (next_dkg_task s) s"
  by (auto simp: next_dkg_unfold pending_round_cases obs_ok_def all_three split: option.split)

interpretation dkg: planner "\<lambda>s. Some (next_dkg_task s)" dkg_satisfied obs_ok
  by unfold_locales (use dkg_planned_satisfied in auto)

text \<open>A new round is published only when every round before it is complete.\<close>

lemma publish_round_planned:
  assumes "next_dkg_task s = PublishRound r" and "obs_ok s" and "rs_pending (do_rounds s ! r) = None"
  shows "r < 3 \<and> \<not> rs_secret_present (do_rounds s ! r) \<and> \<not> do_publish_unmined s
    \<and> (\<forall>q < r. rs_secret_present (do_rounds s ! q) \<and> dp_n (do_params s) - 1 \<le> rs_others (do_rounds s ! q))"
  using assms
  by (auto simp: next_dkg_unfold pending_round_cases obs_ok_def all_three less_Suc_eq numeral_2_eq_2
      split: option.splits if_splits)

lemma finalize_planned:
  assumes "next_dkg_task s \<in> {FinalizeKey, CreateFrostAccount, CompleteFinalize}" and "obs_ok s"
  shows "\<forall>q < 3. rs_secret_present (do_rounds s ! q) \<and> dp_n (do_params s) - 1 \<le> rs_others (do_rounds s ! q)"
  using assms
  by (auto simp: next_dkg_unfold all_three split: option.splits if_splits)

lemma wait_own_publish_planned:
  assumes "next_dkg_task s = WaitOwnPublish"
  shows "\<exists>r < 3. \<not> rs_secret_present (do_rounds s ! r)"
  using assms by (auto simp: next_dkg_unfold ex_three split: option.splits if_splits)

end
