(* ===== verification/Dkg_Step.thy ===== *)
theory Dkg_Step
  imports Dkg_Plan
begin

text \<open>
  One pass of the key generation: the observation (\<open>rust/src/frost/dkg/state.rs\<close>), the
  effects (\<open>exec.rs\<close>), and the loop that plans, observes again and executes, sixteen
  times at most (\<open>step.rs\<close>). What happens around an iteration, namely what another writer does
  to the wallet between the two observations, the server's answers and the cancel flag, is a
  \<open>pass_env\<close>, one per iteration.
\<close>

section \<open>Observation\<close>

text \<open>The row of \<open>dkg_state\<close> that a fetch of a missing one amounts to.\<close>

definition empty_state :: dkg_state_row where
  "empty_state = \<lparr> ds_signing_key = None, ds_spkg1 = None, ds_spkg2 = None, ds_key_pkg = None,
     ds_pending = None \<rparr>"

definition state_of :: "u32 \<Rightarrow> frost_wallet \<Rightarrow> dkg_state_row" where
  "state_of account w = (case fw_state w account of None \<Rightarrow> empty_state | Some s \<Rightarrow> s)"

definition load_secret :: "u8 \<Rightarrow> dkg_state_row \<Rightarrow> blob option" where
  "load_secret round s =
     (if round = 0 then ds_signing_key s else if round = 1 then ds_spkg1 s else ds_spkg2 s)"

definition round_state_of :: "u32 \<Rightarrow> dkg_params_row \<Rightarrow> frost_wallet \<Rightarrow> u8 \<Rightarrow> round_state" where
  "round_state_of account p w round =
     \<lparr> rs_secret_present = load_secret round (state_of account w) \<noteq> None,
       rs_others = length (filter (\<lambda>r. pe_account r = account \<and> pe_round r = round \<and> pe_from r \<noteq> dp_id p)
         (fw_peers w)) mod 2 ^ 8,
       rs_pending = (case ds_pending (state_of account w) of
           None \<Rightarrow> None
         | Some pp \<Rightarrow> if pp_round pp = round then Some (pp_round pp) else None) \<rparr>"

text \<open>The packages of round 0, each under its version; one that does not read is an error.\<close>

fun load_publics0 :: "frost_lib \<Rightarrow> (u8 \<times> blob) list \<Rightarrow> (u8 \<times> round0_pkg) list option" where
  "load_publics0 lib [] = Some []"
| "load_publics0 lib ((i, data) # rs) =
     (case (round0_from_bytes lib data, load_publics0 lib rs) of
        (Some p, Some ps) \<Rightarrow> Some ((i, p) # ps)
      | _ \<Rightarrow> None)"

fun load_publics :: "frost_lib \<Rightarrow> u8 \<Rightarrow> (u8 \<times> blob) list \<Rightarrow> (u8 \<times> blob) list option" where
  "load_publics lib round [] = Some []"
| "load_publics lib round ((i, data) # rs) =
     (case (fl_package lib round data, load_publics lib round rs) of
        (Some p, Some ps) \<Rightarrow> Some ((i, p) # ps)
      | _ \<Rightarrow> None)"

fun first_mismatch :: "dkg_init \<Rightarrow> (u8 \<times> round0_pkg) list \<Rightarrow> version_mismatch option" where
  "first_mismatch init [] = None"
| "first_mismatch init ((i, p) # ps) =
     (if i \<noteq> di_self_id init \<and> r0_version p \<noteq> di_version init
      then Some \<lparr> vm_peer = i, vm_ours = di_version init, vm_theirs = r0_version p \<rparr>
      else first_mismatch init ps)"

definition collect0 ::
  "frost_lib \<Rightarrow> dkg_init \<Rightarrow> blob \<Rightarrow> (u8 \<times> round0_pkg) list \<Rightarrow> version_mismatch + dkg_state0" where
  "collect0 lib init signing_key peers =
     (case first_mismatch init peers of
        Some m \<Rightarrow> Inl m
      | None \<Rightarrow> Inr \<lparr> s0_init = init, s0_signing_key = signing_key,
          s0_verifying_key = fl_verifying_key lib signing_key,
          s0_peer_keys = map (\<lambda>(i, p). (i, r0_key p)) (filter (\<lambda>(i, _). i \<noteq> di_self_id init) peers) \<rparr>)"

text \<open>The packages of the others; participant 0 has no FROST identifier.\<close>

definition others_packages :: "u8 \<Rightarrow> (u8 \<times> blob) list \<Rightarrow> (u8 \<times> blob) list option" where
  "others_packages self_id peers =
     (let others = filter (\<lambda>(i, _). i \<noteq> self_id) peers
      in if list_ex (\<lambda>(i, _). i = 0) others then None else Some others)"

definition collect1 :: "dkg_state0 \<Rightarrow> blob \<Rightarrow> (u8 \<times> blob) list \<Rightarrow> dkg_state1 option" where
  "collect1 s0 spkg1 peers =
     map_option (\<lambda>ps. \<lparr> s1_state0 = s0, s1_spkg1 = spkg1, s1_ppkg1s = ps \<rparr>)
       (others_packages (di_self_id (s0_init s0)) peers)"

definition collect2 :: "dkg_state1 \<Rightarrow> blob \<Rightarrow> (u8 \<times> blob) list \<Rightarrow> dkg_state2 option" where
  "collect2 s1 spkg2 peers =
     map_option (\<lambda>ps. \<lparr> s2_state1 = s1, s2_spkg2 = spkg2, s2_ppkg2s = ps \<rparr>)
       (others_packages (di_self_id (s0_init (s1_state0 s1))) peers)"

text \<open>The chain of inputs: each is rebuilt when its round has our secret and every peer.\<close>

definition need_peers :: "dkg_params_row \<Rightarrow> round_state \<Rightarrow> bool" where
  "need_peers p rs = (rs_secret_present rs \<and> sat_sub (dp_n p) 1 \<le> rs_others rs)"

definition rebuild0 ::
  "frost_lib \<Rightarrow> u32 \<Rightarrow> dkg_params_row \<Rightarrow> frost_wallet
   \<Rightarrow> frost_error + (version_mismatch option \<times> dkg_state0 option)" where
  "rebuild0 lib account p w =
     (if \<not> need_peers p (round_state_of account p w 0) then Inr (None, None)
      else case load_publics0 lib (publics_of account 0 w) of
        None \<Rightarrow> Inl Library
      | Some peers \<Rightarrow>
          (case collect0 lib \<lparr> di_self_id = dp_id p, di_n = dp_n p, di_t = dp_t p, di_version = dp_version p \<rparr>
                  (the (load_secret 0 (state_of account w))) peers of
             Inl m \<Rightarrow> Inr (Some m, None)
           | Inr s0 \<Rightarrow> Inr (None, Some s0)))"

definition rebuild1 ::
  "frost_lib \<Rightarrow> u32 \<Rightarrow> dkg_params_row \<Rightarrow> frost_wallet \<Rightarrow> dkg_state0 option \<Rightarrow> frost_error + dkg_state1 option" where
  "rebuild1 lib account p w s0 =
     (case s0 of
        None \<Rightarrow> Inr None
      | Some s0 \<Rightarrow>
          if \<not> need_peers p (round_state_of account p w 1) then Inr None
          else case load_publics lib 1 (publics_of account 1 w) of
            None \<Rightarrow> Inl Library
          | Some peers \<Rightarrow>
              (case collect1 s0 (the (load_secret 1 (state_of account w))) peers of
                 None \<Rightarrow> Inl Library
               | Some s1 \<Rightarrow> Inr (Some s1)))"

definition rebuild2 ::
  "frost_lib \<Rightarrow> u32 \<Rightarrow> dkg_params_row \<Rightarrow> frost_wallet \<Rightarrow> dkg_state1 option \<Rightarrow> frost_error + dkg_state2 option" where
  "rebuild2 lib account p w s1 =
     (case s1 of
        None \<Rightarrow> Inr None
      | Some s1 \<Rightarrow>
          if \<not> need_peers p (round_state_of account p w 2) then Inr None
          else case load_publics lib 2 (publics_of account 2 w) of
            None \<Rightarrow> Inl Library
          | Some peers \<Rightarrow>
              (case collect2 s1 (the (load_secret 2 (state_of account w))) peers of
                 None \<Rightarrow> Inl Library
               | Some s2 \<Rightarrow> Inr (Some s2)))"

text \<open>Which account holds the rows: the funding account, then the frost account.\<close>

definition frost_account_prop :: "frost_wallet \<Rightarrow> u32 option" where
  "frost_account_prop w = Option.bind (fw_props w ''dkg_frost_account'') parse_u32"

definition params_account_of :: "u32 \<Rightarrow> frost_wallet \<Rightarrow> (dkg_params_row \<times> u32 \<times> bool) option" where
  "params_account_of funding_account w =
     (case fw_params w funding_account of
        Some p \<Rightarrow> Some (p, funding_account, False)
      | None \<Rightarrow> Option.bind (frost_account_prop w) (\<lambda>fa.
          map_option (\<lambda>p. (p, fa, True)) (fw_params w fa)))"

definition all_given :: "string list \<Rightarrow> bool" where
  "all_given addresses = list_all (\<lambda>a. a \<noteq> []) addresses"

definition ingest_all :: "frost_lib \<Rightarrow> u32 \<Rightarrow> u32 option \<Rightarrow> u32 option \<Rightarrow> unit frost" where
  "ingest_all lib account broadcast mailbox =
     andthen (case broadcast of
         None \<Rightarrow> ret ()
       | Some b \<Rightarrow> andthen (decode_dkg_memos lib 0 account b) (\<lambda>_. decode_dkg_memos lib 1 account b)) (\<lambda>_.
       case mailbox of
         None \<Rightarrow> ret ()
       | Some m \<Rightarrow> decode_dkg_memos lib 2 account m)"

definition observe :: "frost_lib \<Rightarrow> u32 \<Rightarrow> dkg_obs frost" where
  "observe lib funding_account =
     andthen (gets frost_account_prop) (\<lambda>frost_account.
     andthen (gets (params_account_of funding_account)) (\<lambda>found.
     andthen (the_or NoParams found) (\<lambda>(p, account, rekeyed).
     andthen (get_addresses account (dp_n p)) (\<lambda>addresses.
     andthen (gets (mailbox_account_id account)) (\<lambda>mailbox.
     andthen (gets (\<lambda>w. if length addresses = dp_n p \<and> all_given addresses
                        then lookup_broadcast_account lib account w else None)) (\<lambda>broadcast.
     andthen (ingest_all lib account (map_option fst broadcast) mailbox) (\<lambda>_.
     andthen (gets (\<lambda>w. map (round_state_of account p w) [0..<3])) (\<lambda>rounds.
     andthen (gets (\<lambda>w. ds_key_pkg (state_of account w) \<noteq> None)) (\<lambda>key_pkg_present.
     andthen (\<lambda>w. (rebuild0 lib account p w, w)) (\<lambda>(mismatch, s0).
     andthen (\<lambda>w. (rebuild1 lib account p w s0, w)) (\<lambda>s1.
     andthen (\<lambda>w. (rebuild2 lib account p w s1, w)) (\<lambda>s2.
     andthen (publish_unmined DKG_LAST_TXID_PROP account) (\<lambda>unmined.
       ret \<lparr> do_funding_account = funding_account, do_params = p, do_addresses = addresses,
         do_mailbox = mailbox, do_broadcast = map_option fst broadcast,
         do_broadcast_address = map_option snd broadcast, do_rounds = rounds,
         do_key_pkg_present = key_pkg_present, do_frost_account = frost_account,
         do_rekeyed = rekeyed, do_version = dp_version p, do_mismatch = mismatch,
         do_publish_unmined = unmined, do_state0 = s0, do_state1 = s1, do_state2 = s2 \<rparr>)))))))))))))"

end
