(* ===== verification/Dkg_Exec.thy ===== *)
theory Dkg_Exec
  imports Dkg_Step
begin

text \<open>
  The effects of the key generation (\<open>rust/src/frost/dkg/exec.rs\<close>) and the pass that
  drives them (\<open>step.rs\<close>). Producing a round commits its secret and its outgoing bytes
  together; publishing stages the signed transaction with its locks and clears the bytes in one
  database transaction, and only then sends it.
\<close>

section \<open>Effects\<close>

definition ensure_accounts :: "frost_lib \<Rightarrow> u32 \<Rightarrow> dkg_params_row \<Rightarrow> unit frost" where
  "ensure_accounts lib account p =
     andthen (get_addresses account (dp_n p)) (\<lambda>addresses.
     andthen (ensure (all_given addresses) AddressesIncomplete) (\<lambda>_.
     andthen (get_mailbox_account lib account (dp_id p)) (\<lambda>_.
     andthen (get_coordinator_broadcast_account lib account) (\<lambda>_. ret ()))))"

text \<open>What a round produces: our secret, and the bytes for each address.\<close>

definition peer_recipients ::
  "string list \<Rightarrow> u8 \<Rightarrow> (u8 \<times> blob) list \<Rightarrow> (string \<times> blob) list option" where
  "peer_recipients addresses n packages =
     (let sends = List.map_filter (\<lambda>i. map_option (Pair i) (map_of packages i)) [1..<n + 1]
      in if list_ex (\<lambda>(i, _). length addresses \<le> i - 1) sends then None
         else Some (map (\<lambda>(i, data). (addresses ! (i - 1), data)) sends))"

definition produce :: "frost_lib \<Rightarrow> u8 \<Rightarrow> dkg_obs \<Rightarrow> frost_error + (blob \<times> (string \<times> blob) list)" where
  "produce lib round s =
     (case do_broadcast_address s of
        None \<Rightarrow> Inl InputMissing
      | Some broadcast_address \<Rightarrow>
          let p = do_params s in
          if round = 0 then
            Inr (fl_signing_key lib, [(broadcast_address,
              round0_to_bytes \<lparr> r0_key = fl_verifying_key lib (fl_signing_key lib), r0_version = do_version s \<rparr>)])
          else if round = 1 then
            (case do_state0 s of
               None \<Rightarrow> Inl InputMissing
             | Some s0 \<Rightarrow>
                 (case fl_part1 lib (di_self_id (s0_init s0)) (di_n (s0_init s0)) (di_t (s0_init s0)) of
                    None \<Rightarrow> Inl Library
                  | Some (secret, pkg) \<Rightarrow> Inr (secret, [(broadcast_address, pkg)])))
          else if round = 2 then
            (case do_state1 s of
               None \<Rightarrow> Inl InputMissing
             | Some s1 \<Rightarrow>
                 (case fl_part2 lib (s1_spkg1 s1) (s1_ppkg1s s1) of
                    None \<Rightarrow> Inl Library
                  | Some (secret, packages) \<Rightarrow>
                      (case peer_recipients (do_addresses s) (di_n (s0_init (s1_state0 s1))) packages of
                         None \<Rightarrow> Inl InputMissing
                       | Some recipients \<Rightarrow> Inr (secret, recipients))))
          else Inl (InvalidRound round))"

definition put_secret :: "u8 \<Rightarrow> blob \<Rightarrow> dkg_state_row \<Rightarrow> dkg_state_row" where
  "put_secret round secret s =
     (if round = 0 then s\<lparr> ds_signing_key := Some secret \<rparr>
      else if round = 1 then s\<lparr> ds_spkg1 := Some secret \<rparr>
      else s\<lparr> ds_spkg2 := Some secret \<rparr>)"

definition store_secret :: "u8 \<Rightarrow> u32 \<Rightarrow> blob \<Rightarrow> unit frost" where
  "store_secret round account secret =
     modify (\<lambda>w. w\<lparr> fw_state := (fw_state w)(account \<mapsto> put_secret round secret (state_of account w)) \<rparr>)"

text \<open>An \<open>UPDATE\<close> of the row of \<open>dkg_state\<close>, nothing when it is missing.\<close>

definition update_state :: "u32 \<Rightarrow> (dkg_state_row \<Rightarrow> dkg_state_row) \<Rightarrow> unit frost" where
  "update_state account f =
     modify (\<lambda>w. w\<lparr> fw_state := (fw_state w)(account := map_option f (fw_state w account)) \<rparr>)"

definition stage :: "frost_lib \<Rightarrow> u8 \<Rightarrow> u32 \<Rightarrow> dkg_obs \<Rightarrow> unit frost" where
  "stage lib round account s =
     andthen (lift_sum (produce lib round s)) (\<lambda>(secret, recipients).
       atomic (andthen (store_secret round account secret) (\<lambda>_.
         update_state account (\<lambda>r. r\<lparr> ds_pending := Some \<lparr> pp_round = round, pp_recipients = recipients \<rparr> \<rparr>))))"

fun encode_all :: "frost_lib \<Rightarrow> u8 \<Rightarrow> u8 \<Rightarrow> (string \<times> blob) list \<Rightarrow> (string \<times> blob) list option" where
  "encode_all lib round self_id [] = Some []"
| "encode_all lib round self_id ((addr, data) # rs) =
     (case (fl_encode lib (self_id, data), encode_all lib round self_id rs) of
        (Some bytes, Some ms) \<Rightarrow> Some ((addr, round_prefix round @ bytes) # ms)
      | _ \<Rightarrow> None)"

definition publish_staged :: "frost_lib \<Rightarrow> server \<Rightarrow> u32 \<Rightarrow> u8 \<Rightarrow> unit frost" where
  "publish_staged lib sv account self_id =
     andthen (gets (\<lambda>w. ds_pending (state_of account w))) (\<lambda>pending.
       case pending of
         None \<Rightarrow> ret ()
       | Some pp \<Rightarrow>
           andthen (ensure (pp_round pp \<le> 2) (InvalidRound (pp_round pp))) (\<lambda>_.
           andthen (the_or Library (encode_all lib (pp_round pp) self_id (pp_recipients pp))) (\<lambda>refs.
           andthen (atomic (andthen (stage_publish lib account refs DKG_LAST_TXID_PROP) (\<lambda>tx_bytes.
               andthen (update_state account (\<lambda>r. r\<lparr> ds_pending := None \<rparr>)) (\<lambda>_. ret tx_bytes)))) (\<lambda>staged.
           andthen (send_staged sv staged) (\<lambda>_. ret ())))))"

definition publish_round :: "frost_lib \<Rightarrow> server \<Rightarrow> u32 \<Rightarrow> u8 \<Rightarrow> dkg_obs \<Rightarrow> unit frost" where
  "publish_round lib sv account round s =
     andthen (if rs_secret_present (do_rounds s ! round) then ret () else stage lib round account s) (\<lambda>_.
       publish_staged lib sv account (dp_id (do_params s)))"

definition own_publish :: "frost_lib \<Rightarrow> server \<Rightarrow> u32 \<Rightarrow> u32 \<Rightarrow> bool frost" where
  "own_publish lib sv funding_account height =
     andthen (publish_expired lib DKG_LAST_TXID_PROP funding_account height) (\<lambda>expired.
       if expired then ret True
       else andthen (resend_publish sv DKG_LAST_TXID_PROP) (\<lambda>_. ret False))"

definition insert_peer :: "peer_row \<Rightarrow> unit frost" where
  "insert_peer r = modify (\<lambda>w.
     if peer_at (pe_account r) (pe_round r) (pe_from r) w = None
     then w\<lparr> fw_peers := fw_peers w @ [r] \<rparr> else w)"

definition finalize_key :: "frost_lib \<Rightarrow> u32 \<Rightarrow> dkg_obs \<Rightarrow> unit frost" where
  "finalize_key lib account s =
     (if do_key_pkg_present s then ret ()
      else andthen (the_or InputMissing (do_state2 s)) (\<lambda>s2.
        andthen (the_or Library (fl_part3 lib (s2_spkg2 s2) (s1_ppkg1s (s2_state1 s2)) (s2_ppkg2s s2))) (\<lambda>(kp, pp).
          atomic (andthen (update_state account (\<lambda>r. r\<lparr> ds_key_pkg := Some kp \<rparr>)) (\<lambda>_.
            insert_peer \<lparr> pe_account = account, pe_round = 3, pe_from = dp_id (do_params s), pe_data = pp \<rparr>)))))"

definition shared_address :: "frost_lib \<Rightarrow> u32 \<Rightarrow> string frost" where
  "shared_address lib frost_account = mailbox_address lib frost_account"

definition create_frost_account :: "frost_lib \<Rightarrow> u32 \<Rightarrow> u32 \<Rightarrow> string frost" where
  "create_frost_account lib account broadcast_account =
     andthen (gets (\<lambda>w. List.find (\<lambda>r. pe_account r = account \<and> pe_round r = 3) (fw_peers w))) (\<lambda>row.
     andthen (the_or InputMissing row) (\<lambda>pp.
     andthen (the_or Library (fl_group_key lib (pe_data pp))) (\<lambda>ak.
     andthen (gets (\<lambda>w. Option.bind (find_account broadcast_account w) wa_xsk)) (\<lambda>xsk.
     andthen (the_or NoAccount xsk) (\<lambda>sk.
     andthen (gets (\<lambda>w. fw_params w account)) (\<lambda>params.
     andthen (the_or NoParams params) (\<lambda>p.
     andthen (the_or Library (fl_group_fvk lib (dp_version p) sk ak)) (\<lambda>shared_fvk.
     andthen (gets (\<lambda>w. next_id wa_id (fw_accounts w))) (\<lambda>frost_account.
     andthen (modify (\<lambda>w. w\<lparr> fw_accounts := fw_accounts w @ [\<lparr> wa_id = frost_account,
         wa_name = dp_name p, wa_seed = None, wa_internal = False, wa_xsk = None,
         wa_xvk = Some shared_fvk \<rparr>] \<rparr>)) (\<lambda>_.
     andthen (if is_recoverable (dp_version p) then set_params account (\<lambda>p. p\<lparr> dp_sk := Some sk \<rparr>)
              else ret ()) (\<lambda>_.
     andthen (put_prop ''dkg_frost_account'' (show_nat frost_account)) (\<lambda>_.
       shared_address lib frost_account))))))))))))"

text \<open>\<open>UPDATE ... SET account\<close>, which fails on a row already there.\<close>

definition move_key :: "u32 \<Rightarrow> u32 \<Rightarrow> (u32 \<rightharpoonup> 'r) \<Rightarrow> (u32 \<rightharpoonup> 'r) option" where
  "move_key new old m =
     (case m old of
        None \<Rightarrow> Some m
      | Some r \<Rightarrow> if new \<noteq> old \<and> m new \<noteq> None then None else Some ((m(old := None))(new \<mapsto> r)))"

definition rekey :: "u32 \<Rightarrow> u32 \<Rightarrow> unit frost" where
  "rekey new old =
     andthen (gets (\<lambda>w. move_key new old (fw_params w))) (\<lambda>params.
     andthen (the_or ConstraintFailed params) (\<lambda>params.
     andthen (modify (\<lambda>w. w\<lparr> fw_params := params \<rparr>)) (\<lambda>_.
     andthen (gets (\<lambda>w. move_key new old (fw_state w))) (\<lambda>state.
     andthen (the_or ConstraintFailed state) (\<lambda>state.
     andthen (modify (\<lambda>w. w\<lparr> fw_state := state \<rparr>)) (\<lambda>_.
     andthen (gets (\<lambda>w. new \<noteq> old \<and> list_ex (\<lambda>r. pe_account r = old \<and>
         peer_at new (pe_round r) (pe_from r) w \<noteq> None) (fw_peers w))) (\<lambda>clash.
     andthen (ensure (\<not> clash) ConstraintFailed) (\<lambda>_.
     andthen (modify (\<lambda>w. w\<lparr> fw_peers := update_where (\<lambda>r. pe_account r = old)
         (\<lambda>r. r\<lparr> pe_account := new \<rparr>) (fw_peers w) \<rparr>)) (\<lambda>_.
     andthen (gets (\<lambda>w. new \<noteq> old \<and> list_ex (\<lambda>r. ad_account r = old \<and>
         list_ex (\<lambda>q. ad_account q = new \<and> ad_from q = ad_from r) (fw_addresses w)) (fw_addresses w))) (\<lambda>clash.
     andthen (ensure (\<not> clash) ConstraintFailed) (\<lambda>_.
       modify (\<lambda>w. w\<lparr> fw_addresses := update_where (\<lambda>r. ad_account r = old)
         (\<lambda>r. r\<lparr> ad_account := new \<rparr>) (fw_addresses w) \<rparr>))))))))))))"

definition complete_finalize :: "u32 \<Rightarrow> u32 \<Rightarrow> u32 option \<Rightarrow> u32 option \<Rightarrow> unit frost" where
  "complete_finalize funding_account frost_account mailbox broadcast =
     andthen (rekey frost_account funding_account) (\<lambda>_.
     andthen (case mailbox of
         None \<Rightarrow> ret ()
       | Some m \<Rightarrow>
           andthen (gets (\<lambda>w. Option.bind (find_account m w) wa_seed)) (\<lambda>seed.
           andthen (the_or NoAccount seed) (\<lambda>mnemonic.
             set_params frost_account (\<lambda>p. p\<lparr> dp_seed := mnemonic \<rparr>)))) (\<lambda>_.
     andthen (case mailbox of None \<Rightarrow> ret () | Some m \<Rightarrow> delete_account m) (\<lambda>_.
     andthen (case broadcast of None \<Rightarrow> ret () | Some b \<Rightarrow> delete_account b) (\<lambda>_.
       delete_frost_state))))"

section \<open>A pass\<close>

record pass_env =
  pe_server :: server
  pe_meanwhile :: "frost_wallet \<Rightarrow> frost_wallet"
  pe_stopping :: bool

definition wait_progress :: "dkg_task \<Rightarrow> dkg_obs \<Rightarrow> (string \<times> u8 \<times> u8) option" where
  "wait_progress task s =
     (case task of
        WaitRound round \<Rightarrow> Some (if round = 0 then ''Participant keys''
            else ''Round '' @ show_nat round @ '' packages'',
          rs_others (do_rounds s ! round), sat_sub (dp_n (do_params s)) 1)
      | _ \<Rightarrow> None)"

text \<open>What an iteration ends in: another plan, an executed task, or the end of the pass.\<close>

datatype dkg_turn = Replan | Ran dkg_task "string option" | Stopped dkg_outcome

definition no_outcome :: "dkg_task list \<Rightarrow> string option \<Rightarrow> dkg_outcome" where
  "no_outcome executed shared = \<lparr> dk_executed = executed, dk_shared_address = shared,
     dk_waiting_for_funds = False, dk_progress = None \<rparr>"

text \<open>A message that cannot be funded yet ends the pass as a wait.\<close>

definition run_publish_round ::
  "frost_lib \<Rightarrow> server \<Rightarrow> u32 \<Rightarrow> u8 \<Rightarrow> dkg_obs \<Rightarrow> dkg_task list \<Rightarrow> string option \<Rightarrow> dkg_turn frost" where
  "run_publish_round lib sv account round fresh executed shared = (\<lambda>w.
     case publish_round lib sv account round fresh w of
       (Inr _, w') \<Rightarrow> (Inr (Ran (PublishRound round) shared), w')
     | (Inl NoFeasibleSelection, w') \<Rightarrow>
         (Inr (Stopped ((no_outcome executed shared)\<lparr> dk_waiting_for_funds := True \<rparr>)), w')
     | (Inl e, w') \<Rightarrow> (Inl e, w'))"

definition run_dkg_task ::
  "frost_lib \<Rightarrow> server \<Rightarrow> u32 \<Rightarrow> dkg_task \<Rightarrow> dkg_obs \<Rightarrow> dkg_task list \<Rightarrow> string option \<Rightarrow> dkg_turn frost" where
  "run_dkg_task lib sv account task fresh executed shared =
     (case task of
        EnsureAccounts \<Rightarrow>
          andthen (ensure_accounts lib account (do_params fresh)) (\<lambda>_. ret (Ran task shared))
      | PublishRound round \<Rightarrow> run_publish_round lib sv account round fresh executed shared
      | FinalizeKey \<Rightarrow> andthen (finalize_key lib account fresh) (\<lambda>_. ret (Ran task shared))
      | CreateFrostAccount \<Rightarrow>
          andthen (the_or InputMissing (do_broadcast fresh)) (\<lambda>broadcast.
          andthen (create_frost_account lib account broadcast) (\<lambda>address.
            ret (Ran task (Some address))))
      | CompleteFinalize \<Rightarrow>
          andthen (the_or InputMissing (do_frost_account fresh)) (\<lambda>frost_account.
          andthen (complete_finalize account frost_account (do_mailbox fresh) (do_broadcast fresh)) (\<lambda>_.
          andthen (case shared of
              Some a \<Rightarrow> ret a
            | None \<Rightarrow> shared_address lib frost_account) (\<lambda>address.
            ret (Stopped (no_outcome (executed @ [task]) (Some address))))))
      | _ \<Rightarrow> fail Panicked)"

definition dkg_iteration ::
  "frost_lib \<Rightarrow> u32 \<Rightarrow> u32 \<Rightarrow> pass_env \<Rightarrow> dkg_task list \<Rightarrow> string option \<Rightarrow> dkg_turn frost" where
  "dkg_iteration lib height account env executed shared =
     andthen (observe lib account) (\<lambda>s.
     let task = next_dkg_task s in
     andthen (if task = WaitOwnPublish then own_publish lib (pe_server env) account height else ret False)
       (\<lambda>expired.
     if expired then ret Replan
     else if dkg_kind task \<noteq> EffectTask then
       ret (Stopped ((no_outcome (executed @ [task]) shared)\<lparr> dk_progress := wait_progress task s \<rparr>))
     else
       andthen (modify (pe_meanwhile env)) (\<lambda>_.
       andthen (observe lib account) (\<lambda>fresh.
       if \<not> dkg_satisfied task fresh then ret Replan
       else if pe_stopping env then ret (Stopped (no_outcome executed shared))
       else run_dkg_task lib (pe_server env) account task fresh executed shared))))"

fun dkg_pass ::
  "frost_lib \<Rightarrow> u32 \<Rightarrow> u32 \<Rightarrow> pass_env list \<Rightarrow> dkg_task list \<Rightarrow> string option \<Rightarrow> dkg_outcome frost" where
  "dkg_pass lib height account [] executed shared = fail TooManyEffects"
| "dkg_pass lib height account (env # envs) executed shared =
     andthen (dkg_iteration lib height account env executed shared) (\<lambda>t.
       case t of
         Replan \<Rightarrow> dkg_pass lib height account envs executed shared
       | Ran task shared' \<Rightarrow> dkg_pass lib height account envs (executed @ [task]) shared'
       | Stopped out \<Rightarrow> ret out)"

definition dkg_step :: "frost_lib \<Rightarrow> u32 \<Rightarrow> u32 \<Rightarrow> (nat \<Rightarrow> pass_env) \<Rightarrow> dkg_outcome frost" where
  "dkg_step lib height account env = dkg_pass lib height account (map env [0..<16]) [] None"

end
