(* ===== verification/Outcomes.thy ===== *)
theory Outcomes
  imports Effects
begin

text \<open>
  Running a program on a state: what it means that a sequence, a check or a lookup succeeds, as
  equations on the result and the state it leaves.
\<close>

lemma andthen_Inr:
  "andthen m f w = (Inr y, w2) \<longleftrightarrow> (\<exists>x w1. m w = (Inr x, w1) \<and> f x w1 = (Inr y, w2))"
  by (auto simp: andthen_def split: prod.splits sum.splits)

lemma andthen_Inr_unit:
  "andthen m f w = (Inr y, w2) \<longleftrightarrow> (\<exists>w1. m w = (Inr (), w1) \<and> f () w1 = (Inr y, w2))"
  by (simp add: andthen_Inr)

lemma gets_eq [simp]: "gets f w = (Inr (f w), w)"
  by (simp add: gets_def)

lemma modify_eq [simp]: "modify f w = (Inr (), f w)"
  by (simp add: modify_def)

lemma ret_eq [simp]: "ret x w = (Inr x, w)"
  by (simp add: ret_def)

lemma fail_eq [simp]: "fail e w = (Inl e, w)"
  by (simp add: fail_def)

lemma the_or_Inr [simp]: "the_or e y w = (Inr x, w') \<longleftrightarrow> y = Some x \<and> w' = w"
  by (cases y) auto

lemma ensure_Inr [simp]: "ensure b e w = (Inr u, w') \<longleftrightarrow> b \<and> w' = w"
  by (cases b) auto

lemma steps_mono: "steps R m \<Longrightarrow> (\<And>u v. R u v \<Longrightarrow> S u v) \<Longrightarrow> steps S m"
  by (simp add: steps_def)

text \<open>The run of a program on one of the elements, inside the run on all of them.\<close>

lemma for_each_member:
  assumes "for_each f xs w = (Inr (), w')" and "x \<in> set xs" and "two_state R" and "\<And>y. steps R (f y)"
  shows "\<exists>u v. R w u \<and> f x u = (Inr (), v) \<and> R v w'"
  using assms(1,2)
proof (induction xs arbitrary: w)
  case (Cons y ys)
  then obtain w1 where h: "f y w = (Inr (), w1)" "for_each f ys w1 = (Inr (), w')"
    by (auto simp: andthen_Inr)
  have s: "R w w1" "R w1 w'"
    using h assms(4) two_state.steps_for_each [OF assms(3), of ys f] unfolding steps_def by (metis snd_conv)+
  show ?case
  proof (cases "x = y")
    case True
    then show ?thesis using h(1) s two_state.refl [OF assms(3)] by blast
  next
    case False
    then have "x \<in> set ys" using Cons.prems(2) by simp
    then obtain u v where "R w1 u" "f x u = (Inr (), v)" "R v w'" using Cons.IH [OF h(2)] by blast
    then show ?thesis using s(1) two_state.trans [OF assms(3)] by blast
  qed
qed simp

end
