(* ===== verification/Dkg_Correct.thy ===== *)
theory Dkg_Correct
  imports Dkg_Exec Outcomes
begin

text \<open>
  What the properties of the key generation rest on: the ingest of the peers' packages only
  appends and is idempotent, an observation reads the wallet it leaves, and what each effect
  leaves of the rows of the account.
\<close>

section \<open>Ingest\<close>

text \<open>An ingest changes nothing but the table of the peers, and only appends to it.\<close>

definition adds_peers :: "frost_wallet \<Rightarrow> frost_wallet \<Rightarrow> bool" where
  "adds_peers w w' = (\<exists>ps. w' = w\<lparr> fw_peers := fw_peers w @ ps \<rparr>)"

interpretation ingest: two_state adds_peers
proof
  show "adds_peers w w" for w by (auto simp: adds_peers_def intro: exI [of _ "[]"])
  show "adds_peers u v \<Longrightarrow> adds_peers v w \<Longrightarrow> adds_peers u w" for u v w
    by (auto simp: adds_peers_def)
qed

lemma find_append_Some: "List.find P xs = Some x \<Longrightarrow> List.find P (xs @ ys) = Some x"
  by (induction xs) auto

lemma find_append_None: "List.find P xs = None \<Longrightarrow> List.find P (xs @ ys) = List.find P ys"
  by (induction xs) auto

lemma peer_at_adds:
  "adds_peers w w' \<Longrightarrow> peer_at a r f w = Some d \<Longrightarrow> peer_at a r f w' = Some d"
  by (auto simp: adds_peers_def peer_at_def find_append_Some)

lemma store_peer_package_steps: "steps adds_peers (store_peer_package account round from data)"
proof -
  have "adds_peers w (w\<lparr> fw_peers := fw_peers w @ [r] \<rparr>)" for w r by (auto simp: adds_peers_def)
  then show ?thesis
    unfolding store_peer_package_def
    by (intro ingest.steps_andthen) (auto intro!: ingest.steps_modify split: option.split)
qed

lemma ingest_message_steps: "steps adds_peers (ingest_message lib round account n msg)"
  unfolding ingest_message_def by (auto simp: Let_def store_peer_package_steps split: prod.split option.split)

lemma decode_dkg_memos_steps: "steps adds_peers (decode_dkg_memos lib round account mailbox)"
  unfolding decode_dkg_memos_def
  by (intro ingest.steps_andthen ingest.steps_pure ingest.steps_for_each ingest_message_steps)

lemma ingest_all_steps: "steps adds_peers (ingest_all lib account broadcast mailbox)"
  unfolding ingest_all_def
  by (intro ingest.steps_andthen) (auto simp: decode_dkg_memos_steps split: option.split)

lemma stepsD: "steps R m \<Longrightarrow> m w = (r, w') \<Longrightarrow> R w w'"
  by (metis steps_def snd_conv)

text \<open>A package once stored is found again, whatever has been added since.\<close>

lemma store_peer_again:
  assumes "store_peer_package account round from data w = (Inr (), w')" and "adds_peers w' v"
  shows "store_peer_package account round from data v = (Inr (), v)"
proof -
  have "\<exists>r. peer_at account round from w' = Some r \<and> pe_data r = data"
  proof (cases "peer_at account round from w")
    case None
    then show ?thesis using assms(1)
      by (auto simp: store_peer_package_def peer_at_def find_append_None)
  next
    case (Some r)
    then show ?thesis using assms(1) by (auto simp: store_peer_package_def)
  qed
  then obtain r where "peer_at account round from v = Some r" "pe_data r = data"
    using peer_at_adds [OF assms(2)] by blast
  then show ?thesis by (simp add: store_peer_package_def)
qed

lemma ingest_message_again:
  assumes "ingest_message lib round account n msg w = (Inr (), w')" and "adds_peers w' v"
  shows "ingest_message lib round account n msg v = (Inr (), v)"
  using assms store_peer_again
  by (auto simp: ingest_message_def Let_def split: prod.splits if_splits option.splits)

lemma for_each_again:
  assumes "for_each (ingest_message lib round account n) msgs w = (Inr (), w')" and "adds_peers w' v"
  shows "for_each (ingest_message lib round account n) msgs v = (Inr (), v)"
  using assms
proof (induction msgs arbitrary: w)
  case (Cons m ms)
  then obtain w1 where s: "ingest_message lib round account n m w = (Inr (), w1)"
    "for_each (ingest_message lib round account n) ms w1 = (Inr (), w')"
    by (auto simp: andthen_Inr)
  have "adds_peers w1 w'"
    using s(2) by (rule stepsD [OF ingest.steps_for_each [OF ingest_message_steps]])
  then have "adds_peers w1 v" using Cons.prems(2) ingest.trans by blast
  then have "ingest_message lib round account n m v = (Inr (), v)"
    using s(1) ingest_message_again by blast
  with Cons.IH [OF s(2) Cons.prems(2)] show ?case by (auto simp: andthen_Inr)
qed simp

lemma decode_again:
  assumes "decode_dkg_memos lib round account mailbox w = (Inr (), w')" and "adds_peers w' v"
  shows "decode_dkg_memos lib round account mailbox v = (Inr (), v)"
proof -
  have a: "adds_peers w w'" using assms(1) by (rule stepsD [OF decode_dkg_memos_steps])
  then have "adds_peers w v" using assms(2) ingest.trans by blast
  then have "fw_params v = fw_params w" "round_messages lib round mailbox v = round_messages lib round mailbox w"
    by (auto simp: adds_peers_def round_messages_def)
  with assms for_each_again show ?thesis
    by (auto simp: decode_dkg_memos_def andthen_Inr)
qed

lemma ingest_all_again:
  assumes "ingest_all lib account broadcast mailbox w = (Inr (), w')" and "adds_peers w' v"
  shows "ingest_all lib account broadcast mailbox v = (Inr (), v)"
proof -
  have later: "adds_peers w1 v" if "decode_dkg_memos lib r account m w1 = (Inr (), w2)" "adds_peers w2 v"
    for r m w1 w2 using that stepsD [OF decode_dkg_memos_steps] ingest.trans by blast
  show ?thesis
  proof (cases broadcast)
    case None
    then show ?thesis using assms decode_again
      by (auto simp: ingest_all_def andthen_Inr split: option.splits)
  next
    case (Some b)
    then obtain w1 w2 where d: "decode_dkg_memos lib 0 account b w = (Inr (), w1)"
      "decode_dkg_memos lib 1 account b w1 = (Inr (), w2)"
      and m: "(case mailbox of None \<Rightarrow> ret () | Some m \<Rightarrow> decode_dkg_memos lib 2 account m) w2 = (Inr (), w')"
      using assms(1) by (auto simp: ingest_all_def andthen_Inr)
    have 2: "adds_peers w2 v"
      using m assms(2) by (auto split: option.splits intro: later)
    with d(2) have 1: "adds_peers w1 v" by (rule later)
    show ?thesis using Some d m 1 2 assms(2) decode_again
      by (auto simp: ingest_all_def andthen_Inr split: option.splits)
  qed
qed

section \<open>Observation\<close>

text \<open>An observation adds packages and may clear the marker of the last message.\<close>

definition marker_keys :: "string \<Rightarrow> string set" where
  "marker_keys key = {key, publish_tx_prop key, publish_expiry_prop key}"

definition observes :: "frost_wallet \<Rightarrow> frost_wallet \<Rightarrow> bool" where
  "observes w w' = (\<exists>ps pr. w' = w\<lparr> fw_peers := fw_peers w @ ps, fw_props := pr \<rparr>
     \<and> (\<forall>k. k \<notin> marker_keys DKG_LAST_TXID_PROP \<longrightarrow> pr k = fw_props w k))"

interpretation obs: two_state observes
proof
  show "observes w w" for w by (auto simp: observes_def intro!: exI [of _ "[]"] exI [of _ "fw_props w"])
  show "observes u v \<Longrightarrow> observes v w \<Longrightarrow> observes u w" for u v w by (fastforce simp: observes_def)
qed

lemma adds_peers_observes: "adds_peers w w' \<Longrightarrow> observes w w'"
  by (auto simp: adds_peers_def observes_def intro!: exI [of _ "fw_props w"])

lemma cleared_observes: "observes w (cleared DKG_LAST_TXID_PROP w)"
  by (auto simp: observes_def cleared_def marker_keys_def intro!: exI [of _ "[]"])

lemma publish_unmined_cases:
  assumes "publish_unmined key account w = (r, w')"
  shows "w' = w \<or> (r = Inr False \<and> w' = cleared key w)"
  using assms
  by (auto simp: publish_unmined_def get_prop_def andthen_def clear_publish_eq split: option.splits if_splits)

lemma publish_unmined_steps: "steps observes (publish_unmined DKG_LAST_TXID_PROP account)"
  unfolding steps_def using publish_unmined_cases cleared_observes obs.refl by (metis prod.collapse)

lemma observe_steps: "steps observes (observe lib account)"
proof -
  have pure: "steps observes (\<lambda>w. (f w, w))" for f :: "frost_wallet \<Rightarrow> frost_error + 'x"
    by (simp add: steps_def obs.refl)
  have "steps observes (ingest_all lib a b m)" for a b m
    using ingest_all_steps adds_peers_observes by (rule steps_mono)
  then show ?thesis
    unfolding observe_def get_addresses_def
    by (intro obs.steps_andthen obs.steps_pure pure publish_unmined_steps)
      (auto split: prod.split intro!: obs.steps_andthen pure publish_unmined_steps)
qed

text \<open>What the snapshot says of the wallet before it and of the one it leaves.\<close>

lemma observe_ok:
  assumes "observe lib fa w = (Inr s, w')"
  obtains p account rekeyed w1 where
    "params_account_of fa w = Some (p, account, rekeyed)" "adds_peers w w1"
    "w' = w1 \<or> (w' = cleared DKG_LAST_TXID_PROP w1 \<and> \<not> do_publish_unmined s)"
    "do_params s = p" "do_rounds s = map (round_state_of account p w1) [0..<3]"
    "do_key_pkg_present s = (ds_key_pkg (state_of account w1) \<noteq> None)"
    "do_frost_account s = frost_account_prop w" "do_rekeyed s = rekeyed"
    "do_mailbox s = mailbox_account_id account w"
    "place_addresses (addresses_of account w) (replicate (dp_n p) []) = Some (do_addresses s)"
    "addresses_complete s \<Longrightarrow> do_broadcast s = map_option fst (lookup_broadcast_account lib account w)"
    "publish_unmined DKG_LAST_TXID_PROP account w1 = (Inr (do_publish_unmined s), w')"
proof -
  obtain p account rekeyed addresses w1 mm s0 s1 s2 unmined where
    h: "params_account_of fa w = Some (p, account, rekeyed)"
      "place_addresses (addresses_of account w) (replicate (dp_n p) []) = Some addresses"
    and i: "ingest_all lib account (map_option fst (if length addresses = dp_n p \<and> all_given addresses
               then lookup_broadcast_account lib account w else None))
             (mailbox_account_id account w) w = (Inr (), w1)"
    and u: "publish_unmined DKG_LAST_TXID_PROP account w1 = (Inr unmined, w')"
    and s: "s = \<lparr> do_funding_account = fa, do_params = p, do_addresses = addresses,
         do_mailbox = mailbox_account_id account w,
         do_broadcast = map_option fst (if length addresses = dp_n p \<and> all_given addresses
               then lookup_broadcast_account lib account w else None),
         do_broadcast_address = map_option snd (if length addresses = dp_n p \<and> all_given addresses
               then lookup_broadcast_account lib account w else None),
         do_rounds = map (round_state_of account p w1) [0..<3],
         do_key_pkg_present = (ds_key_pkg (state_of account w1) \<noteq> None),
         do_frost_account = frost_account_prop w,
         do_rekeyed = rekeyed, do_version = dp_version p, do_mismatch = mm,
         do_publish_unmined = unmined, do_state0 = s0, do_state1 = s1, do_state2 = s2 \<rparr>"
    using assms
    by (auto simp: observe_def andthen_Inr get_addresses_def simp del: upt_conv_Cons split: prod.splits)
  have c: "do_broadcast s = map_option fst (lookup_broadcast_account lib account w)" if "addresses_complete s"
    using that by (simp add: s addresses_complete_def all_given_def)
  show thesis
    by (rule that [OF h(1) stepsD [OF ingest_all_steps i], of])
      (use u publish_unmined_cases [OF u] h(2) c in \<open>auto simp: s\<close>)
qed

end
