(* ===== verification/Dkg_Invariant.thy ===== *)
theory Dkg_Invariant
  imports Dkg_Correct
begin

text \<open>
  The invariant of the key generation. Almost every step of a pass is \<open>quiet\<close>: as long as the
  parameters are still under the account, it leaves the stored secrets as they are and only adds
  packages of participants. The two that are not, staging a round and deriving the key, each
  store one secret that was missing, and the plan makes sure that the round before is complete.
\<close>

section \<open>Quiet steps\<close>

definition same_group :: "dkg_params_row \<Rightarrow> dkg_params_row \<Rightarrow> bool" where
  "same_group p p' = (dp_id p' = dp_id p \<and> dp_n p' = dp_n p \<and> dp_t p' = dp_t p \<and> dp_version p' = dp_version p)"

definition secrets :: "u32 \<Rightarrow> frost_wallet \<Rightarrow> blob option \<times> blob option \<times> blob option \<times> blob option" where
  "secrets account w = (let s = state_of account w
     in (ds_signing_key s, ds_spkg1 s, ds_spkg2 s, ds_key_pkg s))"

definition pending_of :: "u32 \<Rightarrow> frost_wallet \<Rightarrow> pending_publish option" where
  "pending_of account w = ds_pending (state_of account w)"

definition peer_keys :: "frost_wallet \<Rightarrow> (u32 \<times> u8 \<times> u8) list" where
  "peer_keys w = map (\<lambda>r. (pe_account r, pe_round r, pe_from r)) (fw_peers w)"

definition peers_ok :: "u32 \<Rightarrow> frost_wallet \<Rightarrow> bool" where
  "peers_ok account w = (distinct (peer_keys w) \<and> (\<forall>p. fw_params w account = Some p \<longrightarrow>
     (\<forall>r \<in> set (fw_peers w). pe_account r = account \<and> pe_round r < 3 \<longrightarrow> 1 \<le> pe_from r \<and> pe_from r \<le> dp_n p)))"

definition quiet :: "u32 \<Rightarrow> frost_wallet \<Rightarrow> frost_wallet \<Rightarrow> bool" where
  "quiet account w w' = (\<forall>p'. fw_params w' account = Some p' \<longrightarrow>
     (\<exists>p. fw_params w account = Some p \<and> same_group p p')
     \<and> secrets account w' = secrets account w
     \<and> (pending_of account w' = None \<or> pending_of account w' = pending_of account w)
     \<and> (\<forall>r f d. peer_at account r f w = Some d \<longrightarrow> peer_at account r f w' = Some d)
     \<and> (peers_ok account w \<longrightarrow> peers_ok account w'))"

lemma same_group_refl [simp]: "same_group p p"
  by (simp add: same_group_def)

lemma same_group_trans: "same_group p q \<Longrightarrow> same_group q r \<Longrightarrow> same_group p r"
  by (simp add: same_group_def)

interpretation qs: two_state "quiet account" for account
proof
  show "quiet account w w" for w by (simp add: quiet_def)
  show "quiet account u w" if "quiet account u v" and "quiet account v w" for u v w
    unfolding quiet_def
  proof (intro allI impI)
    fix p'' assume "fw_params w account = Some p''"
    with that(2) obtain p' where v: "fw_params v account = Some p'" "same_group p' p''"
      "secrets account w = secrets account v"
      "pending_of account w = None \<or> pending_of account w = pending_of account v"
      "\<forall>r f d. peer_at account r f v = Some d \<longrightarrow> peer_at account r f w = Some d"
      "peers_ok account v \<longrightarrow> peers_ok account w" by (auto simp: quiet_def)
    from that(1) v(1) obtain p where u: "fw_params u account = Some p" "same_group p p'"
      "secrets account v = secrets account u"
      "pending_of account v = None \<or> pending_of account v = pending_of account u"
      "\<forall>r f d. peer_at account r f u = Some d \<longrightarrow> peer_at account r f v = Some d"
      "peers_ok account u \<longrightarrow> peers_ok account v" by (auto simp: quiet_def)
    show "(\<exists>p. fw_params u account = Some p \<and> same_group p p'')
     \<and> secrets account w = secrets account u
     \<and> (pending_of account w = None \<or> pending_of account w = pending_of account u)
     \<and> (\<forall>r f d. peer_at account r f u = Some d \<longrightarrow> peer_at account r f w = Some d)
     \<and> (peers_ok account u \<longrightarrow> peers_ok account w)"
      using u v same_group_trans by metis
  qed
qed

text \<open>A step that leaves the tables of the protocol alone.\<close>

lemma quiet_same:
  "fw_params w' = fw_params w \<Longrightarrow> fw_state w' = fw_state w \<Longrightarrow> fw_peers w' = fw_peers w \<Longrightarrow> quiet account w w'"
  by (simp add: quiet_def secrets_def pending_of_def state_of_def peer_at_def peers_ok_def peer_keys_def Let_def)

lemma quiet_gone: "fw_params w' account = None \<Longrightarrow> quiet account w w'"
  by (simp add: quiet_def)

text \<open>Packages of participants, each in a slot of its own.\<close>

definition adds_ok :: "u32 \<Rightarrow> u8 \<Rightarrow> frost_wallet \<Rightarrow> frost_wallet \<Rightarrow> bool" where
  "adds_ok a n w w' = (\<exists>ps. w' = w\<lparr> fw_peers := fw_peers w @ ps \<rparr>
     \<and> (\<forall>r \<in> set ps. pe_account r = a \<and> (pe_round r < 3 \<longrightarrow> 1 \<le> pe_from r \<and> pe_from r \<le> n))
     \<and> (distinct (peer_keys w) \<longrightarrow> distinct (peer_keys w')))"

interpretation ao: two_state "adds_ok a n" for a n
proof
  show "adds_ok a n w w" for w by (auto simp: adds_ok_def intro!: exI [of _ "[]"])
  show "adds_ok a n u w" if uv: "adds_ok a n u v" and vw: "adds_ok a n v w" for u v w
  proof -
    obtain ps qs where "v = u\<lparr> fw_peers := fw_peers u @ ps \<rparr>" "w = v\<lparr> fw_peers := fw_peers v @ qs \<rparr>"
      "\<forall>r \<in> set (ps @ qs). pe_account r = a \<and> (pe_round r < 3 \<longrightarrow> 1 \<le> pe_from r \<and> pe_from r \<le> n)"
      "distinct (peer_keys u) \<longrightarrow> distinct (peer_keys w)"
      using uv vw unfolding adds_ok_def by (metis Un_iff set_append)
    then show ?thesis unfolding adds_ok_def by (intro exI [of _ "ps @ qs"]) simp
  qed
qed

lemma peer_at_None: "peer_at a r f w = None \<Longrightarrow> (a, r, f) \<notin> set (peer_keys w)"
  by (auto simp: peer_at_def peer_keys_def find_None_iff)

lemma adds_one:
  assumes "peer_at (pe_account r) (pe_round r) (pe_from r) w = None"
    and "pe_round r < 3 \<longrightarrow> 1 \<le> pe_from r \<and> pe_from r \<le> n"
  shows "adds_ok (pe_account r) n w (w\<lparr> fw_peers := fw_peers w @ [r] \<rparr>)"
  using assms peer_at_None [OF assms(1)] by (auto simp: adds_ok_def peer_keys_def)

lemma ingest_message_adds_ok: "steps (adds_ok account n) (ingest_message lib round account n msg)"
proof -
  obtain sender data where m: "msg = (sender, data)" by fastforce
  have "adds_ok account n w (snd (store_peer_package account round sender d w))" if "1 \<le> sender" "sender \<le> n" for d w
  proof (cases "peer_at account round sender w")
    case None
    from adds_one [of "\<lparr>pe_account = account, pe_round = round, pe_from = sender, pe_data = d\<rparr>" w n]
    show ?thesis using None that by (simp add: store_peer_package_def)
  next
    case (Some r)
    then show ?thesis by (simp add: store_peer_package_def ensure_def ao.refl)
  qed
  then show ?thesis
    by (auto simp: steps_def m ingest_message_def Let_def ao.refl split: option.split)
qed

lemma adds_ok_quiet:
  assumes "adds_ok a n w w'" and "a = account \<Longrightarrow> \<exists>p. fw_params w account = Some p \<and> dp_n p = n"
  shows "quiet account w w'"
proof -
  obtain ps where w: "w' = w\<lparr> fw_peers := fw_peers w @ ps \<rparr>"
    "\<forall>r \<in> set ps. pe_account r = a \<and> (pe_round r < 3 \<longrightarrow> 1 \<le> pe_from r \<and> pe_from r \<le> n)"
    "distinct (peer_keys w) \<longrightarrow> distinct (peer_keys w')"
    using assms(1) by (auto simp: adds_ok_def)
  have "peers_ok account w \<longrightarrow> peers_ok account w'"
    using w(2,3) assms(2) by (auto simp: peers_ok_def w(1))
  then show ?thesis
    by (auto simp: quiet_def w(1) secrets_def pending_of_def state_of_def peer_at_def find_append_Some Let_def)
qed

lemma decode_quiet: "steps (quiet account) (decode_dkg_memos lib round a mailbox)"
proof -
  have "quiet account w w'" if d: "decode_dkg_memos lib round a mailbox w = (r, w')" for w r w'
  proof (cases "fw_params w a")
    case None
    then show ?thesis using d by (simp add: decode_dkg_memos_def qs.refl)
  next
    case (Some p)
    then have "for_each (ingest_message lib round a (dp_n p)) (round_messages lib round mailbox w) w = (r, w')"
      using d by (simp add: decode_dkg_memos_def)
    then have "adds_ok a (dp_n p) w w'"
      by (rule stepsD [OF ao.steps_for_each [OF ingest_message_adds_ok]])
    then show ?thesis using Some by (intro adds_ok_quiet) auto
  qed
  then show ?thesis by (metis steps_def prod.collapse)
qed

lemma observe_quiet: "steps (quiet account) (observe lib a)"
proof -
  have pure: "steps (quiet account) (\<lambda>w. (f w, w))" for f :: "frost_wallet \<Rightarrow> frost_error + 'x"
    by (simp add: steps_def qs.refl)
  have unm: "steps (quiet account) (publish_unmined key b)" for key b
    unfolding steps_def using publish_unmined_cases
    by (metis (no_types, lifting) cleared_def qs.refl quiet_same prod.collapse
        frost_wallet.select_convs frost_wallet.surjective frost_wallet.update_convs(2))
  have "steps (quiet account) (ingest_all lib b x m)" for b x m
    unfolding ingest_all_def
    by (intro qs.steps_andthen) (auto simp: decode_quiet split: option.split)
  then show ?thesis
    unfolding observe_def get_addresses_def
    by (intro qs.steps_andthen qs.steps_pure pure unm)
      (auto split: prod.split intro!: qs.steps_andthen pure unm)
qed

section \<open>The effects\<close>

lemma quiet_prims [intro, simp]:
  "steps (quiet account) (put_prop key v)"
  "steps (quiet account) (clear_publish key)"
  "steps (quiet account) (delete_props_like pat)"
  "steps (quiet account) (new_account lib name seed)"
  "steps (quiet account) (store_address a i address)"
  "steps (quiet account) (on_log f)"
  "steps (quiet account) (post_to sv tx_bytes)"
  by (auto simp: steps_def put_prop_def clear_publish_def delete_props_like_def new_account_def
      store_address_def on_log_def post_to_def Let_def quiet_same split: sum.split)

lemma quiet_set_params: "(\<And>p. same_group p (f p)) \<Longrightarrow> steps (quiet account) (set_params a f)"
  by (auto simp: steps_def set_params_def quiet_def secrets_def pending_of_def state_of_def Let_def
      peer_at_def peers_ok_def peer_keys_def same_group_def)

lemma quiet_clear_pending: "steps (quiet account) (update_state a (\<lambda>r. r\<lparr> ds_pending := None \<rparr>))"
  by (auto simp: steps_def update_state_def quiet_def secrets_def pending_of_def state_of_def Let_def
      peer_at_def peers_ok_def peer_keys_def split: option.split)

lemma quiet_insert_peer: "3 \<le> pe_round r \<Longrightarrow> steps (quiet account) (insert_peer r)"
proof -
  assume r: "3 \<le> pe_round r"
  have "quiet account w (w\<lparr> fw_peers := fw_peers w @ [r] \<rparr>)"
    if "peer_at (pe_account r) (pe_round r) (pe_from r) w = None" for w
    using r peer_at_None [OF that]
    by (auto simp: quiet_def secrets_def pending_of_def state_of_def Let_def peer_at_def
        find_append_Some peers_ok_def peer_keys_def)
  then show ?thesis by (auto simp: steps_def insert_peer_def qs.refl)
qed

lemma find_filter_other:
  "a \<noteq> account \<Longrightarrow> List.find (\<lambda>x. pe_account x = account \<and> pe_round x = r \<and> pe_from x = f)
      (filter (\<lambda>r. pe_account r \<noteq> a) xs)
    = List.find (\<lambda>x. pe_account x = account \<and> pe_round x = r \<and> pe_from x = f) xs"
  by (induction xs) auto

lemma quiet_delete_account: "steps (quiet account) (delete_account a)"
proof -
  have "quiet account w (snd (delete_account a w))" for w
  proof (cases "a = account")
    case True
    then show ?thesis by (intro quiet_gone) (simp add: delete_account_def)
  next
    case False
    have "distinct (peer_keys w) \<Longrightarrow> distinct (peer_keys (snd (delete_account a w)))"
      by (simp add: peer_keys_def delete_account_def delete_where_def distinct_map_filter)
    then show ?thesis using False
      by (auto simp: delete_account_def quiet_def secrets_def pending_of_def state_of_def Let_def
          peer_at_def peers_ok_def delete_where_def find_filter_other)
  qed
  then show ?thesis by (simp add: steps_def)
qed

lemma quiet_lookup [intro, simp]: "steps (quiet account) (mailbox_address lib a)"
  unfolding mailbox_address_def by auto

lemma quiet_ensure_accounts: "steps (quiet account) (ensure_accounts lib a p)"
proof -
  have "steps (quiet account) (create_mailbox lib a seed)" for seed
    unfolding create_mailbox_def
    by (intro qs.steps_andthen) (auto intro!: quiet_set_params simp: same_group_def)
  then have "steps (quiet account) (get_mailbox_account lib a i)" for i
    unfolding get_mailbox_account_def
    by (intro qs.steps_atomic qs.steps_andthen) (auto split: option.split)
  moreover have "steps (quiet account) (get_coordinator_broadcast_account lib a)"
    unfolding get_coordinator_broadcast_account_def
    by (intro qs.steps_andthen) (auto split: option.split)
  ultimately show ?thesis
    unfolding ensure_accounts_def get_addresses_def by (intro qs.steps_andthen qs.steps_pure)
qed

lemma quiet_stage_publish: "steps (quiet account) (stage_publish lib a rs key)"
  unfolding stage_publish_def by (intro qs.steps_andthen) auto

lemma quiet_publish_staged: "steps (quiet account) (publish_staged lib sv a i)"
proof -
  have "steps (quiet account) (send_staged sv b)" for b
    unfolding send_staged_def by auto
  then show ?thesis
    unfolding publish_staged_def
    by (intro qs.steps_andthen)
      (auto split: option.split intro!: qs.steps_andthen qs.steps_atomic quiet_stage_publish quiet_clear_pending)
qed

lemma quiet_own_publish: "steps (quiet account) (own_publish lib sv a height)"
proof -
  have p: "steps (quiet account) (\<lambda>w. (Inr (), snd (post_to sv b w)))" for b
    using quiet_prims(7) by (simp add: steps_def)
  have "steps (quiet account) (resend_publish sv key)" for key
    unfolding resend_publish_def get_prop_def by (intro qs.steps_andthen) (auto split: option.split intro!: p)
  moreover have "steps (quiet account) (publish_expired lib key a height)" for key
    unfolding publish_expired_def get_prop_def
    by (intro qs.steps_andthen) (auto split: option.split intro!: qs.steps_andthen)
  ultimately show ?thesis
    unfolding own_publish_def by (intro qs.steps_andthen) (auto intro: qs.steps_andthen)
qed

lemma quiet_create_frost_account: "steps (quiet account) (create_frost_account lib a b)"
proof -
  have add: "steps (quiet account) (modify (\<lambda>w. w\<lparr> fw_accounts := f w \<rparr>))" for f
    by (simp add: steps_def quiet_same)
  show ?thesis
    unfolding create_frost_account_def shared_address_def
    by (intro qs.steps_andthen) (auto intro!: add quiet_set_params simp: same_group_def)
qed

text \<open>Rekeying moves the parameters first: from then on there is nothing under the account.\<close>

lemma move_key_same: "move_key a a m = Some m"
  by (cases "m a") (auto simp: move_key_def)

lemma quiet_rekey: "steps (quiet account) (rekey new account)"
proof -
  have "quiet account w w'" if r: "rekey new account w = (res, w')" for w res w'
  proof (cases "new = account")
    case True
    have i: "update_where (\<lambda>r. pe_account r = new) (\<lambda>r. r\<lparr> pe_account := new \<rparr>) xs = xs" for xs :: "peer_row list"
      by (auto simp: update_where_def intro!: map_idI)
    have "snd (rekey account account w) = w\<lparr> fw_addresses := fw_addresses (snd (rekey account account w)) \<rparr>"
      using i True by (simp add: rekey_def move_key_same ensure_def)
    then show ?thesis using r True
      by (metis quiet_same snd_conv frost_wallet.surjective frost_wallet.update_convs(4) frost_wallet.select_convs)
  next
    case False
    show ?thesis
    proof (cases "move_key new account (fw_params w)")
      case None
      then have "w' = w" using r by (simp add: rekey_def)
      then show ?thesis by (simp add: qs.refl)
    next
      case (Some m)
      then have "m account = None" using False by (auto simp: move_key_def split: option.splits if_splits)
      moreover have "fw_params (snd (rekey new account w)) = m"
        using Some by (auto simp: rekey_def andthen_def the_or_def ensure_def split: option.split)
      ultimately show ?thesis using r by (intro quiet_gone) simp
    qed
  qed
  then show ?thesis by (metis steps_def prod.collapse)
qed

lemma quiet_complete_finalize: "steps (quiet account) (complete_finalize account frost m b)"
proof -
  have "steps (quiet account) delete_frost_state"
    unfolding delete_frost_state_def
    by (intro qs.steps_andthen qs.steps_for_each quiet_delete_account quiet_prims qs.steps_pure)
      (simp add: steps_def quiet_same)
  then show ?thesis
    unfolding complete_finalize_def
    by (intro qs.steps_andthen quiet_rekey)
      (auto split: option.split intro!: qs.steps_andthen quiet_set_params quiet_delete_account simp: same_group_def)
qed

section \<open>The invariant\<close>

definition complete :: "u32 \<Rightarrow> u8 \<Rightarrow> dkg_params_row \<Rightarrow> frost_wallet \<Rightarrow> bool" where
  "complete account round p w =
     (\<forall>q. 1 \<le> q \<and> q \<le> dp_n p \<and> q \<noteq> dp_id p \<longrightarrow> peer_at account round q w \<noteq> None)"

text \<open>A secret of a round stands for every package of the round before.\<close>

definition rounds_ok :: "u32 \<Rightarrow> dkg_params_row \<Rightarrow> frost_wallet \<Rightarrow> bool" where
  "rounds_ok account p w = (let s = state_of account w
     in (ds_spkg1 s \<noteq> None \<longrightarrow> complete account 0 p w)
      \<and> (ds_spkg2 s \<noteq> None \<longrightarrow> complete account 1 p w)
      \<and> (ds_key_pkg s \<noteq> None \<longrightarrow> complete account 2 p w))"

definition pending_ok :: "u32 \<Rightarrow> frost_wallet \<Rightarrow> bool" where
  "pending_ok account w = (\<forall>pp. pending_of account w = Some pp \<longrightarrow>
     pp_round pp < 3 \<and> load_secret (pp_round pp) (state_of account w) \<noteq> None)"

definition dkg_inv :: "u32 \<Rightarrow> frost_wallet \<Rightarrow> bool" where
  "dkg_inv account w = (\<forall>p. fw_params w account = Some p \<longrightarrow>
     1 \<le> dp_id p \<and> dp_id p \<le> dp_n p \<and> dp_n p \<le> 255 \<and> peers_ok account w
     \<and> rounds_ok account p w \<and> pending_ok account w)"

text \<open>What is stored stays stored, for as long as the parameters are under the account.\<close>

definition kept :: "u32 \<Rightarrow> frost_wallet \<Rightarrow> frost_wallet \<Rightarrow> bool" where
  "kept account w w' = (fw_params w' account \<noteq> None \<longrightarrow> fw_params w account \<noteq> None
     \<and> (\<forall>r x. load_secret r (state_of account w) = Some x \<longrightarrow> load_secret r (state_of account w') = Some x)
     \<and> (\<forall>x. ds_key_pkg (state_of account w) = Some x \<longrightarrow> ds_key_pkg (state_of account w') = Some x)
     \<and> (\<forall>r f d. peer_at account r f w = Some d \<longrightarrow> peer_at account r f w' = Some d))"

interpretation kp: two_state "kept account" for account
  by unfold_locales (auto simp: kept_def)

lemma secrets_load:
  "secrets account w' = secrets account w \<Longrightarrow>
   load_secret r (state_of account w') = load_secret r (state_of account w)
   \<and> ds_key_pkg (state_of account w') = ds_key_pkg (state_of account w)"
  by (simp add: secrets_def Let_def load_secret_def)

lemma quiet_kept: "quiet account w w' \<Longrightarrow> kept account w w'"
  unfolding kept_def
proof
  assume q: "quiet account w w'" and "fw_params w' account \<noteq> None"
  then obtain p' where "fw_params w' account = Some p'" by auto
  with q have "fw_params w account \<noteq> None" and s: "secrets account w' = secrets account w"
    and "\<forall>r f d. peer_at account r f w = Some d \<longrightarrow> peer_at account r f w' = Some d"
    by (auto simp: quiet_def)
  then show "fw_params w account \<noteq> None
     \<and> (\<forall>r x. load_secret r (state_of account w) = Some x \<longrightarrow> load_secret r (state_of account w') = Some x)
     \<and> (\<forall>x. ds_key_pkg (state_of account w) = Some x \<longrightarrow> ds_key_pkg (state_of account w') = Some x)
     \<and> (\<forall>r f d. peer_at account r f w = Some d \<longrightarrow> peer_at account r f w' = Some d)"
    by (simp only: secrets_load [OF s] simp_thms)
qed

lemma quiet_inv:
  assumes "dkg_inv account w" and "quiet account w w'"
  shows "dkg_inv account w'"
  unfolding dkg_inv_def
proof (intro allI impI)
  fix p' assume p': "fw_params w' account = Some p'"
  with assms(2) obtain p where q: "fw_params w account = Some p" "same_group p p'"
    "secrets account w' = secrets account w"
    "pending_of account w' = None \<or> pending_of account w' = pending_of account w"
    "\<And>r f d. peer_at account r f w = Some d \<Longrightarrow> peer_at account r f w' = Some d"
    "peers_ok account w \<Longrightarrow> peers_ok account w'" by (auto simp: quiet_def)
  from assms(1) q(1) have i: "1 \<le> dp_id p" "dp_id p \<le> dp_n p" "dp_n p \<le> 255" "peers_ok account w"
    "rounds_ok account p w" "pending_ok account w" by (auto simp: dkg_inv_def)
  have c: "complete account r p w \<Longrightarrow> complete account r p' w'" for r
    using q(2,5) by (fastforce simp: complete_def same_group_def)
  have l: "load_secret r (state_of account w') = load_secret r (state_of account w)"
    "ds_key_pkg (state_of account w') = ds_key_pkg (state_of account w)" for r
    using secrets_load [OF q(3)] by auto
  have "rounds_ok account p' w'"
    using i(5) c l(1) [of 1] l(1) [of 2] l(2) by (auto simp: rounds_ok_def Let_def load_secret_def)
  moreover have "pending_ok account w'"
    using i(6) q(4) l(1) by (auto simp: pending_ok_def)
  ultimately show "1 \<le> dp_id p' \<and> dp_id p' \<le> dp_n p' \<and> dp_n p' \<le> 255 \<and> peers_ok account w'
     \<and> rounds_ok account p' w' \<and> pending_ok account w'"
    using i q(2,6) by (simp add: same_group_def)
qed

text \<open>The count of the packages of the others, an \<open>u8\<close>, tells when a round is complete.\<close>

lemma count_complete:
  assumes p: "fw_params w account = Some p" "1 \<le> dp_id p" "dp_id p \<le> dp_n p" "dp_n p \<le> 255"
    and ok: "peers_ok account w" and r: "r < 3"
    and c: "dp_n p - 1 \<le> rs_others (round_state_of account p w r)"
  shows "complete account r p w"
proof -
  let ?rows = "filter (\<lambda>x. pe_account x = account \<and> pe_round x = r \<and> pe_from x \<noteq> dp_id p) (fw_peers w)"
  let ?others = "{1..dp_n p} - {dp_id p}"
  have d: "distinct (map pe_from ?rows)"
  proof -
    have "inj_on (\<lambda>r. (pe_account r, pe_round r, pe_from r)) (set (fw_peers w))" "distinct (fw_peers w)"
      using ok by (auto simp: peers_ok_def peer_keys_def distinct_map)
    then show ?thesis by (auto simp: distinct_map inj_on_def)
  qed
  have sub: "set (map pe_from ?rows) \<subseteq> ?others"
    using ok p(1) r by (auto simp: peers_ok_def)
  have fin: "finite ?others" and card: "card ?others = dp_n p - 1" using p(2,3) by auto
  have len: "length ?rows = card (set (map pe_from ?rows))" using distinct_card [OF d] by simp
  have le: "length ?rows \<le> dp_n p - 1" using len card card_mono [OF fin sub] by simp
  have "dp_n p - 1 \<le> length ?rows mod 2 ^ 8" using c by (simp add: round_state_of_def)
  also have "\<dots> \<le> length ?rows" by (rule mod_less_eq_dividend)
  finally have all: "set (map pe_from ?rows) = ?others"
    using card_subset_eq [OF fin sub] len card le by simp
  show ?thesis
    unfolding complete_def
  proof (intro allI impI)
    fix q assume "1 \<le> q \<and> q \<le> dp_n p \<and> q \<noteq> dp_id p"
    then have "q \<in> set (map pe_from ?rows)" unfolding all by auto
    then obtain x where "x \<in> set (fw_peers w)" "pe_account x = account" "pe_round x = r" "pe_from x = q"
      by auto
    then show "peer_at account r q w \<noteq> None" by (auto simp: peer_at_def find_None_iff)
  qed
qed

section \<open>The two effects that store a secret\<close>

definition with_secret :: "u8 \<Rightarrow> blob \<Rightarrow> pending_publish \<Rightarrow> u32 \<Rightarrow> frost_wallet \<Rightarrow> frost_wallet" where
  "with_secret r sec pp account w = w\<lparr> fw_state := (fw_state w)
     (account \<mapsto> (put_secret r sec (state_of account w))\<lparr> ds_pending := Some pp \<rparr>) \<rparr>"

lemma stage_cases:
  assumes "stage lib r account s w = (res, w')"
  shows "w' = w \<or> (\<exists>sec recipients. r < 3
    \<and> w' = with_secret r sec \<lparr> pp_round = r, pp_recipients = recipients \<rparr> account w)"
proof (cases "produce lib r s")
  case (Inl e)
  then show ?thesis using assms by (simp add: stage_def)
next
  case (Inr x)
  obtain sec recipients where x: "x = (sec, recipients)" by fastforce
  have "r < 3" using Inr by (auto simp: produce_def Let_def split: option.splits if_splits)
  then show ?thesis using assms Inr x
    by (auto simp: stage_def atomic_def store_secret_def update_state_def with_secret_def)
qed

lemma with_secret_state:
  "state_of account (with_secret r sec pp account w) = (put_secret r sec (state_of account w))\<lparr> ds_pending := Some pp \<rparr>"
  by (simp add: state_of_def with_secret_def)

lemma with_secret_rest [simp]:
  "fw_params (with_secret r sec pp account w) = fw_params w"
  "fw_peers (with_secret r sec pp account w) = fw_peers w"
  "peer_at a q f (with_secret r sec pp account w) = peer_at a q f w"
  "complete a q p (with_secret r sec pp account w) = complete a q p w"
  "peers_ok a (with_secret r sec pp account w) = peers_ok a w"
  by (simp_all add: with_secret_def peer_at_def complete_def peers_ok_def peer_keys_def)

lemma stage_kept:
  assumes "stage lib r account s w = (res, w')"
    and "fw_params w account \<noteq> None \<Longrightarrow> load_secret r (state_of account w) = None"
  shows "kept account w w'"
  using stage_cases [OF assms(1)]
proof (elim disjE exE conjE)
  fix sec recipients
  assume "r < 3" "w' = with_secret r sec \<lparr> pp_round = r, pp_recipients = recipients \<rparr> account w"
  then show ?thesis using assms(2)
    by (auto simp: kept_def with_secret_state load_secret_def put_secret_def split: if_splits)
qed (simp add: kp.refl)

lemma stage_inv:
  assumes "stage lib r account s w = (res, w')" and "dkg_inv account w"
    and "\<And>p q. fw_params w account = Some p \<Longrightarrow> q < r \<Longrightarrow> complete account q p w"
  shows "dkg_inv account w'"
  using stage_cases [OF assms(1)]
proof (elim disjE exE conjE)
  fix sec recipients
  assume r: "r < 3" and w': "w' = with_secret r sec \<lparr> pp_round = r, pp_recipients = recipients \<rparr> account w"
  show ?thesis
    unfolding dkg_inv_def
  proof (intro allI impI)
    fix p assume "fw_params w' account = Some p"
    then have p: "fw_params w account = Some p" by (simp add: w')
    have i: "1 \<le> dp_id p" "dp_id p \<le> dp_n p" "dp_n p \<le> 255" "peers_ok account w" "rounds_ok account p w"
      using assms(2) p by (auto simp: dkg_inv_def)
    have "rounds_ok account p w'"
      using i(5) assms(3) [OF p] r
      by (auto simp: rounds_ok_def w' with_secret_state put_secret_def Let_def)
    moreover have "pending_ok account w'"
      using r by (auto simp: pending_ok_def pending_of_def w' with_secret_state load_secret_def put_secret_def)
    ultimately show "1 \<le> dp_id p \<and> dp_id p \<le> dp_n p \<and> dp_n p \<le> 255 \<and> peers_ok account w'
      \<and> rounds_ok account p w' \<and> pending_ok account w'"
      using i by (simp add: w')
  qed
qed (use assms(2) in simp)

lemma finalize_key_cases:
  assumes "finalize_key lib account s w = (res, w')"
  shows "w' = w \<or> (\<not> do_key_pkg_present s \<and> (\<exists>kp v. quiet account v w' \<and>
    v = w\<lparr> fw_state := (fw_state w)(account := map_option (\<lambda>r. r\<lparr> ds_key_pkg := Some kp \<rparr>) (fw_state w account)) \<rparr>))"
proof -
  have i: "quiet account v (snd (insert_peer \<lparr> pe_account = account, pe_round = 3, pe_from = f, pe_data = d \<rparr> v))"
    for v f d using quiet_insert_peer [of "\<lparr> pe_account = account, pe_round = 3, pe_from = f, pe_data = d \<rparr>"]
    by (simp add: steps_def)
  have n: "fst (insert_peer r v) = Inr ()" for r v by (simp add: insert_peer_def)
  show ?thesis
  proof (cases "\<not> do_key_pkg_present s \<and> do_state2 s \<noteq> None")
    case False
    then have "w' = w" using assms by (cases "do_key_pkg_present s") (auto simp: finalize_key_def)
    then show ?thesis by simp
  next
    case True
    then obtain s2 where s2: "do_state2 s = Some s2" by auto
    show ?thesis
    proof (cases "fl_part3 lib (s2_spkg2 s2) (s1_ppkg1s (s2_state1 s2)) (s2_ppkg2s s2)")
      case None
      then show ?thesis using assms True s2 by (simp add: finalize_key_def)
    next
      case (Some x)
      obtain kp pp where "x = (kp, pp)" by fastforce
      then show ?thesis using assms True s2 Some i n
        by (auto simp: finalize_key_def atomic_def update_state_def split: prod.splits sum.splits)
          (metis fst_conv snd_conv sum.distinct(1))+
    qed
  qed
qed

end
