(* ===== verification/Dkg_Pass.thy ===== *)
theory Dkg_Pass
  imports Dkg_Invariant
begin

text \<open>
  The invariant and the persistence of the secrets over a whole pass of the key generation,
  whatever the server answers and wherever the pass ends, while other writers touch nothing but
  the chain log, as a sync does.
\<close>

section \<open>What a snapshot says of its wallet\<close>

lemma round_state_of_cong:
  "fw_state w' = fw_state w \<Longrightarrow> fw_peers w' = fw_peers w \<Longrightarrow> round_state_of a p w' = round_state_of a p w"
  by (rule ext) (simp add: round_state_of_def state_of_def)

lemma observe_obs_ok: "observe lib fa w = (Inr s, w') \<Longrightarrow> obs_ok s"
  by (erule observe_ok) (auto simp: obs_ok_def round_state_of_def split: option.split)

lemma observe_matches:
  assumes "observe lib account w = (Inr s, w')" and "fw_params w' account = Some p"
  shows "do_params s = p" "do_rounds s = map (round_state_of account p w') [0..<3]"
    "do_key_pkg_present s = (ds_key_pkg (state_of account w') \<noteq> None)"
proof -
  obtain p1 a rekeyed w1 where h: "params_account_of account w = Some (p1, a, rekeyed)" "adds_peers w w1"
    "w' = w1 \<or> w' = cleared DKG_LAST_TXID_PROP w1"
    "do_params s = p1" "do_rounds s = map (round_state_of a p1 w1) [0..<3]"
    "do_key_pkg_present s = (ds_key_pkg (state_of a w1) \<noteq> None)"
    using assms(1) by (rule observe_ok) auto
  have same: "fw_params w' = fw_params w" "fw_state w' = fw_state w1" "fw_peers w' = fw_peers w1"
    using h(2,3) by (auto simp: adds_peers_def cleared_def)
  then have "p1 = p" "a = account" using h(1) assms(2) by (auto simp: params_account_of_def)
  then show "do_params s = p" "do_rounds s = map (round_state_of account p w') [0..<3]"
    "do_key_pkg_present s = (ds_key_pkg (state_of account w') \<noteq> None)"
    using h(4-) same round_state_of_cong [of w' w1] by (auto simp: state_of_def)
qed

lemma observe_round:
  assumes "observe lib account w = (Inr s, w')" and "fw_params w' account = Some p" and "r < 3"
  shows "do_rounds s ! r = round_state_of account p w' r"
  using observe_matches(2) [OF assms(1,2)] assms(3) by simp

lemma secret_present_load:
  "rs_secret_present (round_state_of a p w r) = (load_secret r (state_of a w) \<noteq> None)"
  by (simp add: round_state_of_def)

section \<open>The tasks\<close>

lemma publish_round_lt: "next_dkg_task s = PublishRound r \<Longrightarrow> obs_ok s \<Longrightarrow> r < 3"
  by (auto simp: next_dkg_unfold pending_round_cases obs_ok_def split: option.splits if_splits)

text \<open>The rounds below a round about to be staged are complete.\<close>

lemma staged_rounds_complete:
  assumes o: "observe lib account w = (Inr s, w1)" and "next_dkg_task s = PublishRound r"
    and inv: "dkg_inv account w1" and p: "fw_params w1 account = Some p"
    and none: "load_secret r (state_of account w1) = None" and "q < r"
  shows "complete account q p w1"
proof -
  have r: "r < 3" using assms(2) observe_obs_ok [OF o] by (rule publish_round_lt)
  have "rs_pending (do_rounds s ! r) = None"
  proof (rule ccontr)
    assume "rs_pending (do_rounds s ! r) \<noteq> None"
    then obtain pp where "pending_of account w1 = Some pp" "pp_round pp = r"
      by (auto simp: observe_round [OF o p r] round_state_of_def pending_of_def split: option.splits if_splits)
    then show False using inv p none by (auto simp: dkg_inv_def pending_ok_def)
  qed
  then have "dp_n p - 1 \<le> rs_others (do_rounds s ! q)"
    using publish_round_planned [OF assms(2) observe_obs_ok [OF o]] \<open>q < r\<close> observe_matches(1) [OF o p] by simp
  moreover have "q < 3" using \<open>q < r\<close> r by simp
  ultimately have "dp_n p - 1 \<le> rs_others (round_state_of account p w1 q)"
    by (simp add: observe_round [OF o p])
  with p inv \<open>q < 3\<close> show ?thesis by (intro count_complete) (auto simp: dkg_inv_def)
qed

lemma complete_quiet:
  assumes "complete account q p w1" and "quiet account w1 w2"
    and "fw_params w1 account = Some p" and "fw_params w2 account = Some p'"
  shows "complete account q p' w2"
  using assms by (fastforce simp: complete_def quiet_def same_group_def)

lemma publish_round_ok:
  assumes o1: "observe lib account w = (Inr s, w1)" and t: "next_dkg_task s = PublishRound r"
    and q: "quiet account w1 w3" and o2: "observe lib account w3 = (Inr fresh, w4)"
    and run: "publish_round lib sv account r fresh w4 = (res, w')"
  shows "kept account w4 w' \<and> (dkg_inv account w1 \<longrightarrow> dkg_inv account w')"
proof -
  have r: "r < 3" using t observe_obs_ok [OF o1] by (rule publish_round_lt)
  have q14: "quiet account w1 w4" using q stepsD [OF observe_quiet o2] qs.trans by blast
  have staged: "kept account w4 w5 \<and> (dkg_inv account w1 \<longrightarrow> dkg_inv account w5)"
    if "(if rs_secret_present (do_rounds fresh ! r) then ret () else stage lib r account fresh) w4 = (res5, w5)"
    for res5 w5
  proof (cases "rs_secret_present (do_rounds fresh ! r)")
    case True
    then show ?thesis using that quiet_inv [OF _ q14] by (auto simp: kp.refl)
  next
    case False
    with that have st: "stage lib r account fresh w4 = (res5, w5)" by simp
    have none: "load_secret r (state_of account w4) = None" if "fw_params w4 account = Some p" for p
      using False by (simp add: observe_round [OF o2 that r] secret_present_load)
    have "complete account q p w4" if i: "dkg_inv account w1" and p: "fw_params w4 account = Some p" and "q < r" for p q
    proof -
      obtain p1 where p1: "fw_params w1 account = Some p1" using q14 p by (auto simp: quiet_def)
      have "load_secret r (state_of account w1) = None"
        using none [OF p] quiet_kept [OF q14] p
        by (cases "load_secret r (state_of account w1)") (auto simp: kept_def)
      then have "complete account q p1 w1" using staged_rounds_complete [OF o1 t i p1] \<open>q < r\<close> by blast
      then show ?thesis using q14 p1 p by (rule complete_quiet)
    qed
    then show ?thesis
      using stage_kept [OF st] stage_inv [OF st] none quiet_inv [OF _ q14] by auto
  qed
  obtain res5 w5 where five: "(if rs_secret_present (do_rounds fresh ! r) then ret ()
      else stage lib r account fresh) w4 = (res5, w5)" by fastforce
  have "quiet account w5 w'"
    using run stepsD [OF quiet_publish_staged] five
    by (cases res5) (auto simp: publish_round_def andthen_def qs.refl)
  then show ?thesis using staged [OF five] quiet_kept quiet_inv kp.trans by blast
qed

lemma finalize_key_ok:
  assumes o1: "observe lib account w = (Inr s, w1)" and t: "next_dkg_task s = FinalizeKey"
    and q: "quiet account w1 w3" and o2: "observe lib account w3 = (Inr fresh, w4)"
    and run: "finalize_key lib account fresh w4 = (res, w')"
  shows "kept account w4 w' \<and> (dkg_inv account w1 \<longrightarrow> dkg_inv account w')"
proof -
  have q14: "quiet account w1 w4" using q stepsD [OF observe_quiet o2] qs.trans by blast
  show ?thesis
    using finalize_key_cases [OF run]
  proof (elim disjE exE conjE)
    assume "w' = w4"
    then show ?thesis using quiet_inv [OF _ q14] by (simp add: kp.refl)
  next
    fix kp v
    assume absent: "\<not> do_key_pkg_present fresh" and v: "v = w4\<lparr> fw_state := (fw_state w4)
        (account := map_option (\<lambda>r. r\<lparr> ds_key_pkg := Some kp \<rparr>) (fw_state w4 account)) \<rparr>"
      and q': "quiet account v w'"
    have rest: "fw_params v = fw_params w4" "peer_at a r f v = peer_at a r f w4"
      "complete a q p v = complete a q p w4" "peers_ok a v = peers_ok a w4" for a r f q p
      by (simp_all add: v peer_at_def complete_def peers_ok_def peer_keys_def)
    have same: "load_secret r (state_of account v) = load_secret r (state_of account w4)"
      "pending_of account v = pending_of account w4" for r
      by (cases "fw_state w4 account"; simp add: v load_secret_def pending_of_def state_of_def)+
    have none: "ds_key_pkg (state_of account w4) = None" if "fw_params w4 account = Some p" for p
      using absent observe_matches(3) [OF o2 that] by simp
    have "kept account w4 v" using none by (auto simp: kept_def same rest)
    moreover have "dkg_inv account v" if i: "dkg_inv account w1"
    proof -
      have i4: "dkg_inv account w4" using i q14 by (rule quiet_inv)
      have "complete account 2 p w4" if p: "fw_params w4 account = Some p" for p
      proof -
        obtain p1 where p1: "fw_params w1 account = Some p1" using q14 p by (auto simp: quiet_def)
        have "dp_n p1 - 1 \<le> rs_others (round_state_of account p1 w1 2)"
          using finalize_planned [of s] t observe_obs_ok [OF o1] observe_matches(1) [OF o1 p1]
            observe_round [OF o1 p1, of 2] by (simp add: all_three)
        then have "complete account 2 p1 w1"
          using i p1 by (intro count_complete) (auto simp: dkg_inv_def)
        then show ?thesis using q14 p1 p by (rule complete_quiet)
      qed
      moreover have "ds_spkg1 (state_of account v) = ds_spkg1 (state_of account w4)"
        "ds_spkg2 (state_of account v) = ds_spkg2 (state_of account w4)"
        using same(1) [of 1] same(1) [of 2] by (simp_all add: load_secret_def)
      ultimately show ?thesis using i4
        by (auto simp: dkg_inv_def rounds_ok_def pending_ok_def same rest Let_def)
    qed
    ultimately show ?thesis using quiet_kept [OF q'] quiet_inv [OF _ q'] kp.trans by blast
  qed
qed

section \<open>The pass\<close>

text \<open>While a pass runs, other writers touch nothing but the chain log.\<close>

definition log_only :: "pass_env \<Rightarrow> bool" where
  "log_only env = (\<forall>w. \<exists>db. pe_meanwhile env w = w\<lparr> fw_log := db \<rparr>)"

lemma meanwhile_quiet: "log_only env \<Longrightarrow> quiet account w (pe_meanwhile env w)"
  by (metis log_only_def quiet_same frost_wallet.select_convs frost_wallet.surjective frost_wallet.update_convs(1))

definition preserved :: "u32 \<Rightarrow> frost_wallet \<Rightarrow> frost_wallet \<Rightarrow> bool" where
  "preserved account w w' = (kept account w w' \<and> (dkg_inv account w \<longrightarrow> dkg_inv account w'))"

interpretation pr: two_state "preserved account" for account
  by unfold_locales (auto simp: preserved_def intro: kp.refl kp.trans)

lemma quiet_preserved: "quiet account w w' \<Longrightarrow> preserved account w w'"
  using quiet_kept quiet_inv by (auto simp: preserved_def)

lemma run_task_preserved:
  assumes o1: "observe lib account w = (Inr s, w1)" and q: "quiet account w1 w3"
    and o2: "observe lib account w3 = (Inr fresh, w4)"
    and run: "run_dkg_task lib sv account (next_dkg_task s) fresh executed shared w4 = (res, w')"
  shows "preserved account w1 w'"
proof -
  have q14: "quiet account w1 w4" using q stepsD [OF observe_quiet o2] qs.trans by blast
  have step: ?thesis if "quiet account w4 w'"
    using that q14 qs.trans quiet_preserved by blast
  have gain: ?thesis if "kept account w4 w' \<and> (dkg_inv account w1 \<longrightarrow> dkg_inv account w')"
    using that quiet_kept [OF q14] kp.trans by (auto simp: preserved_def)
  show ?thesis
  proof (cases "next_dkg_task s")
    case (PublishRound r)
    obtain x v where "publish_round lib sv account r fresh w4 = (x, v)" by fastforce
    moreover from this have "v = w'" using run PublishRound
      by (auto simp: run_dkg_task_def run_publish_round_def split: sum.splits frost_error.splits)
    ultimately show ?thesis using publish_round_ok [OF o1 PublishRound q o2] gain by blast
  next
    case FinalizeKey
    obtain x v where "finalize_key lib account fresh w4 = (x, v)" by fastforce
    moreover from this have "v = w'" using run FinalizeKey
      by (auto simp: run_dkg_task_def andthen_def split: sum.splits)
    ultimately show ?thesis using finalize_key_ok [OF o1 FinalizeKey q o2] gain by blast
  next
    case EnsureAccounts
    have "steps (quiet account) (run_dkg_task lib sv account EnsureAccounts fresh executed shared)"
      unfolding run_dkg_task_def by (auto intro!: qs.steps_andthen quiet_ensure_accounts)
    then show ?thesis using run EnsureAccounts by (intro step) (metis stepsD)
  next
    case CreateFrostAccount
    have "steps (quiet account) (run_dkg_task lib sv account CreateFrostAccount fresh executed shared)"
      unfolding run_dkg_task_def by (auto intro!: qs.steps_andthen quiet_create_frost_account)
    then show ?thesis using run CreateFrostAccount by (intro step) (metis stepsD)
  next
    case CompleteFinalize
    have "steps (quiet account) (run_dkg_task lib sv account CompleteFinalize fresh executed shared)"
      unfolding run_dkg_task_def shared_address_def
      by (auto intro!: qs.steps_andthen quiet_complete_finalize split: option.split)
    then show ?thesis using run CompleteFinalize by (intro step) (metis stepsD)
  qed (use run in \<open>auto simp: run_dkg_task_def intro!: step qs.refl\<close>)
qed

lemma iteration_preserved:
  assumes env: "log_only env" and run: "dkg_iteration lib height account env executed shared w = (res, w')"
  shows "preserved account w w'"
proof (cases "observe lib account w")
  case (Pair r1 w1)
  have q1: "quiet account w w1" using Pair by (rule stepsD [OF observe_quiet])
  show ?thesis
  proof (cases r1)
    case (Inl e)
    then show ?thesis using run Pair q1 by (auto simp: dkg_iteration_def andthen_def intro: quiet_preserved)
  next
    case (Inr s)
    let ?own = "if next_dkg_task s = WaitOwnPublish then own_publish lib (pe_server env) account height else ret False"
    obtain r2 w2 where own: "?own w1 = (r2, w2)" by fastforce
    have "steps (quiet account) ?own" by (simp add: quiet_own_publish)
    then have q2: "quiet account w1 w2" using own by (rule stepsD)
    have o1: "observe lib account w = (Inr s, w1)" using Pair Inr by simp
    have done12: ?thesis if "quiet account w1 w'" using that q1 qs.trans quiet_preserved by blast
    obtain r4 w4 where o2: "observe lib account (pe_meanwhile env w2) = (r4, w4)" by fastforce
    have q3: "quiet account w1 (pe_meanwhile env w2)" using q2 meanwhile_quiet [OF env] qs.trans by blast
    have q4: "quiet account w1 w4" using q3 stepsD [OF observe_quiet o2] qs.trans by blast
    show ?thesis
    proof (cases "\<exists>fresh. r2 = Inr False \<and> dkg_kind (next_dkg_task s) = EffectTask \<and> r4 = Inr fresh
        \<and> dkg_satisfied (next_dkg_task s) fresh \<and> \<not> pe_stopping env")
      case True
      then obtain fresh where f: "r2 = Inr False" "dkg_kind (next_dkg_task s) = EffectTask" "r4 = Inr fresh"
        "dkg_satisfied (next_dkg_task s) fresh" "\<not> pe_stopping env" by blast
      then have "run_dkg_task lib (pe_server env) account (next_dkg_task s) fresh executed shared w4 = (res, w')"
        using run own o1 o2 by (simp add: dkg_iteration_def andthen_def [of "observe lib account"]
            andthen_def [of ?own] Let_def)
      from run_task_preserved [OF o1 q3 o2 [unfolded f(3)] this]
      show ?thesis using quiet_preserved [OF q1] pr.trans by blast
    next
      case False
      then have "w' = w2 \<or> w' = w4"
        using run own o1 o2 by (auto simp: dkg_iteration_def andthen_def [of "observe lib account"]
            andthen_def [of ?own] Let_def split: sum.splits if_splits prod.splits)
      then show ?thesis using q2 q4 done12 by auto
    qed
  qed
qed

lemma pass_preserved:
  assumes "\<And>env. env \<in> set envs \<Longrightarrow> log_only env"
    and "dkg_pass lib height account envs executed shared w = (res, w')"
  shows "preserved account w w'"
  using assms
proof (induction envs arbitrary: executed shared w)
  case Nil
  then show ?case by (auto intro: pr.refl)
next
  case (Cons env envs)
  obtain t w1 where i: "dkg_iteration lib height account env executed shared w = (t, w1)" by fastforce
  have p: "preserved account w w1" using Cons.prems(1) i by (intro iteration_preserved) auto
  have "preserved account w1 w'"
  proof (cases t)
    case (Inl e)
    then show ?thesis using Cons.prems(2) i by (auto simp: andthen_def intro: pr.refl)
  next
    case (Inr turn)
    then show ?thesis using Cons.prems i Cons.IH
      by (cases turn) (auto simp: andthen_def intro: pr.refl)
  qed
  with p show ?case using pr.trans by blast
qed

section \<open>When nothing is sent\<close>

text \<open>Nothing is posted, no round is staged and the parameters stay where they are.\<close>

definition unsent :: "u32 \<Rightarrow> frost_wallet \<Rightarrow> frost_wallet \<Rightarrow> bool" where
  "unsent account w w' = (fw_posted w' = fw_posted w
     \<and> (fw_params w account \<noteq> None \<longrightarrow> fw_params w' account \<noteq> None)
     \<and> (pending_of account w' = None \<or> pending_of account w' = pending_of account w))"

interpretation us: two_state "unsent account" for account
  by unfold_locales (auto simp: unsent_def)

lemma unsentD: "unsent account w w' \<Longrightarrow> fw_posted w' = fw_posted w"
  by (simp add: unsent_def)

lemma unsent_pending:
  "unsent account w w' \<Longrightarrow> pending_of account w' = Some pp \<Longrightarrow> pending_of account w = Some pp"
  by (auto simp: unsent_def)

lemma unsent_same:
  "fw_posted w' = fw_posted w \<Longrightarrow> fw_params w' = fw_params w \<Longrightarrow> fw_state w' = fw_state w \<Longrightarrow> unsent account w w'"
  by (simp add: unsent_def pending_of_def state_of_def)

lemma unsent_prims [intro, simp]:
  "steps (unsent account) (put_prop key v)"
  "steps (unsent account) (new_account lib name seed)"
  "steps (unsent account) (store_address a i address)"
  "steps (unsent account) (set_params a f)"
  "steps (unsent account) (insert_peer r)"
  "steps (unsent account) (update_state a (\<lambda>r. r\<lparr> ds_key_pkg := Some kp \<rparr>))"
  by (auto simp: steps_def put_prop_def new_account_def store_address_def set_params_def insert_peer_def
      update_state_def Let_def unsent_def pending_of_def state_of_def split: option.split)

lemma unsent_lookup [intro, simp]: "steps (unsent account) (mailbox_address lib a)"
  unfolding mailbox_address_def by (intro us.steps_andthen) auto

lemma unsent_observe: "steps (unsent account) (observe lib a)"
proof (rule steps_mono [OF observe_steps])
  fix u v assume "observes u v"
  then show "unsent account u v" by (intro unsent_same) (auto simp: observes_def)
qed

lemma unsent_ensure_accounts: "steps (unsent account) (ensure_accounts lib a p)"
proof -
  have "steps (unsent account) (create_mailbox lib a seed)" for seed
    unfolding create_mailbox_def by (intro us.steps_andthen) auto
  then have "steps (unsent account) (get_mailbox_account lib a i)" for i
    unfolding get_mailbox_account_def
    by (intro us.steps_atomic us.steps_andthen) (auto split: option.split)
  moreover have "steps (unsent account) (get_coordinator_broadcast_account lib a)"
    unfolding get_coordinator_broadcast_account_def
    by (intro us.steps_andthen) (auto split: option.split)
  ultimately show ?thesis
    unfolding ensure_accounts_def get_addresses_def by (intro us.steps_andthen us.steps_pure)
qed

lemma unsent_finalize_key: "steps (unsent account) (finalize_key lib a s)"
  unfolding finalize_key_def by (auto intro!: us.steps_andthen us.steps_atomic split: prod.split)

lemma unsent_create_frost_account: "steps (unsent account) (create_frost_account lib a b)"
proof -
  have add: "steps (unsent account) (modify (\<lambda>w. w\<lparr> fw_accounts := f w \<rparr>))" for f
    by (simp add: steps_def unsent_same)
  show ?thesis
    unfolding create_frost_account_def shared_address_def by (intro us.steps_andthen) (auto intro!: add)
qed

definition same_posts :: "frost_wallet \<Rightarrow> frost_wallet \<Rightarrow> bool" where
  "same_posts w w' = (fw_posted w' = fw_posted w)"

interpretation sp: two_state same_posts
  by unfold_locales (auto simp: same_posts_def)

lemma same_posts_modify [intro, simp]:
  "(\<And>w. fw_posted (f w) = fw_posted w) \<Longrightarrow> steps same_posts (modify f)"
  by (simp add: steps_def same_posts_def)

lemma same_posts_delete_frost_state: "steps same_posts delete_frost_state"
proof -
  have "steps same_posts (delete_account i)" for i unfolding delete_account_def by simp
  then show ?thesis
    unfolding delete_frost_state_def delete_props_like_def
    by (intro sp.steps_andthen sp.steps_for_each) auto
qed

lemma same_posts_complete_finalize: "steps same_posts (complete_finalize a frost m b)"
proof -
  have d: "steps same_posts (delete_account i)" for i unfolding delete_account_def by simp
  have "steps same_posts (rekey frost a)"
    unfolding rekey_def by (intro sp.steps_andthen) auto
  then show ?thesis
    unfolding complete_finalize_def set_params_def
    by (intro sp.steps_andthen)
      (auto split: option.split intro!: sp.steps_andthen d same_posts_delete_frost_state)
qed

section \<open>When every round is out\<close>

definition all_published :: "u32 \<Rightarrow> frost_wallet \<Rightarrow> bool" where
  "all_published account w = (fw_params w account \<noteq> None
     \<and> (\<forall>r < 3. load_secret r (state_of account w) \<noteq> None) \<and> pending_of account w = None)"

lemma all_published_next:
  assumes "all_published account w" and "kept account w w'" and "unsent account w w'"
  shows "all_published account w'"
  using assms by (fastforce simp: all_published_def kept_def unsent_def)

lemma all_published_task:
  assumes o: "observe lib account w = (Inr s, w1)" and a: "all_published account w1"
  shows "next_dkg_task s \<noteq> WaitOwnPublish" "next_dkg_task s \<noteq> PublishRound r"
proof -
  obtain p where p: "fw_params w1 account = Some p" using a by (auto simp: all_published_def)
  have r: "rs_secret_present (do_rounds s ! q)" "rs_pending (do_rounds s ! q) = None" if "q < 3" for q
    unfolding observe_round [OF o p that]
    using a that by (simp_all add: round_state_of_def all_published_def pending_of_def)
  show "next_dkg_task s \<noteq> WaitOwnPublish" using wait_own_publish_planned [of s] r(1) by blast
  show "next_dkg_task s \<noteq> PublishRound r"
  proof
    assume t: "next_dkg_task s = PublishRound r"
    then have "r < 3" using observe_obs_ok [OF o] by (rule publish_round_lt)
    from publish_round_planned [OF t observe_obs_ok [OF o] r(2) [OF this]] r(1) [OF this]
    show False by simp
  qed
qed

lemma run_task_silent:
  assumes "t \<noteq> WaitOwnPublish" and "\<And>r. t \<noteq> PublishRound r"
    and "run_dkg_task lib sv account t fresh executed shared w = (res, w')"
  shows "fw_posted w' = fw_posted w" and "t \<noteq> CompleteFinalize \<Longrightarrow> unsent account w w'"
    and "t = CompleteFinalize \<Longrightarrow> res = Inr turn \<Longrightarrow> \<exists>out. turn = Stopped out"
proof -
  have u: "steps (unsent account) (run_dkg_task lib sv account t fresh executed shared)" if "t \<noteq> CompleteFinalize"
    using that assms(1,2) unfolding run_dkg_task_def
    by (cases t) (auto intro!: us.steps_andthen unsent_ensure_accounts unsent_finalize_key
        unsent_create_frost_account)
  then show c: "t \<noteq> CompleteFinalize \<Longrightarrow> unsent account w w'" using assms(3) stepsD by metis
  have "steps same_posts (run_dkg_task lib sv account CompleteFinalize fresh executed shared)"
    unfolding run_dkg_task_def shared_address_def mailbox_address_def
    by (auto intro!: sp.steps_andthen same_posts_complete_finalize split: option.split)
  then show "fw_posted w' = fw_posted w"
    using c assms(3) stepsD by (cases "t = CompleteFinalize") (fastforce simp: same_posts_def unsent_def)+
  show "t = CompleteFinalize \<Longrightarrow> res = Inr turn \<Longrightarrow> \<exists>out. turn = Stopped out"
    using assms(3) by (auto simp: run_dkg_task_def andthen_def split: prod.splits sum.splits)
qed

lemma iteration_silent:
  assumes a: "all_published account w" and env: "log_only env"
    and run: "dkg_iteration lib height account env executed shared w = (res, w')"
  shows "fw_posted w' = fw_posted w" and "res = Inr t \<Longrightarrow> (\<And>out. t \<noteq> Stopped out) \<Longrightarrow> all_published account w'"
proof -
  have post: "fw_posted (pe_meanwhile env v) = fw_posted v" "unsent account v (pe_meanwhile env v)" for v
    using env unfolding log_only_def unsent_def pending_of_def state_of_def
    by (metis frost_wallet.select_convs frost_wallet.surjective frost_wallet.update_convs(1))+
  have "fw_posted w' = fw_posted w \<and> ((\<exists>t. res = Inr t \<and> (\<forall>out. t \<noteq> Stopped out)) \<longrightarrow> unsent account w w')"
  proof (cases "observe lib account w")
    case (Pair r1 w1)
    have u1: "unsent account w w1" using Pair by (rule stepsD [OF unsent_observe])
    show ?thesis
    proof (cases r1)
      case (Inl e)
      then show ?thesis using run Pair u1 by (auto simp: dkg_iteration_def andthen_def unsent_def)
    next
      case (Inr s)
      have o1: "observe lib account w = (Inr s, w1)" using Pair Inr by simp
      have a1: "all_published account w1"
        using a quiet_kept [OF stepsD [OF observe_quiet o1]] u1 by (rule all_published_next)
      note t = all_published_task [OF o1 a1]
      obtain r4 w4 where o2: "observe lib account (pe_meanwhile env w1) = (r4, w4)" by fastforce
      have u4: "unsent account w w4"
        using u1 post(2) stepsD [OF unsent_observe o2] us.trans by blast
      show ?thesis
      proof (cases "\<exists>fresh. dkg_kind (next_dkg_task s) = EffectTask \<and> r4 = Inr fresh
          \<and> dkg_satisfied (next_dkg_task s) fresh \<and> \<not> pe_stopping env")
        case True
        then obtain fresh where "run_dkg_task lib (pe_server env) account (next_dkg_task s) fresh executed shared w4 = (res, w')"
          using run o1 o2 t(1) by (auto simp: dkg_iteration_def andthen_def Let_def)
        note silent = run_task_silent [OF t this]
        show ?thesis
        proof (cases "next_dkg_task s = CompleteFinalize")
          case True
          then show ?thesis using silent(1,3) unsentD [OF u4] by fastforce
        next
          case False
          then have "unsent account w w'" using silent(2) u4 us.trans by blast
          then show ?thesis using unsentD by blast
        qed
      next
        case False
        then have "w' = w1 \<or> w' = w4"
          using run o1 o2 t(1) by (auto simp: dkg_iteration_def andthen_def Let_def split: sum.splits if_splits)
        then show ?thesis using u1 u4 unsentD by blast
      qed
    qed
  qed
  then show "fw_posted w' = fw_posted w" "res = Inr t \<Longrightarrow> (\<And>out. t \<noteq> Stopped out) \<Longrightarrow> all_published account w'"
    using all_published_next [OF a] iteration_preserved [OF env run] by (auto simp: preserved_def)
qed

lemma pass_silent:
  assumes "all_published account w" and "\<And>env. env \<in> set envs \<Longrightarrow> log_only env"
    and "dkg_pass lib height account envs executed shared w = (res, w')"
  shows "fw_posted w' = fw_posted w"
  using assms
proof (induction envs arbitrary: executed shared w)
  case (Cons env envs)
  obtain t w1 where i: "dkg_iteration lib height account env executed shared w = (t, w1)" by fastforce
  note s = iteration_silent [OF Cons.prems(1) _ i]
  have "fw_posted w' = fw_posted w1"
  proof (cases t)
    case (Inl e)
    then show ?thesis using Cons.prems(3) i by (auto simp: andthen_def)
  next
    case (Inr turn)
    then show ?thesis using Cons.prems i Cons.IH s(2) [OF _ Inr]
      by (cases turn) (auto simp: andthen_def)
  qed
  then show ?case using s(1) Cons.prems(2) by simp
qed simp

section \<open>A round once published\<close>

definition round_out :: "u8 \<Rightarrow> u32 \<Rightarrow> frost_wallet \<Rightarrow> bool" where
  "round_out r account w = (fw_params w account \<noteq> None \<and> load_secret r (state_of account w) \<noteq> None
     \<and> (\<forall>pp. pending_of account w = Some pp \<longrightarrow> pp_round pp \<noteq> r))"

definition same_setup :: "frost_wallet \<Rightarrow> frost_wallet \<Rightarrow> bool" where
  "same_setup w w' = (fw_params w' = fw_params w)"

interpretation su: two_state same_setup
  by unfold_locales (auto simp: same_setup_def)

lemma same_setup_prims [intro, simp]:
  "steps same_setup (put_prop key v)"
  "steps same_setup (clear_publish key)"
  "steps same_setup (on_log f)"
  "steps same_setup (post_to sv tx_bytes)"
  "steps same_setup (update_state a g)"
  "steps same_setup (store_secret r a x)"
  "steps same_setup (\<lambda>w. (Inr (), snd (post_to sv tx_bytes w)))"
  by (auto simp: steps_def same_setup_def put_prop_def clear_publish_def on_log_def post_to_def
      update_state_def store_secret_def split: sum.split)

lemma same_setup_publish_round: "steps same_setup (publish_round lib sv a r s)"
proof -
  have "steps same_setup (stage_publish lib a rs key)" for rs key
    unfolding stage_publish_def by (intro su.steps_andthen) auto
  moreover have "steps same_setup (stage lib r a s)"
    unfolding stage_def by (intro su.steps_andthen) (auto split: prod.split intro!: su.steps_atomic su.steps_andthen)
  ultimately show ?thesis
    unfolding publish_round_def publish_staged_def send_staged_def
    by (intro su.steps_andthen) (auto split: option.split intro!: su.steps_andthen su.steps_atomic)
qed

lemma same_setup_own_publish: "steps same_setup (own_publish lib sv a height)"
proof -
  have "steps same_setup (resend_publish sv key)" for key
    unfolding resend_publish_def get_prop_def by (intro su.steps_andthen) (auto split: option.split)
  moreover have "steps same_setup (publish_expired lib key a height)" for key
    unfolding publish_expired_def get_prop_def
    by (intro su.steps_andthen) (auto split: option.split intro!: su.steps_andthen)
  ultimately show ?thesis
    unfolding own_publish_def by (intro su.steps_andthen) (auto intro: su.steps_andthen)
qed

lemma publish_round_split:
  assumes "publish_round lib sv account r s w = (res, w')"
  obtains x v where "(if rs_secret_present (do_rounds s ! r) then ret () else stage lib r account s) w = (x, v)"
    "quiet account v w'"
proof -
  obtain x v where xv: "(if rs_secret_present (do_rounds s ! r) then ret () else stage lib r account s) w = (x, v)"
    by fastforce
  have "quiet account v w'"
  proof (cases x)
    case (Inl e)
    then show ?thesis using assms xv by (simp add: publish_round_def andthen_def qs.refl)
  next
    case (Inr u)
    then have "publish_staged lib sv account (dp_id (do_params s)) v = (res, w')"
      using assms xv by (simp add: publish_round_def andthen_def)
    then show ?thesis by (rule stepsD [OF quiet_publish_staged])
  qed
  with xv show thesis by (rule that)
qed

lemma run_task_turn:
  assumes "run_dkg_task lib sv account t fresh executed shared w = (Inr turn, w')"
  shows "(\<exists>sh. turn = Ran t sh) \<or> (\<exists>out. turn = Stopped out \<and> set (dk_executed out) \<subseteq> insert t (set executed))"
  using assms
  by (cases t) (auto simp: run_dkg_task_def run_publish_round_def no_outcome_def andthen_Inr
      split: prod.splits sum.splits frost_error.splits option.splits)

lemma params_stay:
  assumes "t \<noteq> CompleteFinalize" and "fw_params w account \<noteq> None"
    and "run_dkg_task lib sv account t fresh executed shared w = (res, w')"
  shows "fw_params w' account \<noteq> None"
proof (cases "\<exists>r. t = PublishRound r")
  case True
  then obtain r where r: "t = PublishRound r" by blast
  obtain x v where x: "publish_round lib sv account r fresh w = (x, v)" by fastforce
  moreover from this have "v = w'" using assms(3) r
    by (auto simp: run_dkg_task_def run_publish_round_def split: sum.splits frost_error.splits)
  ultimately show ?thesis
    using stepsD [OF same_setup_publish_round x] assms(2) by (simp add: same_setup_def)
next
  case False
  show ?thesis
  proof (cases "t = WaitOwnPublish")
    case True
    then show ?thesis using assms(2,3) by (simp add: run_dkg_task_def)
  next
    case no: False
    have "unsent account w w'" using run_task_silent(2) [OF no _ assms(3) assms(1)] False by blast
    then show ?thesis using assms(2) by (simp add: unsent_def)
  qed
qed

lemma round_out_next:
  assumes "round_out r account w" and "kept account w w'" and "fw_params w' account \<noteq> None"
    and "\<And>pp. pending_of account w' = Some pp \<Longrightarrow> pp_round pp = r \<Longrightarrow> pending_of account w = Some pp"
  shows "round_out r account w'"
proof -
  obtain x where "load_secret r (state_of account w) = Some x" using assms(1) by (auto simp: round_out_def)
  then have "load_secret r (state_of account w') = Some x" using assms(2,3) by (simp add: kept_def)
  moreover have "pp_round pp \<noteq> r" if "pending_of account w' = Some pp" for pp
    using assms(1) assms(4) [OF that] by (auto simp: round_out_def)
  ultimately show ?thesis using assms(3) by (simp add: round_out_def)
qed

lemma quiet_pending:
  "quiet account w w' \<Longrightarrow> fw_params w' account \<noteq> None \<Longrightarrow> pending_of account w' = Some pp \<Longrightarrow>
   pending_of account w = Some pp"
  by (auto simp: quiet_def)

text \<open>Only staging a round makes its bytes pending.\<close>

lemma run_task_pending:
  assumes t: "t \<noteq> PublishRound r" and "t \<noteq> CompleteFinalize" and p: "fw_params w account \<noteq> None"
    and run: "run_dkg_task lib sv account t fresh executed shared w = (res, w')"
    and pp: "pending_of account w' = Some pp" "pp_round pp = r"
  shows "pending_of account w = Some pp"
proof (cases "\<exists>q. t = PublishRound q")
  case True
  then obtain q where q: "t = PublishRound q" "q \<noteq> r" using t by blast
  obtain x v where x: "publish_round lib sv account q fresh w = (x, v)" by fastforce
  then have v: "v = w'" using run q(1)
    by (auto simp: run_dkg_task_def run_publish_round_def split: sum.splits frost_error.splits)
  obtain x5 w5 where five: "(if rs_secret_present (do_rounds fresh ! q) then ret ()
      else stage lib q account fresh) w = (x5, w5)" and q5: "quiet account w5 w'"
    using x unfolding v by (rule publish_round_split)
  have "fw_params w' account \<noteq> None" using params_stay [OF assms(2) p run] .
  then have p5: "pending_of account w5 = Some pp" using pp(1) by (rule quiet_pending [OF q5])
  show ?thesis
  proof (cases "rs_secret_present (do_rounds fresh ! q)")
    case True
    then show ?thesis using five p5 by simp
  next
    case False
    with five have "stage lib q account fresh w = (x5, w5)" by simp
    from stage_cases [OF this] show ?thesis
    proof (elim disjE exE conjE)
      fix sec recipients
      assume "w5 = with_secret q sec \<lparr> pp_round = q, pp_recipients = recipients \<rparr> account w"
      then show ?thesis using p5 q(2) pp(2) by (auto simp: pending_of_def with_secret_state)
    qed (use p5 in simp)
  qed
next
  case False
  show ?thesis
  proof (cases "t = WaitOwnPublish")
    case True
    then show ?thesis using run pp(1) by (simp add: run_dkg_task_def)
  next
    case no: False
    have "unsent account w w'" using run_task_silent(2) [OF no _ run assms(2)] False by blast
    then show ?thesis using pp(1) by (rule unsent_pending)
  qed
qed

lemma iteration_round_out:
  assumes a: "round_out r account w" and env: "log_only env"
    and run: "dkg_iteration lib height account env executed shared w = (Inr t, w')"
    and ex: "PublishRound r \<notin> set executed"
  shows "case t of
      Replan \<Rightarrow> round_out r account w'
    | Ran task _ \<Rightarrow> task \<noteq> PublishRound r \<and> round_out r account w'
    | Stopped out \<Rightarrow> PublishRound r \<notin> set (dk_executed out)"
proof -
  obtain s w1 where o1: "observe lib account w = (Inr s, w1)"
    using run by (auto simp: dkg_iteration_def andthen_Inr)
  let ?own = "if next_dkg_task s = WaitOwnPublish then own_publish lib (pe_server env) account height else ret False"
  obtain expired w2 where own: "?own w1 = (Inr expired, w2)"
    using run o1 by (auto simp: dkg_iteration_def andthen_Inr Let_def)
  have stay: "fw_params w1 account \<noteq> None" "fw_params w2 account = fw_params w1 account"
  proof -
    show "fw_params w1 account \<noteq> None"
      using a stepsD [OF unsent_observe o1] by (auto simp: round_out_def unsent_def)
    have "steps same_setup ?own" by (simp add: same_setup_own_publish)
    from stepsD [OF this own] show "fw_params w2 account = fw_params w1 account" by (simp add: same_setup_def)
  qed
  have q1: "quiet account w w1" using o1 by (rule stepsD [OF observe_quiet])
  have "steps (quiet account) ?own" by (simp add: quiet_own_publish)
  then have q2: "quiet account w w2" using own q1 stepsD qs.trans by metis
  have out: "round_out r account v" if "quiet account w v" "fw_params v account \<noteq> None" for v
    using a quiet_kept [OF that(1)] that(2) quiet_pending [OF that] by (rule round_out_next)
  show ?thesis
  proof (cases "expired \<or> dkg_kind (next_dkg_task s) \<noteq> EffectTask")
    case True
    have "next_dkg_task s \<noteq> PublishRound r" if "dkg_kind (next_dkg_task s) \<noteq> EffectTask"
      using that by auto
    then show ?thesis
      using True run o1 own out [OF q2] stay ex
      by (auto simp: dkg_iteration_def andthen_def Let_def no_outcome_def split: if_splits)
  next
    case False
    obtain fresh w4 where o2: "observe lib account (pe_meanwhile env w2) = (Inr fresh, w4)"
      using run o1 own False by (auto simp: dkg_iteration_def andthen_Inr Let_def)
    have q4: "quiet account w w4"
      using q2 meanwhile_quiet [OF env] stepsD [OF observe_quiet o2] qs.trans by blast
    have p4: "fw_params w4 account \<noteq> None"
    proof -
      have "fw_params (pe_meanwhile env w2) = fw_params w2"
        using env unfolding log_only_def
        by (metis frost_wallet.select_convs(3) frost_wallet.surjective frost_wallet.update_convs(1))
      then show ?thesis using stepsD [OF unsent_observe o2] stay by (auto simp: unsent_def)
    qed
    have r4: "round_out r account w4" using q4 p4 by (rule out)
    show ?thesis
    proof (cases "dkg_satisfied (next_dkg_task s) fresh \<and> \<not> pe_stopping env")
      case no: False
      then show ?thesis
        using run o1 own o2 False r4 ex
        by (auto simp: dkg_iteration_def andthen_def Let_def no_outcome_def split: if_splits)
    next
      case True
      have run4: "run_dkg_task lib (pe_server env) account (next_dkg_task s) fresh executed shared w4 = (Inr t, w')"
        using run o1 own o2 False True by (auto simp: dkg_iteration_def andthen_def Let_def)
      have ne: "next_dkg_task s \<noteq> PublishRound r"
      proof
        assume t: "next_dkg_task s = PublishRound r"
        then have "r < 3" using observe_obs_ok [OF o1] by (rule publish_round_lt)
        moreover obtain p where "fw_params w4 account = Some p" using p4 by auto
        ultimately have "do_rounds fresh ! r = round_state_of account p w4 r"
          using observe_round [OF o2] by blast
        then show False using True t r4
          by (auto simp: round_out_def round_state_of_def pending_of_def Let_def split: option.splits if_splits)
      qed
      show ?thesis
      proof (cases "next_dkg_task s = CompleteFinalize")
        case True
        then obtain out where "t = Stopped out"
          using run_task_silent(3) [OF _ _ run4] by auto
        then show ?thesis using run_task_turn [OF run4] True ex by auto
      next
        case nc: False
        have "round_out r account w'" if "\<forall>out. t \<noteq> Stopped out"
        proof (rule round_out_next [OF a])
          show "kept account w w'" using iteration_preserved [OF env run] by (simp add: preserved_def)
          show "fw_params w' account \<noteq> None" using params_stay [OF nc p4 run4] .
          show "pending_of account w = Some pp" if "pending_of account w' = Some pp" "pp_round pp = r" for pp
            using run_task_pending [OF ne nc p4 run4 that] by (rule quiet_pending [OF q4 p4])
        qed
        then show ?thesis using run_task_turn [OF run4] ne ex by auto
      qed
    qed
  qed
qed

lemma pass_round_out:
  assumes "round_out r account w" and "\<And>env. env \<in> set envs \<Longrightarrow> log_only env"
    and "dkg_pass lib height account envs executed shared w = (Inr out, w')"
    and "PublishRound r \<notin> set executed"
  shows "PublishRound r \<notin> set (dk_executed out)"
  using assms
proof (induction envs arbitrary: executed shared w)
  case (Cons env envs)
  obtain t w1 where i: "dkg_iteration lib height account env executed shared w = (Inr t, w1)"
    using Cons.prems(3) by (auto simp: andthen_Inr)
  have "log_only env" using Cons.prems(2) by simp
  note n = iteration_round_out [OF Cons.prems(1) this i Cons.prems(4)]
  have env: "\<And>env. env \<in> set envs \<Longrightarrow> log_only env" using Cons.prems(2) by simp
  show ?case
  proof (cases t)
    case Replan
    then show ?thesis using n Cons.prems(3,4) i env Cons.IH [of w1 executed shared] by (simp add: andthen_def)
  next
    case (Ran task sh)
    then have "task \<noteq> PublishRound r" "round_out r account w1" using n by auto
    then show ?thesis using Ran Cons.prems(3,4) i env Cons.IH [of w1 "executed @ [task]" sh]
      by (auto simp: andthen_def)
  next
    case (Stopped o')
    then show ?thesis using n Cons.prems(3) i by (simp add: andthen_def)
  qed
qed simp

end
