(* ===== verification/Dkg_Properties.thy ===== *)
theory Dkg_Properties
  imports Dkg_Pass
begin

text \<open>
  The properties of the key generation and of its write-ahead publish, with the wallet of a
  2-of-2 group as the witness.
\<close>

section \<open>An example group\<close>

text \<open>A library that spends the first note it finds and copies bytes where it can.\<close>

definition ex_lib :: frost_lib where
  "ex_lib = \<lparr>
     fl_read = (\<lambda>_ tx. Some \<lparr> ptx_transparent = Some [Inr tx], ptx_sapling = None, ptx_orchard = None,
       ptx_ironwood = None \<rparr>),
     fl_plan = (\<lambda>db account _. case spendable_rows account db of
         [] \<Rightarrow> Inl NoFeasibleSelection
       | r # _ \<Rightarrow> Inr \<lparr> stx_bytes = nt_nullifier r, stx_txid = replicate 32 7, stx_expiry = 400 \<rparr>),
     fl_memo = Some,
     fl_encode = (\<lambda>(i, d). Some (i # d)),
     fl_decode = (\<lambda>bs. case bs of [] \<Rightarrow> None | i # d \<Rightarrow> Some (i, d)),
     fl_vk_ok = (\<lambda>_. True),
     fl_signing_key = [1],
     fl_verifying_key = (\<lambda>_. replicate 32 1),
     fl_package = (\<lambda>_. Some),
     fl_part1 = (\<lambda>i n t. Some ([i], [n])),
     fl_part2 = (\<lambda>_ ps. Some ([2], map (\<lambda>(i, _). (i, [i])) ps)),
     fl_part3 = (\<lambda>_ _ _. Some ([3], [4])),
     fl_broadcast_seed = concat,
     fl_fresh_seed = ''m'',
     fl_orchard_keys = (\<lambda>s. (map of_char s, map of_char s)),
     fl_address = map char_of,
     fl_group_key = Some,
     fl_group_fvk = (\<lambda>_ sk ak. Some (sk @ ak)) \<rparr>"

definition ex_server :: server where
  "ex_server = \<lparr> sv_latest = Inr 300, sv_post = (\<lambda>_ _. Inr ''0a0b'') \<rparr>"

definition ex_env :: pass_env where
  "ex_env = \<lparr> pe_server = ex_server, pe_meanwhile = id, pe_stopping = False \<rparr>"

definition ex_params :: dkg_params_row where
  "ex_params = \<lparr> dp_id = 1, dp_n = 2, dp_t = 2, dp_seed = ''a'', dp_birth_height = 1,
     dp_name = ''group'', dp_version = 2, dp_sk = None \<rparr>"

definition ex_peer :: "u8 \<Rightarrow> peer_row" where
  "ex_peer round = \<lparr> pe_account = 1, pe_round = round, pe_from = 2, pe_data = replicate 32 1 @ [2] \<rparr>"

text \<open>Both addresses are known; \<open>rounds\<close> packages of the other participant are in.\<close>

definition ex_group :: "dkg_state_row \<Rightarrow> u8 \<Rightarrow> frost_wallet" where
  "ex_group s rounds = \<lparr> fw_log = ex_db, fw_props = (\<lambda>_. None),
     fw_params = [1 \<mapsto> ex_params],
     fw_addresses = [\<lparr> ad_account = 1, ad_from = 1, ad_address = ''a'' \<rparr>,
       \<lparr> ad_account = 1, ad_from = 2, ad_address = ''b'' \<rparr>],
     fw_state = [1 \<mapsto> s],
     fw_peers = map ex_peer [0..<rounds],
     fw_accounts = [
       \<lparr> wa_id = 2, wa_name = ''frost-mailbox'', wa_seed = Some ''a'', wa_internal = True,
          wa_xsk = Some [97], wa_xvk = Some [97] \<rparr>,
       \<lparr> wa_id = 3, wa_name = ''frost-broadcast'', wa_seed = Some ''ab'', wa_internal = True,
          wa_xsk = Some [97, 98], wa_xvk = Some [97, 98] \<rparr>],
     fw_signatures = [], fw_commitments = [], fw_posted = [] \<rparr>"

text \<open>Every round of ours is produced and published, the last one not mined.\<close>

definition ex_done :: dkg_state_row where
  "ex_done = \<lparr> ds_signing_key = Some [1], ds_spkg1 = Some [1], ds_spkg2 = Some [2], ds_key_pkg = None,
     ds_pending = None \<rparr>"

definition ex_tx :: signed_tx where
  "ex_tx = \<lparr> stx_bytes = [10], stx_txid = replicate 32 7, stx_expiry = 400 \<rparr>"

definition with_marker :: "frost_wallet \<Rightarrow> frost_wallet" where
  "with_marker w = w\<lparr> fw_props := [
     DKG_LAST_TXID_PROP \<mapsto> hex_encode (replicate 32 7),
     publish_tx_prop DKG_LAST_TXID_PROP \<mapsto> ''0a'',
     publish_expiry_prop DKG_LAST_TXID_PROP \<mapsto> ''400''] \<rparr>"

lemma ex_env_log_only: "log_only ex_env"
proof -
  have "\<exists>db. w = w\<lparr> fw_log := db \<rparr>" for w :: frost_wallet
    by (rule exI [of _ "fw_log w"], cases w) simp
  then show ?thesis by (simp add: log_only_def ex_env_def)
qed

text \<open>Our round 0 is out and the other participant's is in.\<close>

definition ex_round0 :: dkg_state_row where
  "ex_round0 = empty_state\<lparr> ds_signing_key := Some [77] \<rparr>"

lemma ex_round0_inv: "dkg_inv 1 (ex_group ex_round0 1)"
  by (auto simp: dkg_inv_def peers_ok_def rounds_ok_def pending_ok_def pending_of_def state_of_def
      ex_group_def ex_round0_def ex_params_def empty_state_def peer_keys_def ex_peer_def)

abbreviation ex_pass :: "(frost_error + dkg_outcome) \<times> frost_wallet" where
  "ex_pass \<equiv> dkg_step ex_lib 300 1 (\<lambda>_. ex_env) (ex_group ex_round0 1)"

lemma ex_pass_facts:
  "map_sum id dk_executed (fst ex_pass) = Inr [PublishRound 1, WaitRound 1]"
  "map_option (\<lambda>p. (dp_id p, dp_n p)) (fw_params (snd ex_pass) 1) = Some (1, 2)"
  "load_secret 0 (state_of 1 (snd ex_pass)) = Some [77]"
  "ds_spkg1 (state_of 1 (snd ex_pass)) = Some [1]"
proof -
  have "case ex_pass of (r, w) \<Rightarrow> map_sum id dk_executed r = Inr [PublishRound 1, WaitRound 1]
      \<and> map_option (\<lambda>p. (dp_id p, dp_n p)) (fw_params w 1) = Some (1, 2)
      \<and> load_secret 0 (state_of 1 w) = Some [77] \<and> ds_spkg1 (state_of 1 w) = Some [1]"
    by code_simp
  then show "map_sum id dk_executed (fst ex_pass) = Inr [PublishRound 1, WaitRound 1]"
    "map_option (\<lambda>p. (dp_id p, dp_n p)) (fw_params (snd ex_pass) 1) = Some (1, 2)"
    "load_secret 0 (state_of 1 (snd ex_pass)) = Some [77]"
    "ds_spkg1 (state_of 1 (snd ex_pass)) = Some [1]"
    by (simp_all add: case_prod_beta)
qed

section \<open>The write-ahead publish\<close>

definition memo_recipients :: "(string \<times> blob) list \<Rightarrow> (string \<times> blob) list" where
  "memo_recipients recipients = map (\<lambda>(a, data). (a, to_arb_memo data)) recipients"

text \<open>
  C22: the marker of a message does what the publish promises. Once a message is staged, then for
  as long as its marker stands, whatever else happens to the wallet, a resend hands the server
  exactly the staged bytes; the message counts as unmined until the account's scan has recorded
  its txid, in either byte order, and then the marker is cleared; and below its expiry it is never
  given up.
\<close>

theorem publish_marker_lifecycle:
  assumes "stage_publish lib account recipients key w = (Inr bytes, w1)"
    and "fl_plan lib (fw_log w) account (memo_recipients recipients) = Inr tx" and "signed_ok tx"
    and "\<forall>k \<in> marker_keys key. fw_props v k = fw_props w1 k"
  shows "bytes = stx_bytes tx
    \<and> resend_publish sv key v = (Inr (), snd (post_to sv bytes v))
    \<and> publish_unmined key account v =
        (if transaction_known account (stx_txid tx) (fw_log v) then (Inr False, cleared key v) else (Inr True, v))
    \<and> (height < stx_expiry tx \<longrightarrow> publish_expired lib key account height v = (Inr False, v))"
proof -
  obtain tx' where tx: "fl_plan lib (fw_log w) account (memo_recipients recipients) = Inr tx'"
    "bytes = stx_bytes tx'" "marked key tx' w1"
    using assms(1) by (rule stage_publish_marked) (simp add: memo_recipients_def)
  then have "tx' = tx" "marked key tx v" using assms(2,4) by (auto simp: marked_def marker_keys_def)
  then show ?thesis
    using tx(2) assms(3) publish_unmined_marked resend_publish_marked publish_expired_marked by auto
qed

theorem publish_marker_lifecycle_witness:
  "let w1 = snd (stage_publish ex_lib 1 [(''z'', [5])] DKG_LAST_TXID_PROP (ex_group ex_round0 1))
   in resend_publish ex_server DKG_LAST_TXID_PROP w1 = (Inr (), snd (post_to ex_server [10] w1))
    \<and> publish_unmined DKG_LAST_TXID_PROP 1 w1 = (Inr True, w1)"
proof -
  let ?m = "stage_publish ex_lib 1 [(''z'', [5])] DKG_LAST_TXID_PROP (ex_group ex_round0 1)"
  have a: "fst ?m = Inr [10]" by code_simp
  have p: "fl_plan ex_lib (fw_log (ex_group ex_round0 1)) 1 (memo_recipients [(''z'', [5])]) = Inr ex_tx"
    by code_simp
  have k: "signed_ok ex_tx" by code_simp
  have t: "transaction_known 1 (stx_txid ex_tx) (fw_log (snd ?m)) = False" by code_simp
  have "?m = (Inr [10], snd ?m)" using a by (metis prod.collapse)
  from publish_marker_lifecycle [OF this p k, of "snd ?m" ex_server] t show ?thesis
    by (simp add: Let_def)
qed

text \<open>
  C23: an expired message leaves no trace. If none of the notes that the staged transaction spends
  was locked before, then once the tip reaches its expiry, giving it up restores the wallet to
  what it was before the staging, the chain log and its locks included, with the three marker
  properties absent.
\<close>

theorem publish_expiry_undoes_staging:
  assumes "stage_publish lib account recipients key w = (Inr bytes, w1)"
    and "fl_plan lib (fw_log w) account (memo_recipients recipients) = Inr tx" and "signed_ok tx"
    and "stx_expiry tx \<le> height"
    and "\<forall>nfs. spent_nullifiers (fl_read lib) bytes = Inr (Some nfs) \<longrightarrow>
      (\<forall>r \<in> set (db_notes (fw_log w)). nt_account r = account \<and> nt_nullifier r \<in> set nfs \<longrightarrow> \<not> nt_locked r)"
  shows "publish_expired lib key account height w1 = (Inr True, cleared key w)"
proof -
  obtain tx' db where tx: "fl_plan lib (fw_log w) account (memo_recipients recipients) = Inr tx'"
    "bytes = stx_bytes tx'" "lock_spent_notes (fl_read lib) account bytes (fw_log w) = Inr db"
    "w1 = w\<lparr> fw_log := db, fw_props := (fw_props w)(key \<mapsto> hex_encode (stx_txid tx'),
        publish_tx_prop key \<mapsto> hex_encode (stx_bytes tx'),
        publish_expiry_prop key \<mapsto> show_nat (stx_expiry tx')) \<rparr>"
    using assms(1) by (rule stage_publish_ok) (simp add: memo_recipients_def)
  have "tx' = tx" using tx(1) assms(2) by simp
  then have m: "marked key tx w1" using tx(4) by (simp add: marked_def)
  have "unlock_spent_notes (fl_read lib) account (stx_bytes tx) (fw_log w1) = Inr (fw_log w)"
    using unlock_after_lock [OF tx(3)] assms(5) tx(2,4) \<open>tx' = tx\<close> by simp
  moreover have "cleared key (w1\<lparr> fw_log := fw_log w \<rparr>) = cleared key w"
    using tx(4) by (simp add: cleared_def fun_upd_twist fun_eq_iff)
  ultimately show ?thesis using publish_expired_marked [OF m assms(3)] assms(4) by simp
qed

theorem publish_expiry_undoes_staging_witness:
  "let w = ex_group ex_round0 1;
       w1 = snd (stage_publish ex_lib 1 [(''z'', [5])] DKG_LAST_TXID_PROP w)
   in map nt_locked (db_notes (fw_log w1)) \<noteq> map nt_locked (db_notes (fw_log w))
    \<and> publish_expired ex_lib DKG_LAST_TXID_PROP 1 400 w1 = (Inr True, cleared DKG_LAST_TXID_PROP w)"
proof -
  let ?w = "ex_group ex_round0 1"
  let ?m = "stage_publish ex_lib 1 [(''z'', [5])] DKG_LAST_TXID_PROP ?w"
  have a: "fst ?m = Inr [10]" by code_simp
  have p: "fl_plan ex_lib (fw_log ?w) 1 (memo_recipients [(''z'', [5])]) = Inr ex_tx" by code_simp
  have k: "signed_ok ex_tx" by code_simp
  have e: "stx_expiry ex_tx \<le> 400" by code_simp
  have n: "spent_nullifiers (fl_read ex_lib) [10] = Inr (Some [[10]])" by code_simp
  have u: "\<forall>r \<in> set (db_notes (fw_log ?w)). nt_account r = 1 \<and> nt_nullifier r \<in> set [[10]] \<longrightarrow> \<not> nt_locked r"
    by code_simp
  have l: "map nt_locked (db_notes (fw_log (snd ?m))) \<noteq> map nt_locked (db_notes (fw_log ?w))" by code_simp
  have "?m = (Inr [10], snd ?m)" using a by (metis prod.collapse)
  from publish_expiry_undoes_staging [OF this p k e] n u l show ?thesis by (simp add: Let_def)
qed

section \<open>The packages and the secrets\<close>

text \<open>
  Reading the memos again changes nothing, and the first package of a slot wins. An ingest
  keeps every package already stored, also when it ends in the error of a conflicting one; one
  that succeeds can be repeated with no effect, as every pass does.
\<close>

theorem ingest_is_idempotent:
  assumes "decode_dkg_memos lib round account mailbox w = (res, w')"
  shows "(\<forall>a r f d. peer_at a r f w = Some d \<longrightarrow> peer_at a r f w' = Some d)
    \<and> (res = Inr () \<longrightarrow> decode_dkg_memos lib round account mailbox w' = (Inr (), w'))"
proof -
  have "adds_peers w w'" using assms by (rule stepsD [OF decode_dkg_memos_steps])
  then show ?thesis using assms peer_at_adds decode_again ingest.refl by blast
qed

definition ex_memo :: "blob \<Rightarrow> memo_row" where
  "ex_memo bytes = \<lparr> me_id_tx = 1, me_height = 100, me_pool = 2, me_vout = 0, me_note = None,
     me_output = None, me_text = None, me_bytes = bytes, me_id = 1, me_account = 3 \<rparr>"

definition with_memos :: "blob list \<Rightarrow> frost_wallet \<Rightarrow> frost_wallet" where
  "with_memos bs w = w\<lparr> fw_log := (fw_log w)\<lparr> db_memos := map (\<lambda>b. ex_memo (round_prefix 1 @ b)) bs \<rparr> \<rparr>"

theorem ingest_is_idempotent_witness:
  "let w = with_memos [[2, 9], [7, 8], [2, 9]] (ex_group ex_round0 1);
       w' = snd (decode_dkg_memos ex_lib 1 1 3 w)
   in map_option pe_data (peer_at 1 1 2 w') = Some [9]
    \<and> decode_dkg_memos ex_lib 1 1 3 w' = (Inr (), w')
    \<and> fst (decode_dkg_memos ex_lib 1 1 3 (with_memos [[2, 9], [2, 8]] (ex_group ex_round0 1)))
        = Inl (ConflictingPackage 1 2)"
proof -
  let ?m = "decode_dkg_memos ex_lib 1 1 3 (with_memos [[2, 9], [7, 8], [2, 9]] (ex_group ex_round0 1))"
  have a: "fst ?m = Inr ()" by code_simp
  have b: "map_option pe_data (peer_at 1 1 2 (snd ?m)) = Some [9]" by code_simp
  have c: "fst (decode_dkg_memos ex_lib 1 1 3 (with_memos [[2, 9], [2, 8]] (ex_group ex_round0 1)))
        = Inl (ConflictingPackage 1 2)" by code_simp
  have "?m = (Inr (), snd ?m)" using a by (metis prod.collapse)
  from ingest_is_idempotent [OF this] b c show ?thesis by (simp add: Let_def)
qed

text \<open>
  C24: every participant or none. The invariant of the key generation, that a round's secret is
  stored only when the package of every other participant is in for the round before, and the key
  only when all of round 2 is, holds again after every pass, whatever the server answers, wherever
  the pass stops and also when it ends in an error, as long as other writers touch only the
  chain log.
\<close>

theorem all_n_discipline:
  assumes "dkg_inv account w" and "\<And>i. log_only (env i)"
    and "dkg_step lib height account env w = (res, w')" and "fw_params w' account = Some p"
    and "1 \<le> q" and "q \<le> dp_n p" and "q \<noteq> dp_id p"
  shows "dkg_inv account w'
    \<and> (ds_spkg1 (state_of account w') \<noteq> None \<longrightarrow> peer_at account 0 q w' \<noteq> None)
    \<and> (ds_spkg2 (state_of account w') \<noteq> None \<longrightarrow> peer_at account 1 q w' \<noteq> None)
    \<and> (ds_key_pkg (state_of account w') \<noteq> None \<longrightarrow> peer_at account 2 q w' \<noteq> None)"
proof -
  have "preserved account w w'"
    using assms(3) unfolding dkg_step_def by (rule pass_preserved [rotated]) (use assms(2) in auto)
  then have "dkg_inv account w'" using assms(1) by (simp add: preserved_def)
  then show ?thesis using assms(4-) by (auto simp: dkg_inv_def rounds_ok_def complete_def Let_def)
qed

theorem all_n_discipline_witness:
  "let w' = snd (dkg_step ex_lib 300 1 (\<lambda>_. ex_env) (ex_group ex_round0 1))
   in ds_spkg1 (state_of 1 w') = Some [1] \<and> peer_at 1 0 2 w' \<noteq> None \<and> dkg_inv 1 w'"
proof -
  obtain p where p: "fw_params (snd ex_pass) 1 = Some p" "dp_id p = 1" "dp_n p = 2"
    using ex_pass_facts(2) by auto
  have "ex_pass = (fst ex_pass, snd ex_pass)" by simp
  from all_n_discipline [OF ex_round0_inv ex_env_log_only this p(1), of 2] p ex_pass_facts(4)
  show ?thesis by (simp add: Let_def)
qed

text \<open>
  C25: what has been produced is never produced again. For as long as the parameters are under the
  account, which is until the key is finalized, a pass keeps every secret it finds, the key, and
  every package of a peer: what was published always matches what is stored.
\<close>

theorem dkg_secrets_written_once:
  assumes "\<And>i. log_only (env i)" and "dkg_step lib height account env w = (res, w')"
    and "fw_params w' account \<noteq> None"
  shows "(\<forall>r x. load_secret r (state_of account w) = Some x \<longrightarrow> load_secret r (state_of account w') = Some x)
    \<and> (\<forall>x. ds_key_pkg (state_of account w) = Some x \<longrightarrow> ds_key_pkg (state_of account w') = Some x)
    \<and> (\<forall>r f d. peer_at account r f w = Some d \<longrightarrow> peer_at account r f w' = Some d)"
proof -
  have "preserved account w w'"
    using assms(2) unfolding dkg_step_def by (rule pass_preserved [rotated]) (use assms(1) in auto)
  then show ?thesis using assms(3) by (simp add: preserved_def kept_def)
qed

theorem dkg_secrets_written_once_witness:
  "let w = ex_group ex_round0 1; w' = snd (dkg_step ex_lib 300 1 (\<lambda>_. ex_env) w)
   in load_secret 0 (state_of 1 w) = Some [77] \<and> load_secret 0 (state_of 1 w') = Some [77]
    \<and> load_secret 1 (state_of 1 w) = None \<and> load_secret 1 (state_of 1 w') = Some [1]"
proof -
  have a: "load_secret 1 (state_of 1 (ex_group ex_round0 1)) = None"
    "load_secret 0 (state_of 1 (ex_group ex_round0 1)) = Some [77]" by code_simp+
  have p: "fw_params (snd ex_pass) 1 \<noteq> None" using ex_pass_facts(2) by auto
  have "ex_pass = (fst ex_pass, snd ex_pass)" by simp
  note t = dkg_secrets_written_once [OF ex_env_log_only this p]
  have "load_secret 1 (state_of 1 (snd ex_pass)) = Some [1]"
    using ex_pass_facts(4) by (simp add: load_secret_def)
  with t a show ?thesis by (simp add: Let_def)
qed

section \<open>Where the key generation does not do what it says\<close>

text \<open>
  C26: the last round is never sent again. Once the secrets of all three rounds are stored and no
  bytes are staged, no pass hands anything to the server: if the send of the last message
  failed, or the process stopped between its commit and its broadcast, the staged transaction stays
  in the wallet while the others wait for it. The witness is such a wallet: its message is
  staged and unmined, below its expiry, the server is reachable, and the pass only waits.
\<close>

theorem lost_last_round_is_never_sent:
  assumes "fw_params w account \<noteq> None" and "\<forall>r < 3. load_secret r (state_of account w) \<noteq> None"
    and "ds_pending (state_of account w) = None"
    and "\<And>i. log_only (env i)" and "dkg_step lib height account env w = (res, w')"
  shows "fw_posted w' = fw_posted w"
proof -
  have "all_published account w" using assms(1-3) by (simp add: all_published_def pending_of_def)
  then show ?thesis
    by (rule pass_silent [OF _ _ assms(5) [unfolded dkg_step_def]]) (use assms(4) in auto)
qed

theorem lost_last_round_is_never_sent_witness:
  "let w = with_marker (ex_group ex_done 2); m = dkg_step ex_lib 300 1 (\<lambda>_. ex_env) w
   in publish_unmined DKG_LAST_TXID_PROP 1 w = (Inr True, w)
    \<and> fst (resend_publish ex_server DKG_LAST_TXID_PROP w) = Inr ()
    \<and> map_sum id dk_executed (fst m) = Inr [WaitRound 2]
    \<and> fw_posted (snd m) = []"
proof -
  let ?w = "with_marker (ex_group ex_done 2)"
  let ?m = "dkg_step ex_lib 300 1 (\<lambda>_. ex_env) ?w"
  have m: "marked DKG_LAST_TXID_PROP ex_tx ?w" by code_simp
  have k: "signed_ok ex_tx" by code_simp
  have t: "transaction_known 1 (stx_txid ex_tx) (fw_log ?w) = False" by code_simp
  have x: "map_sum id dk_executed (fst ?m) = Inr [WaitRound 2]" by code_simp
  have p: "fw_params ?w 1 \<noteq> None" by (simp add: with_marker_def ex_group_def)
  have "load_secret 0 (state_of 1 ?w) \<noteq> None" "load_secret 1 (state_of 1 ?w) \<noteq> None"
    "load_secret 2 (state_of 1 ?w) \<noteq> None" by code_simp+
  then have s: "\<forall>r < 3. load_secret r (state_of 1 ?w) \<noteq> None" by (simp add: all_three)
  have n: "ds_pending (state_of 1 ?w) = None" by code_simp
  have z: "fw_posted ?w = []" by code_simp
  have "?m = (fst ?m, snd ?m)" by simp
  from lost_last_round_is_never_sent [OF p s n ex_env_log_only this]
  show ?thesis
    using publish_unmined_marked [OF m k, of 1] resend_publish_marked [OF m k, of ex_server] t x z
    by (simp add: Let_def)
qed



end
