(* ===== verification/Dkg_Teardown.thy ===== *)
theory Dkg_Teardown
  imports Dkg_Properties
begin

text \<open>
  A crash inside the last effect of the key generation (\<open>complete_finalize\<close> of
  \<open>rust/src/frost/dkg/exec.rs\<close>). Its statements are committed one by one, the rows are
  moved to the frost account before the helper accounts are deleted, and the observation that
  resumes it looks up the mailbox that is already gone.
\<close>

section \<open>A torn teardown\<close>

text \<open>The rows are under the frost account and the account their seed names is deleted.\<close>

definition torn :: "u32 \<Rightarrow> frost_wallet \<Rightarrow> bool" where
  "torn account w =
     (fw_params w account = None \<and> addresses_of account w = []
      \<and> (case frost_account_prop w of
           None \<Rightarrow> False
         | Some fa \<Rightarrow>
             (case fw_params w fa of
                None \<Rightarrow> False
              | Some p \<Rightarrow> 0 < dp_n p \<and> mailbox_account_id fa w = None)))"

lemma torn_params: "torn account w \<Longrightarrow> params_account_of account w = Some (p, a, rekeyed) \<Longrightarrow>
    0 < dp_n p \<and> mailbox_account_id a w = None"
  by (auto simp: torn_def params_account_of_def split: option.splits)

lemma torn_cong:
  assumes "fw_params w' = fw_params w" "fw_addresses w' = fw_addresses w" "fw_accounts w' = fw_accounts w"
    "fw_props w' ''dkg_frost_account'' = fw_props w ''dkg_frost_account''"
  shows "torn account w' = torn account w"
  using assms
  by (simp add: torn_def addresses_of_def frost_account_prop_def mailbox_account_id_def find_by_seed_def
      split: option.split)

definition same_accounts :: "frost_wallet \<Rightarrow> frost_wallet \<Rightarrow> bool" where
  "same_accounts w w' = (fw_accounts w' = fw_accounts w \<and> fw_params w' = fw_params w
     \<and> fw_addresses w' = fw_addresses w
     \<and> fw_props w' ''dkg_frost_account'' = fw_props w ''dkg_frost_account'' \<and> fw_posted w' = fw_posted w)"

interpretation sa: two_state same_accounts
  by unfold_locales (auto simp: same_accounts_def)

lemma torn_same: "same_accounts w w' \<Longrightarrow> torn account w' = torn account w"
  by (rule torn_cong) (auto simp: same_accounts_def)

lemma frost_prop_not_marker: "''dkg_frost_account'' \<notin> marker_keys DKG_LAST_TXID_PROP"
  by (simp add: marker_keys_def DKG_LAST_TXID_PROP_def publish_tx_prop_def publish_expiry_prop_def)

lemma observe_same_accounts: "steps same_accounts (observe lib account)"
  using observe_steps by (rule steps_mono) (use frost_prop_not_marker in \<open>auto simp: observes_def same_accounts_def\<close>)

lemma meanwhile_same_accounts: "log_only env \<Longrightarrow> same_accounts w (pe_meanwhile env w)"
  by (auto simp: log_only_def same_accounts_def dest: spec [of _ w])

text \<open>Without a mailbox the planner can only wait or ask for the accounts again.\<close>

lemma torn_observed:
  assumes "torn account w" and "observe lib account w = (Inr s, w')"
  shows "0 < dp_n (do_params s) \<and> do_mailbox s = None"
  using assms(2) by (rule observe_ok) (use torn_params [OF assms(1)] in auto)

lemma no_mailbox_task:
  assumes "do_mailbox s = None"
  shows "next_dkg_task s = EnsureAccounts
    \<or> (next_dkg_task s \<noteq> WaitOwnPublish \<and> dkg_kind (next_dkg_task s) \<noteq> EffectTask)"
  using assms by (auto simp: next_dkg_task_def split: option.split)

text \<open>Asking for them fails, because the addresses moved with the rest of the rows.\<close>

lemma torn_ensure:
  assumes "torn account w" and "0 < dp_n p"
  shows "ensure_accounts lib account p w = (Inl AddressesIncomplete, w)"
  using assms
  by (cases "dp_n p") (auto simp: torn_def ensure_accounts_def get_addresses_def all_given_def andthen_def
      prog_simps the_or_def ensure_def)

lemma torn_iteration:
  assumes t: "torn account w" and env: "log_only env"
    and run: "dkg_iteration lib height account env executed shared w = (res, w')"
  shows "same_accounts w w' \<and> (case res of
      Inl e \<Rightarrow> True
    | Inr (Stopped out) \<Rightarrow> \<exists>ts. dk_executed out = executed @ ts \<and> (\<forall>x \<in> set ts. dkg_kind x \<noteq> EffectTask)
    | _ \<Rightarrow> False)"
proof -
  obtain r1 w1 where o1: "observe lib account w = (r1, w1)" by fastforce
  have s1: "same_accounts w w1" using observe_same_accounts o1 by (rule stepsD)
  show ?thesis
  proof (cases r1)
    case (Inl e)
    then show ?thesis using run o1 s1 by (auto simp: dkg_iteration_def andthen_def)
  next
    case (Inr s)
    then have o: "observe lib account w = (Inr s, w1)" using o1 by simp
    note m = torn_observed [OF t o]
    show ?thesis
    proof (cases "next_dkg_task s = EnsureAccounts")
      case False
      then have k: "next_dkg_task s \<noteq> WaitOwnPublish" "dkg_kind (next_dkg_task s) \<noteq> EffectTask"
        using no_mailbox_task m by blast+
      then show ?thesis using run o s1
        by (auto simp: dkg_iteration_def andthen_def Let_def prog_simps no_outcome_def)
    next
      case True
      let ?v = "pe_meanwhile env w1"
      obtain r2 w2 where o2: "observe lib account ?v = (r2, w2)" by fastforce
      have v: "same_accounts w ?v" using s1 meanwhile_same_accounts [OF env] sa.trans by blast
      have s2: "same_accounts w w2" using v stepsD [OF observe_same_accounts o2] sa.trans by blast
      have t2: "torn account ?v" "torn account w2" using t torn_same v s2 by blast+
      show ?thesis
      proof (cases r2)
        case (Inl e)
        then show ?thesis using run o o2 True s2
          by (auto simp: dkg_iteration_def andthen_def Let_def prog_simps)
      next
        case (Inr fresh)
        then have f: "observe lib account ?v = (Inr fresh, w2)" using o2 by simp
        note g = torn_observed [OF t2(1) f]
        have "run_dkg_task lib (pe_server env) account EnsureAccounts fresh executed shared w2
            = (Inl AddressesIncomplete, w2)"
          using torn_ensure [OF t2(2)] g by (simp add: run_dkg_task_def andthen_def)
        then show ?thesis using run o f True g s2
          by (auto simp: dkg_iteration_def andthen_def Let_def prog_simps no_outcome_def split: if_splits)
      qed
    qed
  qed
qed

text \<open>
  C28: a key generation torn between the deletion of its mailbox and its last statement never
  finishes. No later pass executes an effect: each waits or ends in an error, sends nothing, and
  leaves the accounts and the parameters as they are, so the next one is torn too. The
  witness is a crash of \<open>complete_finalize\<close> right after the deletion of the mailbox.
\<close>

theorem torn_teardown_never_finishes:
  assumes "torn account w" and "\<And>i. log_only (env i)" and "dkg_step lib height account env w = (res, w')"
  shows "torn account w' \<and> fw_accounts w' = fw_accounts w \<and> fw_posted w' = fw_posted w
    \<and> (case res of Inl _ \<Rightarrow> True | Inr out \<Rightarrow> \<forall>t \<in> set (dk_executed out). dkg_kind t \<noteq> EffectTask)"
proof -
  obtain e envs where envs: "map env [0..<16] = e # envs" "e = env 0" by (simp add: upt_rec)
  obtain r w1 where i: "dkg_iteration lib height account e [] None w = (r, w1)" by fastforce
  have "log_only e" using assms(2) envs by simp
  note s = torn_iteration [OF assms(1) this i]
  have run: "dkg_pass lib height account (e # envs) [] None w = (res, w')"
    using assms(3) envs by (simp add: dkg_step_def)
  have "w' = w1 \<and> (case res of Inl _ \<Rightarrow> True | Inr out \<Rightarrow> r = Inr (Stopped out))"
  proof (cases r)
    case (Inl x)
    then show ?thesis using run i by (auto simp: andthen_def)
  next
    case (Inr turn)
    then obtain out where "turn = Stopped out" using s by (cases turn) auto
    then show ?thesis using run i Inr by (auto simp: andthen_def prog_simps)
  qed
  then have w': "w' = w1" and out: "case res of Inl _ \<Rightarrow> True | Inr out \<Rightarrow> r = Inr (Stopped out)" by blast+
  have "case res of Inl _ \<Rightarrow> True | Inr out \<Rightarrow> \<forall>t \<in> set (dk_executed out). dkg_kind t \<noteq> EffectTask"
    using s out by (cases res) auto
  moreover have sa: "same_accounts w w'" using s w' by blast
  moreover from sa have "torn account w'" using assms(1) by (simp only: torn_same)
  ultimately show ?thesis by (simp add: same_accounts_def)
qed

text \<open>The group of the example about to complete, its frost account created.\<close>

definition ex_finishing :: frost_wallet where
  "ex_finishing = (ex_group (ex_done\<lparr> ds_key_pkg := Some [3] \<rparr>) 3)\<lparr>
     fw_props := [''dkg_frost_account'' \<mapsto> ''4''],
     fw_accounts := fw_accounts (ex_group ex_done 3) @ [\<lparr> wa_id = 4, wa_name = ''group'', wa_seed = None,
       wa_internal = False, wa_xsk = None, wa_xvk = Some [5] \<rparr>] \<rparr>"

definition crashed :: frost_wallet where
  "crashed = snd (andthen (rekey 4 1) (\<lambda>_. andthen (set_params 4 (\<lambda>p. p\<lparr> dp_seed := ''a'' \<rparr>)) (\<lambda>_.
     delete_account 2)) ex_finishing)"

theorem torn_teardown_never_finishes_witness:
  "map_sum id dk_executed (fst (dkg_step ex_lib 300 1 (\<lambda>_. ex_env) ex_finishing)) = Inr [CompleteFinalize]
    \<and> fst (dkg_step ex_lib 300 1 (\<lambda>_. ex_env) crashed) = Inl AddressesIncomplete
    \<and> torn 1 (snd (dkg_step ex_lib 300 1 (\<lambda>_. ex_env) crashed))"
proof -
  let ?m = "dkg_step ex_lib 300 1 (\<lambda>_. ex_env) crashed"
  have t: "torn 1 crashed" by code_simp
  have a: "map_sum id dk_executed (fst (dkg_step ex_lib 300 1 (\<lambda>_. ex_env) ex_finishing)) = Inr [CompleteFinalize]"
    by code_simp
  have b: "fst ?m = Inl AddressesIncomplete" by code_simp
  have "?m = (fst ?m, snd ?m)" by simp
  from torn_teardown_never_finishes [where env = "\<lambda>_. ex_env", OF t ex_env_log_only this] a b
  show ?thesis by simp
qed

end
