(* ===== verification/Sign_Store.thy ===== *)
theory Sign_Store
  imports Dkg_Exec
begin

text \<open>
  What a FROST signing session keeps and reads (\<open>rust/src/frost/sign/mod.rs\<close>, \<open>state.rs\<close>,
  \<open>rust/src/frost/protocol.rs\<close>): the session's properties and its start, its messages with
  their signatures, the accounts it reads them from, and the ingest of the commitments, the
  parts of the signing packages and the signature shares.
\<close>

section \<open>Data\<close>

type_synonym u16 = nat

record sig_message =
  sm_sighash :: blob
  sm_from :: u16
  sm_idx :: u32
  sm_data :: blob
  sm_signature :: "blob option"
  sm_share :: "blob option"

record sig_part =
  sp_signer :: u16
  sp_commitment :: blob
  sp_randomizer :: blob

text \<open>The fields of a package that the session reads, and a spend of the transaction in it.\<close>

record pczt_package =
  pk_pczt :: blob
  pk_orchard :: "nat list"
  pk_ironwood :: "nat list"

record pczt_spend =
  ps_value :: "u64 option"
  ps_fvk :: "blob option"
  ps_alpha :: "blob option"

text \<open>A transaction as it parses; \<open>pv_sighash\<close> is \<open>None\<close> where computing it panics.\<close>

record pczt_view =
  pv_expiry :: u32
  pv_sighash :: "blob option"
  pv_sapling :: bool
  pv_orchard :: "pczt_spend list"
  pv_ironwood :: "pczt_spend list"

record sign_params =
  fs_account :: u32
  fs_coordinator :: u8
  fs_funding :: u32

text \<open>
  The libraries of the session. A key package, a nonce, a commitment, a share and a signing
  package are their serialized bytes; \<open>sl_commit\<close> draws the nonces and commitments of an input,
  the randomness of the run included; \<open>sl_rebuild\<close> interpolates the public key package from
  the verifying shares; \<open>sl_finish\<close> applies the signatures, proves and extracts.
\<close>

record sign_lib =
  sl_frost :: frost_lib
  sl_encode :: "sig_message \<Rightarrow> blob option"
  sl_decode :: "blob \<Rightarrow> sig_message option"
  sl_encode_part :: "sig_part \<Rightarrow> blob option"
  sl_decode_part :: "blob \<Rightarrow> sig_part option"
  sl_ed_sign :: "blob \<Rightarrow> blob \<Rightarrow> blob"
  sl_ed_verify :: "blob \<Rightarrow> blob \<Rightarrow> blob \<Rightarrow> bool"
  sl_utf8 :: "blob \<Rightarrow> string option"
  sl_package_of :: "string \<Rightarrow> pczt_package option"
  sl_package_text :: "pczt_package \<Rightarrow> string"
  sl_params_of :: "string \<Rightarrow> sign_params option"
  sl_params_text :: "sign_params \<Rightarrow> string"
  sl_pczt :: "blob \<Rightarrow> pczt_view option"
  sl_broadcast_sk :: "string list \<Rightarrow> blob option"
  sl_session_sk :: "blob \<Rightarrow> blob \<Rightarrow> blob option"
  sl_sk_ok :: "blob \<Rightarrow> bool"
  sl_sk_fvk :: "blob \<Rightarrow> blob"
  sl_key_id :: "blob \<Rightarrow> u16 option"
  sl_key_share :: "blob \<Rightarrow> blob option"
  sl_commit :: "blob \<Rightarrow> u32 \<Rightarrow> (blob \<times> blob) option"
  sl_commitment_ok :: "blob \<Rightarrow> bool"
  sl_randomizer_ok :: "blob \<Rightarrow> bool"
  sl_share_ok :: "blob \<Rightarrow> bool"
  sl_vshare_ok :: "blob \<Rightarrow> bool"
  sl_pubkey_ok :: "blob \<Rightarrow> bool"
  sl_make_package :: "(u16 \<times> blob) list \<Rightarrow> blob \<Rightarrow> blob option"
  sl_sign :: "blob \<Rightarrow> blob \<Rightarrow> blob \<Rightarrow> blob \<Rightarrow> blob option"
  sl_aggregate :: "blob \<Rightarrow> (u16 \<times> blob) list \<Rightarrow> blob \<Rightarrow> blob \<Rightarrow> blob option"
  sl_rebuild :: "(u16 \<times> blob) list \<Rightarrow> blob \<Rightarrow> blob option"
  sl_finish :: "pczt_package \<Rightarrow> blob list \<Rightarrow> (blob \<times> blob) option"
  sl_txid_text :: "blob \<Rightarrow> string"

section \<open>The session\<close>

definition COMMITMENT_PREFIX :: blob where "COMMITMENT_PREFIX = map of_char ''CMT6''"
definition SIGPACKAGE_PREFIX :: blob where "SIGPACKAGE_PREFIX = map of_char ''SPK6''"
definition SIGSHARE_PREFIX :: blob where "SIGSHARE_PREFIX = map of_char ''SSH3''"
definition COORDINATOR_PREFIX :: blob where "COORDINATOR_PREFIX = map of_char ''CRD1''"
definition COORDINATOR_ADDRESS_PROP :: string where
  "COORDINATOR_ADDRESS_PROP = ''frost_coordinator_address''"
definition VERIFYING_SHARE_ROUND :: u8 where "VERIFYING_SHARE_ROUND = 4"

definition load_sign_params :: "sign_lib \<Rightarrow> sign_params frost" where
  "load_sign_params lib =
     andthen (get_prop ''frost_sign_params'') (\<lambda>v.
     andthen (the_or NoParams v) (\<lambda>text. the_or Library (sl_params_of lib text)))"

definition load_pczt_pkg :: "sign_lib \<Rightarrow> pczt_package frost" where
  "load_pczt_pkg lib =
     andthen (get_prop ''frost_pczt'') (\<lambda>v.
     andthen (the_or NoParams v) (\<lambda>text. the_or Library (sl_package_of lib text)))"

definition get_dkg_params :: "u32 \<Rightarrow> dkg_params_row frost" where
  "get_dkg_params account = andthen (gets (\<lambda>w. fw_params w account)) (the_or NoParams)"

definition is_group_account :: "u32 \<Rightarrow> frost_wallet \<Rightarrow> bool" where
  "is_group_account account w = (ds_key_pkg (state_of account w) \<noteq> None)"

definition get_orchard_vk :: "u32 \<Rightarrow> frost_wallet \<Rightarrow> blob option" where
  "get_orchard_vk account w = Option.bind (find_account account w) wa_xvk"

text \<open>The spends that carry a value, and whether each is ours.\<close>

definition valued_spends :: "pczt_view \<Rightarrow> pczt_spend list" where
  "valued_spends v = filter (\<lambda>s. ps_value s \<noteq> None \<and> ps_value s \<noteq> Some 0) (pv_orchard v @ pv_ironwood v)"

definition check_group_pczt :: "sign_lib \<Rightarrow> u32 \<Rightarrow> pczt_package \<Rightarrow> unit frost" where
  "check_group_pczt lib account pczt =
     andthen (gets (get_orchard_vk account)) (\<lambda>vk.
     andthen (the_or NoAccount vk) (\<lambda>ours.
     andthen (the_or Library (sl_pczt lib (pk_pczt pczt))) (\<lambda>v.
     andthen (ensure (\<not> pv_sapling v) ForeignTransaction) (\<lambda>_.
     andthen (ensure (\<not> list_ex (\<lambda>s. ps_fvk s \<noteq> Some ours) (valued_spends v)) ForeignTransaction) (\<lambda>_.
       ensure (valued_spends v \<noteq> []) ForeignTransaction)))))"

definition check_no_session :: "unit frost" where
  "check_no_session = andthen (gets is_signing_in_progress) (\<lambda>b. ensure (\<not> b) InProgress)"

definition check_no_dkg_running :: "unit frost" where
  "check_no_dkg_running = andthen (gets dkg_in_progress) (\<lambda>b. ensure (\<not> b) InProgress)"

definition init_sign :: "sign_lib \<Rightarrow> u32 \<Rightarrow> u32 \<Rightarrow> u8 \<Rightarrow> pczt_package \<Rightarrow> unit frost" where
  "init_sign lib account funding_account coordinator pczt =
     andthen check_no_session (\<lambda>_.
     andthen check_no_dkg_running (\<lambda>_.
     andthen (gets (is_group_account account)) (\<lambda>group.
     andthen (ensure group (NotAGroup account)) (\<lambda>_.
     andthen (get_dkg_params account) (\<lambda>p.
     andthen (ensure (1 \<le> coordinator \<and> coordinator \<le> dp_n p) (BadCoordinator coordinator)) (\<lambda>_.
     andthen (check_group_pczt lib account pczt) (\<lambda>_.
     andthen (the_or Library (sl_pczt lib (pk_pczt pczt))) (\<lambda>v.
     andthen (ensure (pv_expiry v \<noteq> 0) NoExpiry) (\<lambda>_.
       atomic (andthen (insert_prop ''frost_pczt'' (sl_package_text lib pczt)) (\<lambda>_.
         andthen (insert_prop ''frost_sign_params'' (sl_params_text lib
           \<lparr> fs_account = account, fs_coordinator = coordinator, fs_funding = funding_account \<rparr>)) (\<lambda>_.
         insert_prop ''dkg_account'' (show_nat funding_account)))))))))))))"

definition reset_sign :: "unit frost" where
  "reset_sign = delete_frost_state"

definition signing_account :: "sign_lib \<Rightarrow> u32 option frost" where
  "signing_account lib =
     andthen (gets is_signing_in_progress) (\<lambda>b.
       if b then andthen (load_sign_params lib) (\<lambda>p. ret (Some (fs_account p))) else ret None)"

definition signing_funding_account :: "sign_lib \<Rightarrow> u32 option frost" where
  "signing_funding_account lib =
     andthen (gets is_signing_in_progress) (\<lambda>b.
       if b then andthen (load_sign_params lib) (\<lambda>p. ret (Some (fs_funding p))) else ret None)"

section \<open>Messages\<close>

definition signed_payload :: "sign_lib \<Rightarrow> sig_message \<Rightarrow> blob option" where
  "signed_payload lib m = sl_encode lib (m\<lparr> sm_signature := None \<rparr>)"

definition sign_message :: "sign_lib \<Rightarrow> blob \<Rightarrow> sig_message \<Rightarrow> sig_message option" where
  "sign_message lib key m =
     map_option (\<lambda>payload. m\<lparr> sm_signature := Some (sl_ed_sign lib key payload) \<rparr>) (signed_payload lib m)"

definition verify_message :: "sign_lib \<Rightarrow> blob \<Rightarrow> sig_message \<Rightarrow> bool" where
  "verify_message lib vk m =
     (case sm_signature m of
        None \<Rightarrow> True
      | Some signature \<Rightarrow>
          (case signed_payload lib m of
             None \<Rightarrow> False
           | Some payload \<Rightarrow> sl_ed_verify lib vk payload signature))"

text \<open>A message signed with our round-0 key, if we have one, behind its prefix.\<close>

definition seal :: "sign_lib \<Rightarrow> blob option \<Rightarrow> blob \<Rightarrow> sig_message \<Rightarrow> blob option" where
  "seal lib key prefix m =
     Option.bind (case key of None \<Rightarrow> Some m | Some k \<Rightarrow> sign_message lib k m)
       (\<lambda>m. map_option (\<lambda>bytes. prefix @ bytes) (sl_encode lib m))"

definition load_signing_key :: "u32 \<Rightarrow> blob option frost" where
  "load_signing_key account =
     andthen (gets (\<lambda>w. ds_signing_key (state_of account w))) (\<lambda>key.
     andthen (ensure (case key of None \<Rightarrow> True | Some b \<Rightarrow> length b = 32) Library) (\<lambda>_. ret key))"

definition load_peer_verifying_key :: "sign_lib \<Rightarrow> u32 \<Rightarrow> u8 \<Rightarrow> blob option frost" where
  "load_peer_verifying_key lib account from =
     andthen (gets (peer_at account 0 from)) (\<lambda>row.
       case row of
         None \<Rightarrow> ret None
       | Some r \<Rightarrow>
           andthen (the_or Library (round0_from_bytes (sl_frost lib) (pe_data r))) (\<lambda>p. ret (Some (r0_key p))))"

section \<open>Accounts\<close>

definition group_sk :: "sign_lib \<Rightarrow> u32 \<Rightarrow> blob frost" where
  "group_sk lib account =
     andthen (get_dkg_params account) (\<lambda>p.
       case dp_sk p of
         Some sk \<Rightarrow> andthen (ensure (sl_sk_ok lib sk) Library) (\<lambda>_. ret sk)
       | None \<Rightarrow>
           andthen (get_addresses account (dp_n p)) (\<lambda>addresses.
           andthen (ensure (all_given addresses) AddressesIncomplete) (\<lambda>_.
           andthen (the_or Library (sl_broadcast_sk lib addresses)) (\<lambda>sk.
           andthen (set_params account (\<lambda>p. p\<lparr> dp_sk := Some sk \<rparr>)) (\<lambda>_. ret sk)))))"

definition session_broadcast_sk :: "sign_lib \<Rightarrow> blob \<Rightarrow> blob \<Rightarrow> blob frost" where
  "session_broadcast_sk lib sk sighash = the_or Library (sl_session_sk lib sk sighash)"

definition lookup_broadcast_account_from_sk :: "sign_lib \<Rightarrow> blob \<Rightarrow> frost_wallet \<Rightarrow> (u32 \<times> string) option" where
  "lookup_broadcast_account_from_sk lib sk w =
     (let fvk = sl_sk_fvk lib sk
      in map_option (\<lambda>a. (wa_id a, fl_address (sl_frost lib) fvk))
           (List.find (\<lambda>a. wa_xvk a = Some fvk \<and> wa_internal a) (fw_accounts w)))"

definition ensure_broadcast_account_from_sk :: "sign_lib \<Rightarrow> blob \<Rightarrow> (u32 \<times> string) frost" where
  "ensure_broadcast_account_from_sk lib sk =
     andthen (gets (lookup_broadcast_account_from_sk lib sk)) (\<lambda>found.
       case found of
         Some f \<Rightarrow> ret f
       | None \<Rightarrow>
           andthen (gets (\<lambda>w. next_id wa_id (fw_accounts w))) (\<lambda>account.
           andthen (modify (\<lambda>w. w\<lparr> fw_accounts := fw_accounts w @ [\<lparr> wa_id = account,
               wa_name = ''frost-broadcast'', wa_seed = None, wa_internal = True, wa_xsk = None,
               wa_xvk = Some (sl_sk_fvk lib sk) \<rparr>] \<rparr>)) (\<lambda>_.
             ret (account, fl_address (sl_frost lib) (sl_sk_fvk lib sk)))))"

definition ensure_mailbox_from_seed :: "sign_lib \<Rightarrow> u32 \<Rightarrow> (u32 \<times> string) frost" where
  "ensure_mailbox_from_seed lib account = atomic (
     andthen (get_dkg_params account) (\<lambda>p.
     andthen (gets (\<lambda>w. if dp_seed p = [] then None else map_option wa_id (find_by_seed (dp_seed p) w))) (\<lambda>existing.
     andthen (case existing of
         Some mailbox \<Rightarrow> ret mailbox
       | None \<Rightarrow>
           andthen (new_account (sl_frost lib) ''frost-mailbox'' (dp_seed p)) (\<lambda>mailbox.
           andthen (if dp_seed p = [] then
               andthen (gets (\<lambda>w. Option.bind (find_account mailbox w) wa_seed)) (\<lambda>found.
               andthen (the_or NoAccount found) (\<lambda>mnemonic. set_params account (\<lambda>p. p\<lparr> dp_seed := mnemonic \<rparr>)))
             else ret ()) (\<lambda>_. ret mailbox))) (\<lambda>mailbox.
     andthen (mailbox_address (sl_frost lib) mailbox) (\<lambda>address. ret (mailbox, address))))))"

section \<open>Rows\<close>

text \<open>The commitment rows are unique by account, sighash, input and participant.\<close>

definition commitment_at :: "u32 \<Rightarrow> blob \<Rightarrow> u32 \<Rightarrow> u16 \<Rightarrow> commitment_row \<Rightarrow> bool" where
  "commitment_at account sighash idx from r =
     (cm_account r = account \<and> cm_sighash r = sighash \<and> cm_idx r = idx \<and> cm_from r = from)"

definition insert_commitment :: "commitment_row \<Rightarrow> unit frost" where
  "insert_commitment row = modify (\<lambda>w.
     if list_ex (commitment_at (cm_account row) (cm_sighash row) (cm_idx row) (cm_from row)) (fw_commitments w)
     then w else w\<lparr> fw_commitments := fw_commitments w @ [row] \<rparr>)"

definition update_commitments ::
  "(commitment_row \<Rightarrow> bool) \<Rightarrow> (commitment_row \<Rightarrow> commitment_row) \<Rightarrow> unit frost" where
  "update_commitments P f = modify (\<lambda>w. w\<lparr> fw_commitments := update_where P f (fw_commitments w) \<rparr>)"

definition signature_at :: "u32 \<Rightarrow> blob \<Rightarrow> u32 \<Rightarrow> signature_row \<Rightarrow> bool" where
  "signature_at account sighash idx r =
     (sg_account r = account \<and> sg_sighash r = sighash \<and> sg_idx r = idx)"

definition update_signatures ::
  "(signature_row \<Rightarrow> bool) \<Rightarrow> (signature_row \<Rightarrow> signature_row) \<Rightarrow> unit frost" where
  "update_signatures P f = modify (\<lambda>w. w\<lparr> fw_signatures := update_where P f (fw_signatures w) \<rparr>)"

definition commitments_of :: "u32 \<Rightarrow> blob \<Rightarrow> u32 \<Rightarrow> frost_wallet \<Rightarrow> commitment_row list" where
  "commitments_of account sighash idx w =
     filter (\<lambda>r. cm_account r = account \<and> cm_sighash r = sighash \<and> cm_idx r = idx) (fw_commitments w)"

definition signatures_of :: "u32 \<Rightarrow> blob \<Rightarrow> frost_wallet \<Rightarrow> signature_row list" where
  "signatures_of account sighash w =
     sort_key sg_idx (filter (\<lambda>r. sg_account r = account \<and> sg_sighash r = sighash) (fw_signatures w))"

text \<open>
  The commitments of each input by signer, in the order of the signers. A row that is not a
  participant's or does not read panics.
\<close>

definition commitment_map :: "sign_lib \<Rightarrow> u32 \<Rightarrow> blob \<Rightarrow> frost_wallet \<Rightarrow> u32 \<Rightarrow> (u16 \<times> blob) list panics" where
  "commitment_map lib account sighash w idx =
     (let rows = commitments_of account sighash idx w
      in if list_ex (\<lambda>r. cm_from r = 0 \<or> \<not> sl_commitment_ok lib (cm_commitment r)) rows then None
         else Some (map (\<lambda>r. (cm_from r, cm_commitment r)) (sort_key cm_from rows)))"

definition load_commitments :: "sign_lib \<Rightarrow> u32 \<Rightarrow> blob \<Rightarrow> u32 \<Rightarrow> (u16 \<times> blob) list list frost" where
  "load_commitments lib account sighash nsigs =
     andthen (gets (\<lambda>w. those (map (commitment_map lib account sighash w) [0..<nsigs]))) (the_or Panicked)"

section \<open>Ingest\<close>

definition frost_messages :: "sign_lib \<Rightarrow> blob \<Rightarrow> u32 \<Rightarrow> frost_wallet \<Rightarrow> sig_message list" where
  "frost_messages lib prefix mailbox w =
     List.map_filter (\<lambda>r. case fl_memo (sl_frost lib) (me_bytes r) of
         None \<Rightarrow> None
       | Some pkg \<Rightarrow> if length pkg < 4 \<or> take 4 pkg \<noteq> prefix then None else sl_decode lib (drop 4 pkg))
       (filter (\<lambda>r. me_account r = mailbox) (db_memos (fw_log w)))"

definition handle_message :: "sign_lib \<Rightarrow> u32 \<Rightarrow> (sig_message \<Rightarrow> unit frost) \<Rightarrow> sig_message \<Rightarrow> unit frost" where
  "handle_message lib account store m =
     (if 255 < sm_from m then ret ()
      else andthen (load_peer_verifying_key lib account (sm_from m)) (\<lambda>vk.
        if (case vk of None \<Rightarrow> True | Some k \<Rightarrow> verify_message lib k m) then store m else ret ()))"

definition decode_frost_memos ::
  "sign_lib \<Rightarrow> u32 \<Rightarrow> u32 \<Rightarrow> blob \<Rightarrow> (sig_message \<Rightarrow> unit frost) \<Rightarrow> unit frost" where
  "decode_frost_memos lib account mailbox prefix store =
     andthen (gets (frost_messages lib prefix mailbox)) (\<lambda>msgs.
       for_each (handle_message lib account store) msgs)"

definition store_commitment :: "sign_lib \<Rightarrow> u32 \<Rightarrow> blob \<Rightarrow> u32 \<Rightarrow> u16 \<Rightarrow> sig_message \<Rightarrow> unit frost" where
  "store_commitment lib account sighash nsigs n m =
     (if sm_sighash m \<noteq> sighash \<or> nsigs \<le> sm_idx m \<or> \<not> (1 \<le> sm_from m \<and> sm_from m \<le> n)
         \<or> \<not> sl_commitment_ok lib (sm_data m) then ret ()
      else andthen (insert_commitment \<lparr> cm_account = account, cm_sighash = sighash, cm_idx = sm_idx m,
               cm_from = sm_from m, cm_commitment = sm_data m, cm_share = None \<rparr>) (\<lambda>_.
        case sm_share m of
          None \<Rightarrow> ret ()
        | Some share \<Rightarrow>
            if sl_vshare_ok lib share
            then insert_peer \<lparr> pe_account = account, pe_round = VERIFYING_SHARE_ROUND,
                   pe_from = sm_from m mod 2 ^ 8, pe_data = share \<rparr>
            else ret ()))"

definition ingest_commitment_memos :: "sign_lib \<Rightarrow> u32 \<Rightarrow> u32 \<Rightarrow> blob \<Rightarrow> u32 \<Rightarrow> u16 \<Rightarrow> unit frost" where
  "ingest_commitment_memos lib account mailbox sighash nsigs n =
     decode_frost_memos lib account mailbox COMMITMENT_PREFIX (store_commitment lib account sighash nsigs n)"

definition store_coordinator :: "sign_lib \<Rightarrow> blob \<Rightarrow> u16 \<Rightarrow> sig_message \<Rightarrow> unit frost" where
  "store_coordinator lib sighash coordinator m =
     (if sm_sighash m \<noteq> sighash \<or> sm_from m \<noteq> coordinator then ret ()
      else case sl_utf8 lib (sm_data m) of
        None \<Rightarrow> ret ()
      | Some address \<Rightarrow> put_prop COORDINATOR_ADDRESS_PROP address)"

definition ingest_coordinator_memos :: "sign_lib \<Rightarrow> u32 \<Rightarrow> u32 \<Rightarrow> blob \<Rightarrow> u16 \<Rightarrow> unit frost" where
  "ingest_coordinator_memos lib account broadcast sighash coordinator =
     decode_frost_memos lib account broadcast COORDINATOR_PREFIX (store_coordinator lib sighash coordinator)"

definition store_part ::
  "sign_lib \<Rightarrow> u32 \<Rightarrow> blob \<Rightarrow> u32 \<Rightarrow> u16 \<Rightarrow> u16 \<Rightarrow> blob list \<Rightarrow> sig_message \<Rightarrow> unit frost" where
  "store_part lib account sighash nsigs coordinator n expected m =
     (if sm_sighash m \<noteq> sighash \<or> nsigs \<le> sm_idx m \<or> sm_from m \<noteq> coordinator then ret ()
      else case sl_decode_part lib (sm_data m) of
        None \<Rightarrow> ret ()
      | Some part \<Rightarrow>
          if \<not> (1 \<le> sp_signer part \<and> sp_signer part \<le> n) \<or> \<not> sl_commitment_ok lib (sp_commitment part)
             \<or> \<not> sl_randomizer_ok lib (sp_randomizer part) then ret ()
          else if \<not> (sm_idx m < length expected \<and> expected ! sm_idx m = sp_randomizer part) then ret ()
          else andthen (insert_commitment \<lparr> cm_account = account, cm_sighash = sighash, cm_idx = sm_idx m,
                   cm_from = sp_signer part, cm_commitment = sp_commitment part, cm_share = None \<rparr>) (\<lambda>_.
            update_signatures (signature_at account sighash (sm_idx m))
              (\<lambda>r. r\<lparr> sg_randomizer := Some (sp_randomizer part) \<rparr>)))"

definition ingest_sigpackage_memos ::
  "sign_lib \<Rightarrow> u32 \<Rightarrow> u32 \<Rightarrow> blob \<Rightarrow> u32 \<Rightarrow> u16 \<Rightarrow> u16 \<Rightarrow> blob list \<Rightarrow> unit frost" where
  "ingest_sigpackage_memos lib account broadcast sighash nsigs coordinator n expected =
     decode_frost_memos lib account broadcast SIGPACKAGE_PREFIX
       (store_part lib account sighash nsigs coordinator n expected)"

definition store_share :: "sign_lib \<Rightarrow> u32 \<Rightarrow> blob \<Rightarrow> u32 \<Rightarrow> u16 \<Rightarrow> sig_message \<Rightarrow> unit frost" where
  "store_share lib account sighash nsigs n m =
     (if sm_sighash m \<noteq> sighash \<or> nsigs \<le> sm_idx m \<or> \<not> (1 \<le> sm_from m \<and> sm_from m \<le> n)
         \<or> \<not> sl_share_ok lib (sm_data m) then ret ()
      else update_commitments (commitment_at account sighash (sm_idx m) (sm_from m))
             (\<lambda>r. r\<lparr> cm_share := Some (sm_data m) \<rparr>))"

definition ingest_sigshare_memos :: "sign_lib \<Rightarrow> u32 \<Rightarrow> u32 \<Rightarrow> blob \<Rightarrow> u32 \<Rightarrow> u16 \<Rightarrow> unit frost" where
  "ingest_sigshare_memos lib account mailbox sighash nsigs n =
     decode_frost_memos lib account mailbox SIGSHARE_PREFIX (store_share lib account sighash nsigs n)"

text \<open>The package of an input whose signers are all in, unless it has one.\<close>

definition assemble_input :: "sign_lib \<Rightarrow> u32 \<Rightarrow> blob \<Rightarrow> nat \<Rightarrow> u32 \<times> (u16 \<times> blob) list \<Rightarrow> unit frost" where
  "assemble_input lib account sighash t = (\<lambda>(idx, signers).
     if length signers \<noteq> t then ret ()
     else andthen (the_or Library (sl_make_package lib signers sighash)) (\<lambda>package.
       update_signatures (\<lambda>r. signature_at account sighash idx r \<and> sg_package r = None \<and> sg_randomizer r \<noteq> None)
         (\<lambda>r. r\<lparr> sg_package := Some package \<rparr>)))"

definition assemble_sigpackages :: "sign_lib \<Rightarrow> u32 \<Rightarrow> blob \<Rightarrow> u32 \<Rightarrow> nat \<Rightarrow> unit frost" where
  "assemble_sigpackages lib account sighash nsigs t =
     andthen (load_commitments lib account sighash nsigs) (\<lambda>maps.
       for_each (assemble_input lib account sighash t) (enumerate 0 maps))"

end
