(* ===== verification/Sign_Plan.thy ===== *)
theory Sign_Plan
  imports Sign_Store Planner
begin

text \<open>
  The planner of the signing session: the snapshot it reads (\<open>rust/src/frost/sign/state.rs\<close>),
  its tasks (\<open>task.rs\<close>), the decision (\<open>plan.rs\<close>) and the statuses a pass reports
  (\<open>mod.rs\<close>).
\<close>

section \<open>State and tasks\<close>

record sign_obs =
  so_account :: u32
  so_funding :: u32
  so_self :: u8
  so_coordinator :: u8
  so_n :: u8
  so_t :: u8
  so_sighash :: blob
  so_nsigs :: u32
  so_birth_height :: u32
  so_mailbox :: "u32 option"
  so_mailbox_address :: "string option"
  so_coordinator_address :: "string option"
  so_broadcast :: "u32 option"
  so_broadcast_address :: "string option"
  so_publish_unmined :: bool
  so_own_commitments :: bool
  so_commitment_counts :: "nat list"
  so_packages :: u32
  so_own_shares :: bool
  so_share_counts :: "nat list"

definition is_coordinator :: "sign_obs \<Rightarrow> bool" where
  "is_coordinator s = (so_self s = so_coordinator s)"

datatype sign_task =
    EnsureMailbox
  | AnnounceCoordinator
  | WaitCoordinator
  | SignWaitOwnPublish
  | SendCommitments
  | WaitCommitments
  | MakeSigpackages
  | WaitSigpackages
  | SendSigshares
  | WaitSigshares
  | Aggregate
  | SignDone

fun sign_kind :: "sign_task \<Rightarrow> task_kind" where
  "sign_kind WaitCoordinator = TimeTask"
| "sign_kind SignWaitOwnPublish = TimeTask"
| "sign_kind WaitCommitments = TimeTask"
| "sign_kind WaitSigpackages = TimeTask"
| "sign_kind WaitSigshares = TimeTask"
| "sign_kind _ = EffectTask"

fun sign_satisfied :: "sign_task \<Rightarrow> sign_obs \<Rightarrow> bool" where
  "sign_satisfied SignDone s = (\<not> is_coordinator s \<and> so_own_shares s \<and> \<not> so_publish_unmined s)"
| "sign_satisfied EnsureMailbox s = (so_mailbox s = None \<or> so_broadcast s = None)"
| "sign_satisfied AnnounceCoordinator s = (is_coordinator s \<and> so_coordinator_address s = None)"
| "sign_satisfied SendCommitments s = (\<not> so_own_commitments s)"
| "sign_satisfied MakeSigpackages s =
     (is_coordinator s \<and> so_packages s < so_nsigs s \<and> list_all (\<lambda>c. so_t s \<le> c) (so_commitment_counts s))"
| "sign_satisfied SendSigshares s = (\<not> so_own_shares s)"
| "sign_satisfied Aggregate s =
     (is_coordinator s \<and> so_own_shares s \<and> list_all (\<lambda>c. so_t s \<le> c) (so_share_counts s))"
| "sign_satisfied _ s = True"

section \<open>The decision\<close>

text \<open>Every send spends the funding note, so it waits for the last message to be mined.\<close>

definition send_task :: "sign_obs \<Rightarrow> sign_task \<Rightarrow> sign_task" where
  "send_task s task = (if so_publish_unmined s then SignWaitOwnPublish else task)"

definition packages_task :: "sign_obs \<Rightarrow> frost_error + sign_task" where
  "packages_task s =
     (if \<not> is_coordinator s then Inr WaitSigpackages
      else case List.find (\<lambda>(idx, c). so_t s < c) (enumerate 0 (so_commitment_counts s)) of
        Some (idx, c) \<Rightarrow> Inl (SigningAborted idx c)
      | None \<Rightarrow>
          if list_ex (\<lambda>c. c < so_t s) (so_commitment_counts s) then Inr WaitCommitments
          else Inr (send_task s MakeSigpackages))"

definition shares_task :: "sign_obs \<Rightarrow> sign_task" where
  "shares_task s =
     (if \<not> so_own_shares s then send_task s SendSigshares
      else if \<not> is_coordinator s then send_task s SignDone
      else if list_ex (\<lambda>c. c < so_t s) (so_share_counts s) then WaitSigshares
      else Aggregate)"

definition next_sign_task :: "sign_obs \<Rightarrow> frost_error + sign_task" where
  "next_sign_task s =
     (if so_mailbox s = None \<or> so_broadcast s = None then Inr EnsureMailbox
      else if so_coordinator_address s = None then
        Inr (if is_coordinator s then AnnounceCoordinator else WaitCoordinator)
      else if \<not> so_own_commitments s then Inr (send_task s SendCommitments)
      else if so_packages s < so_nsigs s then packages_task s
      else Inr (shares_task s))"

section \<open>Statuses\<close>

record sign_outcome =
  sn_executed :: "sign_task list"
  sn_waiting_for_funds :: bool
  sn_txid :: "string option"
  sn_progress :: "(string \<times> u8 \<times> u8) option"

datatype sign_status =
    AnnouncingCoordinator | WaitingForCoordinator | SendingCommitment | WaitingForCommitments
  | SendingSigningPackage | WaitingForSigningPackage | SendingSignatureShare | SigningCompleted
  | WaitingForSignatureShares | SignWaitingForFunds | StatusSignWaitOwnPublish
  | SignWaitProgress string u8 u8 | ExpiringSoon u32 | SignExpired | PreparingTransaction
  | SendingTransaction | TransactionSent string

fun sign_statuses_for :: "sign_task \<Rightarrow> sign_status list" where
  "sign_statuses_for EnsureMailbox = []"
| "sign_statuses_for AnnounceCoordinator = [AnnouncingCoordinator]"
| "sign_statuses_for WaitCoordinator = [WaitingForCoordinator]"
| "sign_statuses_for SignWaitOwnPublish = [StatusSignWaitOwnPublish]"
| "sign_statuses_for SendCommitments = [SendingCommitment]"
| "sign_statuses_for WaitCommitments = [WaitingForCommitments]"
| "sign_statuses_for MakeSigpackages = [SendingSigningPackage]"
| "sign_statuses_for WaitSigpackages = [WaitingForSigningPackage]"
| "sign_statuses_for SendSigshares = [SendingSignatureShare]"
| "sign_statuses_for WaitSigshares = [WaitingForSignatureShares]"
| "sign_statuses_for Aggregate = [PreparingTransaction, SendingTransaction]"
| "sign_statuses_for SignDone = [SigningCompleted]"

definition report_outcome :: "sign_outcome \<Rightarrow> sign_status list" where
  "report_outcome out = concat (map sign_statuses_for (sn_executed out))
     @ (case sn_progress out of None \<Rightarrow> [] | Some (what, have_n, of_n) \<Rightarrow> [SignWaitProgress what have_n of_n])
     @ (if sn_waiting_for_funds out then [SignWaitingForFunds] else [])
     @ (case sn_txid out of None \<Rightarrow> [] | Some txid \<Rightarrow> [TransactionSent txid])"

section \<open>The planner's contract\<close>

lemma list_all_not_ex: "list_ex (\<lambda>c. c < (k :: nat)) cs = False \<Longrightarrow> list_all (\<lambda>c. k \<le> c) cs"
  by (auto simp: list_ex_iff list_all_iff not_less)

lemmas next_sign_unfold = next_sign_task_def packages_task_def shares_task_def send_task_def

lemma sign_planned_satisfied: "next_sign_task s = Inr t \<Longrightarrow> sign_satisfied t s"
  by (auto simp: next_sign_unfold list_all_not_ex split: if_splits option.splits prod.splits)

interpretation sign: planner "\<lambda>s. case next_sign_task s of Inl _ \<Rightarrow> None | Inr t \<Rightarrow> Some t"
  sign_satisfied "\<lambda>_. True"
  by unfold_locales (auto dest: sign_planned_satisfied split: sum.splits)

text \<open>Shares are sent only when every input has its package.\<close>

lemma shares_planned:
  assumes "next_sign_task s = Inr t" and "t \<in> {SendSigshares, Aggregate, SignDone}"
  shows "so_nsigs s \<le> so_packages s \<and> so_own_commitments s"
  using assms by (auto simp: next_sign_unfold split: if_splits option.splits prod.splits)

lemma ex_enumerate: "(\<exists>x \<in> set (enumerate n cs). P (snd x)) = (\<exists>c \<in> set cs. P c)"
  by (induction cs arbitrary: n) auto

lemma packages_planned:
  assumes "next_sign_task s = Inr MakeSigpackages"
  shows "so_packages s < so_nsigs s \<and> is_coordinator s \<and> so_own_commitments s
    \<and> list_all (\<lambda>c. c = so_t s) (so_commitment_counts s)"
proof -
  have "List.find (\<lambda>(idx, c). so_t s < c) (enumerate 0 (so_commitment_counts s)) = None"
    and rest: "so_packages s < so_nsigs s" "is_coordinator s" "so_own_commitments s"
      "\<not> list_ex (\<lambda>c. c < so_t s) (so_commitment_counts s)"
    using assms by (auto simp: next_sign_unfold split: if_splits option.splits)
  then have "\<not> (\<exists>x \<in> set (enumerate 0 (so_commitment_counts s)). so_t s < snd x)"
    by (auto simp: find_None_iff case_prod_beta)
  with rest show ?thesis
    by (auto simp: ex_enumerate [where P = "\<lambda>c. so_t s < c"] list_ex_iff list_all_iff not_less antisym)
qed

end
