(* ===== verification/Sign_Exec.thy ===== *)
theory Sign_Exec
  imports Sign_Plan
begin

text \<open>
  One pass of the signing session: the observation (\<open>rust/src/frost/sign/state.rs\<close>), the
  effects (\<open>exec.rs\<close>), the loop (\<open>step.rs\<close>) and the session around it (\<open>mod.rs\<close>). An effect
  that publishes does its writes, the locks and the marker in one transaction, which a message
  that cannot be funded rolls back.
\<close>

section \<open>Observation\<close>

text \<open>The spend randomizer of each input, Orchard first; an index out of the bundle is an error.\<close>

definition alpha_at :: "pczt_spend list \<Rightarrow> nat \<Rightarrow> blob option" where
  "alpha_at spends i = (if i < length spends then ps_alpha (spends ! i) else None)"

definition input_randomizers :: "sign_lib \<Rightarrow> pczt_package \<Rightarrow> blob list option" where
  "input_randomizers lib pkg =
     Option.bind (sl_pczt lib (pk_pczt pkg)) (\<lambda>v.
       those (map (alpha_at (pv_orchard v)) (pk_orchard pkg) @ map (alpha_at (pv_ironwood v)) (pk_ironwood pkg)))"

definition check_indices :: "pczt_package \<Rightarrow> unit frost" where
  "check_indices pkg = ensure (distinct (pk_orchard pkg) \<and> distinct (pk_ironwood pkg)) DuplicateAction"

text \<open>The coordinator's own share is copied from its row of the signatures.\<close>

definition copy_own_share :: "u32 \<Rightarrow> blob \<Rightarrow> u8 \<Rightarrow> u32 \<Rightarrow> unit frost" where
  "copy_own_share account sighash self_id idx =
     andthen (gets (\<lambda>w. Option.bind (List.find (signature_at account sighash idx) (fw_signatures w)) sg_share)) (\<lambda>share.
       update_commitments (commitment_at account sighash idx self_id) (\<lambda>r. r\<lparr> cm_share := share \<rparr>))"

definition sign_counts :: "u32 \<Rightarrow> blob \<Rightarrow> u32 \<Rightarrow> frost_wallet \<Rightarrow> nat list \<times> nat list" where
  "sign_counts account sighash nsigs w =
     (map (\<lambda>idx. length (commitments_of account sighash idx w)) [0..<nsigs],
      map (\<lambda>idx. length (filter (\<lambda>r. cm_share r \<noteq> None) (commitments_of account sighash idx w))) [0..<nsigs])"

definition ingest_mailbox :: "sign_lib \<Rightarrow> u32 \<Rightarrow> u32 option \<Rightarrow> blob \<Rightarrow> u32 \<Rightarrow> u8 \<Rightarrow> unit frost" where
  "ingest_mailbox lib account mailbox sighash nsigs n =
     (case mailbox of
        None \<Rightarrow> ret ()
      | Some mb \<Rightarrow>
          andthen (ingest_commitment_memos lib account mb sighash nsigs n) (\<lambda>_.
            ingest_sigshare_memos lib account mb sighash nsigs n))"

definition ingest_broadcast ::
  "sign_lib \<Rightarrow> u32 \<Rightarrow> u32 option \<Rightarrow> blob \<Rightarrow> u32 \<Rightarrow> u8 \<Rightarrow> u8 \<Rightarrow> pczt_package \<Rightarrow> unit frost" where
  "ingest_broadcast lib account broadcast sighash nsigs coordinator n pkg =
     (case broadcast of
        None \<Rightarrow> ret ()
      | Some bc \<Rightarrow>
          andthen (ingest_coordinator_memos lib account bc sighash coordinator) (\<lambda>_.
          andthen (the_or Library (input_randomizers lib pkg)) (\<lambda>expected.
            ingest_sigpackage_memos lib account bc sighash nsigs coordinator n expected)))"

definition observe_session :: "sign_lib \<Rightarrow> sign_params \<Rightarrow> pczt_package \<Rightarrow> blob \<Rightarrow> sign_obs frost" where
  "observe_session lib params pkg sighash =
     (let account = fs_account params; nsigs = (length (pk_orchard pkg) + length (pk_ironwood pkg)) mod 2 ^ 32 in
     andthen (get_dkg_params account) (\<lambda>p.
     andthen (gets (mailbox_account_id account)) (\<lambda>mailbox.
     andthen (case mailbox of
         None \<Rightarrow> ret None
       | Some mb \<Rightarrow> andthen (mailbox_address (sl_frost lib) mb) (\<lambda>a. ret (Some a))) (\<lambda>self_address.
     andthen (group_sk lib account) (\<lambda>sk.
     andthen (session_broadcast_sk lib sk sighash) (\<lambda>session_sk.
     andthen (gets (lookup_broadcast_account_from_sk lib session_sk)) (\<lambda>broadcast.
     andthen (ingest_mailbox lib account mailbox sighash nsigs (dp_n p)) (\<lambda>_.
     andthen (ingest_broadcast lib account (map_option fst broadcast) sighash nsigs
         (fs_coordinator params) (dp_n p) pkg) (\<lambda>_.
     andthen (assemble_sigpackages lib account sighash nsigs (dp_t p)) (\<lambda>_.
     andthen (if dp_id p = fs_coordinator params
         then for_each (copy_own_share account sighash (dp_id p)) [0..<nsigs] else ret ()) (\<lambda>_.
     andthen (get_prop COORDINATOR_ADDRESS_PROP) (\<lambda>coordinator_address.
     andthen (publish_unmined SIGN_LAST_TXID_PROP (fs_funding params)) (\<lambda>unmined.
     gets (\<lambda>w. \<lparr> so_account = account, so_funding = fs_funding params, so_self = dp_id p,
       so_coordinator = fs_coordinator params, so_n = dp_n p, so_t = dp_t p, so_sighash = sighash,
       so_nsigs = nsigs, so_birth_height = dp_birth_height p, so_mailbox = mailbox,
       so_mailbox_address = self_address, so_coordinator_address = coordinator_address,
       so_broadcast = map_option fst broadcast, so_broadcast_address = map_option snd broadcast,
       so_publish_unmined = unmined,
       so_own_commitments = list_ex (\<lambda>r. cm_account r = account \<and> cm_sighash r = sighash \<and> cm_from r = dp_id p)
         (fw_commitments w),
       so_commitment_counts = fst (sign_counts account sighash nsigs w),
       so_packages = length (filter (\<lambda>r. sg_package r \<noteq> None) (signatures_of account sighash w)) mod 2 ^ 32,
       so_own_shares = list_ex (\<lambda>r. sg_share r \<noteq> None) (signatures_of account sighash w),
       so_share_counts = snd (sign_counts account sighash nsigs w) \<rparr>))))))))))))))"

definition observe_sign :: "sign_lib \<Rightarrow> sign_obs option frost" where
  "observe_sign lib =
     andthen (gets is_signing_in_progress) (\<lambda>exists.
       if \<not> exists then ret None
       else
         andthen (load_sign_params lib) (\<lambda>params.
         andthen (load_pczt_pkg lib) (\<lambda>pkg.
         andthen (the_or Panicked (Option.bind (sl_pczt lib (pk_pczt pkg)) pv_sighash)) (\<lambda>sighash.
         andthen (observe_session lib params pkg sighash) (\<lambda>s. ret (Some s))))))"

section \<open>Effects\<close>

datatype send_result = Sent | FundsMissing

text \<open>
  The transaction of an effect, which answers the staged bytes if it staged any. Funds that are
  missing end it without a commit; a committed message is sent.
\<close>

definition publish_in_tx :: "server \<Rightarrow> blob option frost \<Rightarrow> send_result frost" where
  "publish_in_tx sv m = (\<lambda>w.
     case atomic m w of
       (Inl NoFeasibleSelection, w') \<Rightarrow> (Inr FundsMissing, w')
     | (Inl e, w') \<Rightarrow> (Inl e, w')
     | (Inr None, w') \<Rightarrow> (Inr Sent, w')
     | (Inr (Some staged), w') \<Rightarrow> andthen (send_staged sv staged) (\<lambda>_. ret Sent) w')"

definition stage_message :: "sign_lib \<Rightarrow> u32 \<Rightarrow> (string \<times> blob) list \<Rightarrow> blob option frost" where
  "stage_message lib funding recipients =
     andthen (stage_publish (sl_frost lib) funding recipients SIGN_LAST_TXID_PROP) (\<lambda>b. ret (Some b))"

definition ensure_mailbox :: "sign_lib \<Rightarrow> sign_obs \<Rightarrow> unit frost" where
  "ensure_mailbox lib s =
     andthen (ensure_mailbox_from_seed lib (so_account s)) (\<lambda>_.
     andthen (group_sk lib (so_account s)) (\<lambda>sk.
     andthen (session_broadcast_sk lib sk (so_sighash s)) (\<lambda>session_sk.
     andthen (ensure_broadcast_account_from_sk lib session_sk) (\<lambda>_. ret ()))))"

definition message_for :: "sign_obs \<Rightarrow> u16 \<Rightarrow> u32 \<Rightarrow> blob \<Rightarrow> blob option \<Rightarrow> sig_message" where
  "message_for s from idx data share = \<lparr> sm_sighash = so_sighash s, sm_from = from, sm_idx = idx,
     sm_data = data, sm_signature = None, sm_share = share \<rparr>"

definition announce_coordinator :: "sign_lib \<Rightarrow> server \<Rightarrow> sign_obs \<Rightarrow> send_result frost" where
  "announce_coordinator lib sv s =
     andthen (the_or InputMissing (so_broadcast_address s)) (\<lambda>broadcast.
     andthen (the_or InputMissing (so_mailbox_address s)) (\<lambda>address.
       publish_in_tx sv (
         andthen (load_signing_key (so_account s)) (\<lambda>key.
         andthen (put_prop COORDINATOR_ADDRESS_PROP address) (\<lambda>_.
         andthen (the_or Library (seal lib key COORDINATOR_PREFIX
             (message_for s (so_coordinator s) 0 (map of_char address) None))) (\<lambda>bytes.
           stage_message lib (so_funding s) [(broadcast, bytes)]))))))"

definition load_key_package :: "sign_lib \<Rightarrow> u32 \<Rightarrow> blob frost" where
  "load_key_package lib account =
     andthen (gets (\<lambda>w. ds_key_pkg (state_of account w))) (\<lambda>k.
     andthen (the_or InputMissing k) (\<lambda>key.
     andthen (ensure (sl_key_id lib key \<noteq> None) Library) (\<lambda>_. ret key)))"

definition insert_signature :: "signature_row \<Rightarrow> unit frost" where
  "insert_signature row =
     andthen (gets (\<lambda>w. list_ex (signature_at (sg_account row) (sg_sighash row) (sg_idx row)) (fw_signatures w))) (\<lambda>taken.
     andthen (ensure (\<not> taken) ConstraintFailed) (\<lambda>_.
       modify (\<lambda>w. w\<lparr> fw_signatures := fw_signatures w @ [row] \<rparr>)))"

definition insert_new_commitment :: "commitment_row \<Rightarrow> unit frost" where
  "insert_new_commitment row =
     andthen (gets (\<lambda>w. list_ex (commitment_at (cm_account row) (cm_sighash row) (cm_idx row) (cm_from row))
         (fw_commitments w))) (\<lambda>taken.
     andthen (ensure (\<not> taken) ConstraintFailed) (\<lambda>_.
       modify (\<lambda>w. w\<lparr> fw_commitments := fw_commitments w @ [row] \<rparr>)))"

definition commit_input ::
  "sign_lib \<Rightarrow> sign_obs \<Rightarrow> blob option \<Rightarrow> blob \<Rightarrow> blob \<Rightarrow> u32 \<Rightarrow> blob frost" where
  "commit_input lib s signing_key key_package share idx =
     andthen (the_or Library (sl_commit lib key_package idx)) (\<lambda>(nonces, commitments).
     andthen (insert_signature \<lparr> sg_account = so_account s, sg_sighash = so_sighash s, sg_idx = idx,
         sg_nonce = nonces, sg_package = None, sg_randomizer = None, sg_share = None, sg_signature = None \<rparr>) (\<lambda>_.
     andthen (insert_new_commitment \<lparr> cm_account = so_account s, cm_sighash = so_sighash s, cm_idx = idx,
         cm_from = so_self s, cm_commitment = commitments, cm_share = None \<rparr>) (\<lambda>_.
       the_or Library (seal lib signing_key COMMITMENT_PREFIX
         (message_for s (so_self s) idx commitments (Some share))))))"

text \<open>The messages of a loop, in order.\<close>

fun gather :: "('a \<Rightarrow> 'b frost) \<Rightarrow> 'a list \<Rightarrow> 'b list frost" where
  "gather f [] = ret []"
| "gather f (x # xs) = andthen (f x) (\<lambda>y. andthen (gather f xs) (\<lambda>ys. ret (y # ys)))"

definition send_commitments :: "sign_lib \<Rightarrow> server \<Rightarrow> sign_obs \<Rightarrow> send_result frost" where
  "send_commitments lib sv s =
     andthen (the_or InputMissing (so_coordinator_address s)) (\<lambda>coordinator_address.
       publish_in_tx sv (
         andthen (load_signing_key (so_account s)) (\<lambda>signing_key.
         andthen (load_key_package lib (so_account s)) (\<lambda>key_package.
         andthen (the_or Library (sl_key_share lib key_package)) (\<lambda>share.
         andthen (gather (commit_input lib s signing_key key_package share) [0..<so_nsigs s]) (\<lambda>msgs.
           if is_coordinator s then ret None
           else stage_message lib (so_funding s) (map (Pair coordinator_address) msgs)))))))"

definition part_message ::
  "sign_lib \<Rightarrow> sign_obs \<Rightarrow> blob option \<Rightarrow> u32 \<Rightarrow> blob \<Rightarrow> u16 \<times> blob \<Rightarrow> blob frost" where
  "part_message lib s signing_key idx randomizer = (\<lambda>(signer, commitment).
     andthen (the_or Library (sl_encode_part lib
         \<lparr> sp_signer = signer, sp_commitment = commitment, sp_randomizer = randomizer \<rparr>)) (\<lambda>data.
       the_or Library (seal lib signing_key SIGPACKAGE_PREFIX
         (message_for s (so_coordinator s) idx data None))))"

definition package_input ::
  "sign_lib \<Rightarrow> sign_obs \<Rightarrow> blob option \<Rightarrow> blob list \<Rightarrow> u32 \<times> (u16 \<times> blob) list \<Rightarrow> blob list frost" where
  "package_input lib s signing_key randomizers = (\<lambda>(idx, signers).
     andthen (the_or Panicked (if idx < length randomizers then Some (randomizers ! idx) else None)) (\<lambda>randomizer.
     andthen (the_or Library (sl_make_package lib signers (so_sighash s))) (\<lambda>package.
     andthen (update_signatures (signature_at (so_account s) (so_sighash s) idx)
         (\<lambda>r. r\<lparr> sg_package := Some package, sg_randomizer := Some randomizer \<rparr>)) (\<lambda>_.
       gather (part_message lib s signing_key idx randomizer) signers))))"

definition make_sigpackages :: "sign_lib \<Rightarrow> server \<Rightarrow> sign_obs \<Rightarrow> send_result frost" where
  "make_sigpackages lib sv s =
     andthen (the_or InputMissing (so_broadcast_address s)) (\<lambda>broadcast.
     andthen (load_pczt_pkg lib) (\<lambda>pkg.
     andthen (check_indices pkg) (\<lambda>_.
     andthen (load_commitments lib (so_account s) (so_sighash s) (so_nsigs s)) (\<lambda>maps.
       publish_in_tx sv (
         andthen (load_signing_key (so_account s)) (\<lambda>signing_key.
         andthen (the_or Library (input_randomizers lib pkg)) (\<lambda>randomizers.
         andthen (gather (package_input lib s signing_key randomizers) (enumerate 0 maps)) (\<lambda>msgs.
           stage_message lib (so_funding s) (map (Pair broadcast) (concat msgs))))))))))"

text \<open>The packages with their randomizers, and the nonces, in the order of the inputs.\<close>

definition load_sigpackages :: "u32 \<Rightarrow> blob \<Rightarrow> (blob \<times> blob) list frost" where
  "load_sigpackages account sighash =
     andthen (gets (\<lambda>w. those (map (\<lambda>r. map_option (Pair (the (sg_package r))) (sg_randomizer r))
       (filter (\<lambda>r. sg_package r \<noteq> None) (signatures_of account sighash w))))) (the_or Panicked)"

definition load_nonces :: "u32 \<Rightarrow> blob \<Rightarrow> blob list frost" where
  "load_nonces account sighash = gets (\<lambda>w. map sg_nonce (signatures_of account sighash w))"

definition share_input ::
  "sign_lib \<Rightarrow> sign_obs \<Rightarrow> blob option \<Rightarrow> blob \<Rightarrow> blob list \<Rightarrow> u32 \<times> (blob \<times> blob) \<Rightarrow> blob frost" where
  "share_input lib s signing_key key_package randomizers = (\<lambda>(idx, (package, nonce)).
     andthen (the_or InputMissing (if idx < length randomizers then Some (randomizers ! idx) else None)) (\<lambda>randomizer.
     andthen (the_or Library (sl_sign lib package nonce key_package randomizer)) (\<lambda>share.
     andthen (update_signatures (signature_at (so_account s) (so_sighash s) idx)
         (\<lambda>r. r\<lparr> sg_share := Some share \<rparr>)) (\<lambda>_.
       the_or Library (seal lib signing_key SIGSHARE_PREFIX (message_for s (so_self s) idx share None))))))"

definition send_sigshares :: "sign_lib \<Rightarrow> server \<Rightarrow> sign_obs \<Rightarrow> send_result frost" where
  "send_sigshares lib sv s =
     andthen (the_or InputMissing (so_coordinator_address s)) (\<lambda>coordinator_address.
     andthen (load_key_package lib (so_account s)) (\<lambda>key_package.
     andthen (load_nonces (so_account s) (so_sighash s)) (\<lambda>nonces.
     andthen (load_sigpackages (so_account s) (so_sighash s)) (\<lambda>packages.
     andthen (load_pczt_pkg lib) (\<lambda>pkg.
     andthen (the_or Library (input_randomizers lib pkg)) (\<lambda>randomizers.
       publish_in_tx sv (
         andthen (load_signing_key (so_account s)) (\<lambda>signing_key.
         andthen (gather (share_input lib s signing_key key_package randomizers)
             (enumerate 0 (zip (map fst packages) nonces))) (\<lambda>msgs.
           if is_coordinator s then ret None
           else stage_message lib (so_funding s) (map (Pair coordinator_address) msgs))))))))))"

definition sign_own_publish :: "sign_lib \<Rightarrow> server \<Rightarrow> sign_obs \<Rightarrow> u32 \<Rightarrow> bool frost" where
  "sign_own_publish lib sv s height =
     andthen (publish_expired (sl_frost lib) SIGN_LAST_TXID_PROP (so_funding s) height) (\<lambda>expired.
       if expired then ret True
       else andthen (resend_publish sv SIGN_LAST_TXID_PROP) (\<lambda>_. ret False))"

section \<open>Aggregation\<close>

definition share_map :: "sign_lib \<Rightarrow> u32 \<Rightarrow> blob \<Rightarrow> frost_wallet \<Rightarrow> u32 \<Rightarrow> (u16 \<times> blob) list panics" where
  "share_map lib account sighash w idx =
     (let rows = filter (\<lambda>r. cm_share r \<noteq> None) (commitments_of account sighash idx w)
      in if list_ex (\<lambda>r. cm_from r = 0 \<or> \<not> sl_share_ok lib (the (cm_share r))) rows then None
         else Some (map (\<lambda>r. (cm_from r, the (cm_share r))) (sort_key cm_from rows)))"

definition load_all_sigshares :: "sign_lib \<Rightarrow> u32 \<Rightarrow> blob \<Rightarrow> u32 \<Rightarrow> (u16 \<times> blob) list list frost" where
  "load_all_sigshares lib account sighash nsigs =
     andthen (gets (\<lambda>w. those (map (share_map lib account sighash w) [0..<nsigs]))) (the_or Panicked)"

text \<open>The verifying share of a signer: ours from the key package, a peer's from its row.\<close>

definition signer_share :: "sign_lib \<Rightarrow> u32 \<Rightarrow> blob \<Rightarrow> u16 \<Rightarrow> (u16 \<times> blob) option frost" where
  "signer_share lib account key_package signer =
     (if sl_key_id lib key_package = Some signer
      then andthen (the_or Library (sl_key_share lib key_package)) (\<lambda>share. ret (Some (signer, share)))
      else andthen (gets (peer_at account VERIFYING_SHARE_ROUND (signer mod 2 ^ 8))) (\<lambda>row.
        case row of
          None \<Rightarrow> ret None
        | Some r \<Rightarrow>
            andthen (ensure (sl_vshare_ok lib (pe_data r)) Library) (\<lambda>_. ret (Some (signer, pe_data r)))))"

fun signer_shares :: "sign_lib \<Rightarrow> u32 \<Rightarrow> blob \<Rightarrow> u16 list \<Rightarrow> (u16 \<times> blob) list option frost" where
  "signer_shares lib account key_package [] = ret (Some [])"
| "signer_shares lib account key_package (signer # signers) =
     andthen (signer_share lib account key_package signer) (\<lambda>share.
       case share of
         None \<Rightarrow> ret None
       | Some x \<Rightarrow>
           andthen (signer_shares lib account key_package signers) (\<lambda>rest.
             ret (map_option (\<lambda>xs. x # xs) rest)))"

definition rebuild_pubkey_package :: "sign_lib \<Rightarrow> u32 \<Rightarrow> u16 list \<Rightarrow> blob option frost" where
  "rebuild_pubkey_package lib account signing_set =
     andthen (load_key_package lib account) (\<lambda>key_package.
     andthen (gets (get_orchard_vk account)) (\<lambda>vk.
     andthen (the_or NoAccount vk) (\<lambda>fvk.
     andthen (signer_shares lib account key_package signing_set) (\<lambda>shares.
       case shares of
         None \<Rightarrow> ret None
       | Some shares \<Rightarrow>
           andthen (the_or Library (sl_rebuild lib shares (take 32 fvk))) (\<lambda>ppkg. ret (Some ppkg))))))"

definition load_pubkey_package :: "sign_lib \<Rightarrow> u32 \<Rightarrow> blob option frost" where
  "load_pubkey_package lib account =
     andthen (gets (\<lambda>w. List.find (\<lambda>r. pe_account r = account \<and> pe_round r = 3) (fw_peers w))) (\<lambda>row.
       case row of
         None \<Rightarrow> ret None
       | Some r \<Rightarrow> andthen (ensure (sl_pubkey_ok lib (pe_data r)) Library) (\<lambda>_. ret (Some (pe_data r))))"

definition aggregate_input ::
  "sign_lib \<Rightarrow> sign_obs \<Rightarrow> blob \<Rightarrow> u32 \<times> ((u16 \<times> blob) list \<times> (blob \<times> blob)) \<Rightarrow> blob frost" where
  "aggregate_input lib s ppkg = (\<lambda>(idx, (shares, (package, randomizer))).
     andthen (the_or Library (sl_aggregate lib package shares ppkg randomizer)) (\<lambda>signature.
     andthen (update_signatures (signature_at (so_account s) (so_sighash s) idx)
         (\<lambda>r. r\<lparr> sg_signature := Some signature \<rparr>)) (\<lambda>_. ret signature)))"

definition broadcast_frost :: "frost_lib \<Rightarrow> server \<Rightarrow> u32 \<Rightarrow> blob \<Rightarrow> string frost" where
  "broadcast_frost lib sv account tx_bytes = (\<lambda>w.
     let (r, db) = broadcast_under_session (sv_latest sv) (sv_post sv) (fl_read lib) account tx_bytes None (fw_log w);
         posted = (case sv_latest sv of Inl _ \<Rightarrow> fw_posted w | Inr _ \<Rightarrow> fw_posted w @ [tx_bytes])
     in (case r of Inl e \<Rightarrow> Inl (SendFailed e) | Inr txid \<Rightarrow> Inr txid, w\<lparr> fw_log := db, fw_posted := posted \<rparr>))"

definition aggregate_and_send :: "sign_lib \<Rightarrow> server \<Rightarrow> sign_obs \<Rightarrow> string frost" where
  "aggregate_and_send lib sv s =
     andthen (load_sigpackages (so_account s) (so_sighash s)) (\<lambda>packages.
     andthen (load_all_sigshares lib (so_account s) (so_sighash s) (so_nsigs s)) (\<lambda>shares.
     andthen (rebuild_pubkey_package lib (so_account s) (if shares = [] then [] else map fst (hd shares))) (\<lambda>rebuilt.
     andthen (case rebuilt of
         Some ppkg \<Rightarrow> ret ppkg
       | None \<Rightarrow> andthen (load_pubkey_package lib (so_account s)) (the_or InputMissing)) (\<lambda>ppkg.
     andthen (load_pczt_pkg lib) (\<lambda>pkg.
     andthen (ensure (sl_pczt lib (pk_pczt pkg) \<noteq> None) Library) (\<lambda>_.
     andthen (check_indices pkg) (\<lambda>_.
     andthen (atomic (gather (aggregate_input lib s ppkg) (enumerate 0 (zip shares packages)))) (\<lambda>signatures.
     andthen (ensure (length (pk_orchard pkg) \<le> length signatures) Panicked) (\<lambda>_.
     andthen (the_or Library (sl_finish lib pkg signatures)) (\<lambda>(txid, tx_bytes).
     andthen (gets (\<lambda>w. transaction_known (so_account s) txid (fw_log w))) (\<lambda>recorded.
       if recorded then andthen delete_frost_state (\<lambda>_. ret (sl_txid_text lib txid))
       else
         andthen (broadcast_frost (sl_frost lib) sv (so_account s) tx_bytes) (\<lambda>sent_txid.
         andthen delete_frost_state (\<lambda>_. ret sent_txid)))))))))))))"

section \<open>A pass\<close>

definition least :: "nat list \<Rightarrow> u8" where
  "least counts = (if counts = [] then 0 else Min (set counts) mod 2 ^ 8)"

definition sign_progress :: "sign_task \<Rightarrow> sign_obs \<Rightarrow> (string \<times> u8 \<times> u8) option" where
  "sign_progress task s =
     (case task of
        WaitCommitments \<Rightarrow> Some (''Commitments'', least (so_commitment_counts s), so_t s)
      | WaitSigpackages \<Rightarrow> Some (''Signing package parts'', so_packages s mod 2 ^ 8, so_nsigs s mod 2 ^ 8)
      | WaitSigshares \<Rightarrow> Some (''Signature shares'', least (so_share_counts s), so_t s)
      | _ \<Rightarrow> None)"

text \<open>A pass that ends without an outcome found no session, or a cancel.\<close>

datatype sign_turn = SignReplan | SignRan sign_task | SignStopped "sign_outcome option"

definition sign_end :: "sign_task list \<Rightarrow> sign_outcome" where
  "sign_end executed = \<lparr> sn_executed = executed, sn_waiting_for_funds = False, sn_txid = None,
     sn_progress = None \<rparr>"

definition after_send :: "sign_task \<Rightarrow> sign_task list \<Rightarrow> send_result \<Rightarrow> sign_turn frost" where
  "after_send task executed r =
     (case r of
        Sent \<Rightarrow> ret (SignRan task)
      | FundsMissing \<Rightarrow> ret (SignStopped (Some ((sign_end executed)\<lparr> sn_waiting_for_funds := True \<rparr>))))"

definition run_sign_task ::
  "sign_lib \<Rightarrow> server \<Rightarrow> sign_task \<Rightarrow> sign_obs \<Rightarrow> sign_task list \<Rightarrow> sign_turn frost" where
  "run_sign_task lib sv task fresh executed =
     (case task of
        EnsureMailbox \<Rightarrow> andthen (ensure_mailbox lib fresh) (\<lambda>_. ret (SignRan task))
      | AnnounceCoordinator \<Rightarrow> andthen (announce_coordinator lib sv fresh) (after_send task executed)
      | SendCommitments \<Rightarrow> andthen (send_commitments lib sv fresh) (after_send task executed)
      | MakeSigpackages \<Rightarrow> andthen (make_sigpackages lib sv fresh) (after_send task executed)
      | SendSigshares \<Rightarrow> andthen (send_sigshares lib sv fresh) (after_send task executed)
      | Aggregate \<Rightarrow>
          andthen (aggregate_and_send lib sv fresh) (\<lambda>txid.
            ret (SignStopped (Some ((sign_end (executed @ [task]))\<lparr> sn_txid := Some txid \<rparr>))))
      | SignDone \<Rightarrow>
          andthen delete_frost_state (\<lambda>_. ret (SignStopped (Some (sign_end (executed @ [task])))))
      | _ \<Rightarrow> fail Panicked)"

text \<open>An abort clears the session, so that its error is reported once.\<close>

definition plan_or_abort :: "sign_obs \<Rightarrow> sign_task frost" where
  "plan_or_abort s =
     (case next_sign_task s of
        Inr task \<Rightarrow> ret task
      | Inl e \<Rightarrow> andthen delete_frost_state (\<lambda>_. fail e))"

definition sign_iteration ::
  "sign_lib \<Rightarrow> u32 \<Rightarrow> pass_env \<Rightarrow> sign_task list \<Rightarrow> sign_turn frost" where
  "sign_iteration lib height env executed =
     andthen (observe_sign lib) (\<lambda>state.
       case state of
         None \<Rightarrow> ret (SignStopped None)
       | Some s \<Rightarrow>
           andthen (plan_or_abort s) (\<lambda>task.
           andthen (if task = SignWaitOwnPublish then sign_own_publish lib (pe_server env) s height else ret False)
             (\<lambda>expired.
           if expired then ret SignReplan
           else if sign_kind task \<noteq> EffectTask then
             ret (SignStopped (Some ((sign_end (executed @ [task]))\<lparr> sn_progress := sign_progress task s \<rparr>)))
           else
             andthen (modify (pe_meanwhile env)) (\<lambda>_.
             andthen (observe_sign lib) (\<lambda>again.
               case again of
                 None \<Rightarrow> ret (SignStopped None)
               | Some fresh \<Rightarrow>
                   if \<not> sign_satisfied task fresh then ret SignReplan
                   else if pe_stopping env then ret (SignStopped None)
                   else run_sign_task lib (pe_server env) task fresh executed)))))"

fun sign_pass :: "sign_lib \<Rightarrow> u32 \<Rightarrow> pass_env list \<Rightarrow> sign_task list \<Rightarrow> sign_outcome option frost" where
  "sign_pass lib height [] executed = fail TooManyEffects"
| "sign_pass lib height (env # envs) executed =
     andthen (sign_iteration lib height env executed) (\<lambda>t.
       case t of
         SignReplan \<Rightarrow> sign_pass lib height envs executed
       | SignRan task \<Rightarrow> sign_pass lib height envs (executed @ [task])
       | SignStopped out \<Rightarrow> ret out)"

definition sign_step :: "sign_lib \<Rightarrow> u32 \<Rightarrow> (nat \<Rightarrow> pass_env) \<Rightarrow> sign_outcome option frost" where
  "sign_step lib height env =
     andthen (observe_sign lib) (\<lambda>state.
       case state of
         None \<Rightarrow> ret None
       | Some _ \<Rightarrow> sign_pass lib height (map env [0..<16]) [])"

section \<open>The session\<close>

definition session_expiry :: "sign_lib \<Rightarrow> u32 option frost" where
  "session_expiry lib =
     andthen (gets is_signing_in_progress) (\<lambda>b.
       if \<not> b then ret None
       else
         andthen (load_pczt_pkg lib) (\<lambda>pkg.
         andthen (the_or Library (sl_pczt lib (pk_pczt pkg))) (\<lambda>v. ret (Some (pv_expiry v)))))"

definition EXPIRY_WARNING_BLOCKS :: u32 where "EXPIRY_WARNING_BLOCKS = 10"

definition session_ended :: "sign_outcome \<Rightarrow> bool" where
  "session_ended out = (sn_txid out \<noteq> None \<or> (sn_executed out \<noteq> [] \<and> last (sn_executed out) = SignDone))"

definition do_sign :: "sign_lib \<Rightarrow> u32 \<Rightarrow> (nat \<Rightarrow> pass_env) \<Rightarrow> sign_status list frost" where
  "do_sign lib height env =
     andthen (session_expiry lib) (\<lambda>e.
       case e of
         None \<Rightarrow> ret []
       | Some expiry \<Rightarrow>
           if expiry \<noteq> 0 \<and> expiry \<le> height then andthen delete_frost_state (\<lambda>_. ret [SignExpired])
           else
             andthen (sign_step lib height env) (\<lambda>r.
               case r of
                 None \<Rightarrow> ret []
               | Some out \<Rightarrow> ret (report_outcome out
                   @ (if expiry \<noteq> 0 \<and> \<not> session_ended out \<and> expiry - height \<le> EXPIRY_WARNING_BLOCKS
                      then [ExpiringSoon (expiry - height)] else []))))"

end
