(* ===== verification/Sign_Correct.thy ===== *)
theory Sign_Correct
  imports Sign_Exec Dkg_Pass
begin

text \<open>
  What a signing pass leaves of the rows its safety rests on: the nonces, the signing packages
  and the shares of a session. Every effect but three is \<open>calm\<close>: it adds and removes no row of
  the signatures, changes no nonce and no share, and a package only from none to some. The
  three are the commitments, which add rows, the packages of the coordinator, and the shares.
\<close>

section \<open>The session of a wallet\<close>

definition session_of :: "sign_lib \<Rightarrow> frost_wallet \<Rightarrow> (sign_params \<times> pczt_package \<times> blob) option" where
  "session_of lib w =
     Option.bind (Option.bind (fw_props w ''frost_sign_params'') (sl_params_of lib)) (\<lambda>params.
     Option.bind (Option.bind (fw_props w ''frost_pczt'') (sl_package_of lib)) (\<lambda>pkg.
     Option.bind (Option.bind (sl_pczt lib (pk_pczt pkg)) pv_sighash) (\<lambda>sighash.
       Some (params, pkg, sighash))))"

definition inputs_of :: "pczt_package \<Rightarrow> u32" where
  "inputs_of pkg = (length (pk_orchard pkg) + length (pk_ironwood pkg)) mod 2 ^ 32"

definition session_props :: "string set" where
  "session_props = {''frost_pczt'', ''frost_sign_params''}"

definition same_row :: "signature_row \<Rightarrow> signature_row \<Rightarrow> bool" where
  "same_row r r' = (sg_account r' = sg_account r \<and> sg_sighash r' = sg_sighash r \<and> sg_idx r' = sg_idx r
     \<and> sg_nonce r' = sg_nonce r)"

definition calm_row :: "signature_row \<Rightarrow> signature_row \<Rightarrow> bool" where
  "calm_row r r' = (same_row r r' \<and> sg_share r' = sg_share r
     \<and> (sg_package r \<noteq> None \<longrightarrow> sg_package r' = sg_package r))"

definition commitment_key :: "commitment_row \<Rightarrow> u32 \<times> blob \<times> u32 \<times> u16" where
  "commitment_key r = (cm_account r, cm_sighash r, cm_idx r, cm_from r)"

definition participant :: "dkg_params_row \<Rightarrow> u8 \<times> u8 \<times> u8" where
  "participant p = (dp_id p, dp_n p, dp_t p)"

text \<open>The session, the keys, the participants and the commitments stay.\<close>

definition same_session :: "frost_wallet \<Rightarrow> frost_wallet \<Rightarrow> bool" where
  "same_session w w' = ((\<forall>k \<in> session_props. fw_props w' k = fw_props w k) \<and> fw_state w' = fw_state w
     \<and> (\<forall>a. map_option participant (fw_params w' a) = map_option participant (fw_params w a))
     \<and> commitment_key ` set (fw_commitments w) \<subseteq> commitment_key ` set (fw_commitments w'))"

definition calm :: "frost_wallet \<Rightarrow> frost_wallet \<Rightarrow> bool" where
  "calm w w' = (same_session w w' \<and> list_all2 calm_row (fw_signatures w) (fw_signatures w'))"

lemma same_session_refl: "same_session w w"
  by (simp add: same_session_def)

lemma same_session_trans: "same_session u v \<Longrightarrow> same_session v w \<Longrightarrow> same_session u w"
  unfolding same_session_def
  by (elim conjE, intro conjI) (simp, simp, simp, erule (1) subset_trans)

lemma calm_row_refl: "calm_row r r"
  by (simp add: calm_row_def same_row_def)

lemma calm_row_trans: "calm_row a b \<Longrightarrow> calm_row b c \<Longrightarrow> calm_row a c"
  by (auto simp: calm_row_def same_row_def)

interpretation cl: two_state calm
proof
  show "calm w w" for w by (simp add: calm_def same_session_refl list_all2_refl calm_row_refl)
  show "calm u v \<Longrightarrow> calm v w \<Longrightarrow> calm u w" for u v w
    unfolding calm_def using same_session_trans list_all2_trans [of calm_row calm_row calm_row]
    by (metis calm_row_trans)
qed

lemma session_of_same: "same_session w w' \<Longrightarrow> session_of lib w' = session_of lib w"
  by (simp add: same_session_def session_of_def session_props_def)

lemma calm_session: "calm w w' \<Longrightarrow> session_of lib w' = session_of lib w"
  by (simp add: calm_def session_of_same)

section \<open>Calm effects\<close>

lemma calm_same:
  assumes "\<forall>k \<in> session_props. fw_props w' k = fw_props w k" "fw_state w' = fw_state w"
    "fw_params w' = fw_params w" "fw_commitments w' = fw_commitments w" "fw_signatures w' = fw_signatures w"
  shows "calm w w'"
  using assms by (simp add: calm_def same_session_def list_all2_refl calm_row_refl)

lemma sign_props_distinct:
  "k \<in> session_props \<Longrightarrow> k \<noteq> SIGN_LAST_TXID_PROP \<and> k \<noteq> publish_tx_prop SIGN_LAST_TXID_PROP
    \<and> k \<noteq> publish_expiry_prop SIGN_LAST_TXID_PROP \<and> k \<noteq> COORDINATOR_ADDRESS_PROP"
  by (auto simp: session_props_def SIGN_LAST_TXID_PROP_def publish_tx_prop_def publish_expiry_prop_def
      COORDINATOR_ADDRESS_PROP_def)

lemma calm_put_prop: "k \<notin> session_props \<Longrightarrow> steps calm (put_prop k v)"
  unfolding put_prop_def by (intro cl.steps_modify calm_same) auto

text \<open>An effect that hands nothing to the server and sets no marker is \<open>silent\<close>.\<close>

definition silent :: "frost_wallet \<Rightarrow> frost_wallet \<Rightarrow> bool" where
  "silent w w' = (calm w w' \<and> fw_posted w' = fw_posted w
     \<and> (fw_props w SIGN_LAST_TXID_PROP = None \<longrightarrow> fw_props w' SIGN_LAST_TXID_PROP = None))"

interpretation sl: two_state silent
proof
  show "silent w w" for w by (simp add: silent_def cl.refl)
  show "silent u v \<Longrightarrow> silent v w \<Longrightarrow> silent u w" for u v w
    unfolding silent_def using cl.trans by metis
qed

lemma silent_calm: "silent w w' \<Longrightarrow> calm w w'"
  by (simp add: silent_def)

lemma steps_silent_calm: "steps silent m \<Longrightarrow> steps calm m"
  by (rule steps_mono [OF _ silent_calm])

lemma silentI:
  assumes "calm w w'" "fw_posted w' = fw_posted w" "fw_props w' = fw_props w"
  shows "silent w w'"
  using assms by (simp add: silent_def)

lemma silent_prims [intro, simp]:
  "steps silent (put_prop COORDINATOR_ADDRESS_PROP v)"
  "steps silent (clear_publish SIGN_LAST_TXID_PROP)"
  "steps silent (insert_peer r)"
  using sign_props_distinct
  by (auto simp: steps_def silent_def clear_publish_def insert_peer_def put_prop_def modify_def
      COORDINATOR_ADDRESS_PROP_def SIGN_LAST_TXID_PROP_def intro!: calm_same)

lemma calm_prims [intro, simp]:
  "steps calm (clear_publish SIGN_LAST_TXID_PROP)"
  "steps calm (on_log f)"
  "steps calm (post_to sv tx_bytes)"
  "steps calm (\<lambda>w. (Inr (), snd (post_to sv tx_bytes w)))"
  using steps_silent_calm [OF silent_prims(2)]
  by (auto simp: steps_def post_to_def on_log_def intro!: calm_same split: sum.split)

lemma calm_send_staged [intro, simp]: "steps calm (send_staged sv b)"
  unfolding send_staged_def by auto

lemma calm_stage_publish [intro, simp]: "steps calm (stage_publish lib account rs SIGN_LAST_TXID_PROP)"
  unfolding stage_publish_def
  by (intro cl.steps_andthen) (auto intro!: calm_put_prop dest: sign_props_distinct)

lemma silent_insert_commitment [intro, simp]: "steps silent (insert_commitment row)"
  unfolding insert_commitment_def
  by (intro sl.steps_modify silentI) (auto simp: calm_def same_session_def list_all2_refl calm_row_refl)

lemma key_update_where:
  assumes "\<And>r. commitment_key (f r) = commitment_key r"
  shows "commitment_key ` set (update_where P f rows) = commitment_key ` set rows"
proof -
  have k: "commitment_key (if P r then f r else r) = commitment_key r" for r using assms by simp
  show ?thesis by (simp only: update_where_def set_map image_image k)
qed

lemma silent_update_commitments [intro, simp]:
  "steps silent (update_commitments P (\<lambda>r. r\<lparr> cm_share := x \<rparr>))"
proof -
  have "commitment_key ` set (update_where P (\<lambda>r. r\<lparr> cm_share := x \<rparr>) rows) = commitment_key ` set rows" for rows
    by (rule key_update_where) (simp add: commitment_key_def)
  then show ?thesis unfolding update_commitments_def
    by (intro sl.steps_modify silentI) (simp_all add: calm_def same_session_def list_all2_refl calm_row_refl)
qed

lemma list_all2_update_where:
  "(\<And>r. R r r) \<Longrightarrow> (\<And>r. P r \<Longrightarrow> R r (f r)) \<Longrightarrow> list_all2 R rows (update_where P f rows)"
  by (auto simp: update_where_def list_all2_conv_all_nth)

lemma silent_update_signatures:
  "(\<And>r. P r \<Longrightarrow> calm_row r (f r)) \<Longrightarrow> steps silent (update_signatures P f)"
  unfolding update_signatures_def
  by (intro sl.steps_modify silentI)
    (auto simp: calm_def same_session_def calm_row_refl intro: list_all2_update_where)

lemmas calm_update_signatures = steps_silent_calm [OF silent_update_signatures]

lemma silent_set_params: "(\<And>p. participant (f p) = participant p) \<Longrightarrow> steps silent (set_params a f)"
  unfolding set_params_def
  by (intro sl.steps_modify silentI)
    (auto simp: calm_def same_session_def list_all2_refl calm_row_refl option.map_comp o_def)

lemma silent_accounts [intro, simp]:
  "steps silent (modify (\<lambda>w. w\<lparr> fw_accounts := f w \<rparr>))" "steps silent (new_account lib name key)"
  by (auto simp: steps_def modify_def new_account_def Let_def intro!: silentI calm_same)

lemma steps_gather: "(\<And>x. x \<in> set xs \<Longrightarrow> steps calm (f x)) \<Longrightarrow> steps calm (gather f xs)"
  by (induction xs) (auto intro!: cl.steps_andthen)

section \<open>Observation\<close>

lemma silent_decode:
  assumes "\<And>m. steps silent (store m)"
  shows "steps silent (decode_frost_memos lib account mailbox prefix store)"
proof -
  have "steps silent (load_peer_verifying_key lib account f)" for f
    unfolding load_peer_verifying_key_def by (intro sl.steps_andthen) (auto split: option.split)
  with assms have "steps silent (handle_message lib account store m)" for m
    unfolding handle_message_def by (auto intro!: sl.steps_andthen)
  then show ?thesis unfolding decode_frost_memos_def by (auto intro!: sl.steps_andthen sl.steps_for_each)
qed

lemma silent_ingest [intro, simp]:
  "steps silent (ingest_commitment_memos lib account mailbox sighash nsigs n)"
  "steps silent (ingest_sigshare_memos lib account mailbox sighash nsigs n)"
  "steps silent (ingest_coordinator_memos lib account mailbox sighash coordinator)"
  "steps silent (ingest_sigpackage_memos lib account mailbox sighash nsigs coordinator n expected)"
  unfolding ingest_commitment_memos_def ingest_sigshare_memos_def ingest_coordinator_memos_def
    ingest_sigpackage_memos_def
  by (rule silent_decode; auto simp: store_commitment_def store_share_def store_coordinator_def store_part_def
      calm_row_def same_row_def split: option.split intro!: sl.steps_andthen silent_update_signatures)+

lemma silent_assemble [intro, simp]: "steps silent (assemble_sigpackages lib account sighash nsigs t)"
  unfolding assemble_sigpackages_def load_commitments_def assemble_input_def
  by (intro sl.steps_andthen sl.steps_for_each)
    (auto simp: calm_row_def same_row_def split: prod.split intro!: sl.steps_andthen silent_update_signatures)

lemma silent_publish_unmined [intro, simp]: "steps silent (publish_unmined SIGN_LAST_TXID_PROP a)"
  unfolding publish_unmined_def get_prop_def
  by (intro sl.steps_andthen) (auto split: option.split intro!: sl.steps_andthen)

lemma silent_group_sk [intro, simp]: "steps silent (group_sk lib account)"
  unfolding group_sk_def get_dkg_params_def get_addresses_def
  by (intro sl.steps_andthen) (auto split: option.split intro!: sl.steps_andthen silent_set_params simp: participant_def)

lemma silent_observe_session: "steps silent (observe_session lib params pkg sighash)"
proof -
  have mb: "steps silent (ingest_mailbox lib a mb sh k n)" for a mb sh k n
    unfolding ingest_mailbox_def by (auto split: option.split intro!: sl.steps_andthen)
  have bc: "steps silent (ingest_broadcast lib a b sh k c n pk)" for a b sh k c n pk
    unfolding ingest_broadcast_def by (auto split: option.split intro!: sl.steps_andthen)
  have cp: "steps silent (copy_own_share a sh i idx)" for a sh i idx
    unfolding copy_own_share_def by (auto intro!: sl.steps_andthen)
  have ad: "steps silent (mailbox_address l m)" for l m
    unfolding mailbox_address_def by (auto intro!: sl.steps_andthen)
  show ?thesis
    unfolding observe_session_def Let_def get_dkg_params_def session_broadcast_sk_def get_prop_def
    by (intro sl.steps_andthen mb bc) (auto split: option.split intro!: sl.steps_andthen ad cp sl.steps_for_each)
qed

lemma silent_observe_sign: "steps silent (observe_sign lib)"
  unfolding observe_sign_def load_sign_params_def load_pczt_pkg_def get_prop_def
  by (auto intro!: sl.steps_andthen silent_observe_session)

lemmas calm_observe_sign = steps_silent_calm [OF silent_observe_sign]

text \<open>What a snapshot says of the wallet it leaves.\<close>

definition rows_of :: "u32 \<Rightarrow> blob \<Rightarrow> frost_wallet \<Rightarrow> signature_row list" where
  "rows_of account sighash w = filter (\<lambda>r. sg_account r = account \<and> sg_sighash r = sighash) (fw_signatures w)"

lemma set_signatures_of [simp]: "set (signatures_of account sighash w) = set (rows_of account sighash w)"
  by (simp add: signatures_of_def rows_of_def)

definition packaged :: "u32 \<Rightarrow> blob \<Rightarrow> frost_wallet \<Rightarrow> nat" where
  "packaged account sighash w = length (filter (\<lambda>r. sg_package r \<noteq> None) (rows_of account sighash w))"

lemma length_filter_sort_key: "length (filter P (sort_key f xs)) = length (filter P xs)"
  by (metis mset_filter mset_sort size_mset)

lemma packaged_signatures_of:
  "length (filter (\<lambda>r. sg_package r \<noteq> None) (signatures_of account sighash w)) = packaged account sighash w"
  by (simp add: signatures_of_def packaged_def rows_of_def length_filter_sort_key del: filter_sort)

definition own_commitment :: "u32 \<Rightarrow> blob \<Rightarrow> u8 \<Rightarrow> frost_wallet \<Rightarrow> bool" where
  "own_commitment account sighash self_id w =
     list_ex (\<lambda>r. cm_account r = account \<and> cm_sighash r = sighash \<and> cm_from r = self_id) (fw_commitments w)"

lemma own_commitment_key:
  "own_commitment account sighash self_id w \<longleftrightarrow>
    (\<exists>k \<in> commitment_key ` set (fw_commitments w). case k of (a, s, _, f) \<Rightarrow> a = account \<and> s = sighash \<and> f = self_id)"
  by (auto simp: own_commitment_def list_ex_iff commitment_key_def)

lemma own_commitment_same:
  "same_session w w' \<Longrightarrow> own_commitment account sighash i w \<Longrightarrow> own_commitment account sighash i w'"
  unfolding own_commitment_key same_session_def by (meson subsetD)

lemma observe_sign_ok:
  assumes "observe_sign lib w = (Inr (Some s), w')"
  obtains params pkg sighash p where "session_of lib w = Some (params, pkg, sighash)"
    "fw_params w (fs_account params) = Some p" "so_account s = fs_account params"
    "so_funding s = fs_funding params" "so_coordinator s = fs_coordinator params" "so_self s = dp_id p"
    "so_t s = dp_t p" "so_sighash s = sighash" "so_nsigs s = inputs_of pkg"
    "so_own_commitments s = own_commitment (fs_account params) sighash (dp_id p) w'"
    "so_packages s = packaged (fs_account params) sighash w' mod 2 ^ 32"
    "so_own_shares s = (\<exists>r \<in> set (rows_of (fs_account params) sighash w'). sg_share r \<noteq> None)"
    "so_publish_unmined s \<longrightarrow> fw_props w' SIGN_LAST_TXID_PROP \<noteq> None"
proof -
  obtain params pkg v sighash where
    l: "is_signing_in_progress w" "load_sign_params lib w = (Inr params, w)" "load_pczt_pkg lib w = (Inr pkg, w)"
      "Option.bind (sl_pczt lib (pk_pczt pkg)) pv_sighash = Some sighash"
    and o: "observe_session lib params pkg sighash w = (Inr s, w')"
    using assms by (auto simp: observe_sign_def load_sign_params_def load_pczt_pkg_def get_prop_def andthen_Inr
        split: if_splits)
  have s: "session_of lib w = Some (params, pkg, sighash)"
    using l by (auto simp: session_of_def load_sign_params_def load_pczt_pkg_def get_prop_def andthen_Inr
        bind_eq_Some_conv)
  obtain p wu where p: "fw_params w (fs_account params) = Some p"
    and u: "publish_unmined SIGN_LAST_TXID_PROP (fs_funding params) wu = (Inr (so_publish_unmined s), w')"
    and f: "so_account s = fs_account params" "so_funding s = fs_funding params"
      "so_coordinator s = fs_coordinator params" "so_self s = dp_id p" "so_t s = dp_t p" "so_sighash s = sighash"
      "so_nsigs s = inputs_of pkg"
      "so_own_commitments s = own_commitment (fs_account params) sighash (dp_id p) w'"
      "so_packages s = packaged (fs_account params) sighash w' mod 2 ^ 32"
      "so_own_shares s = (\<exists>r \<in> set (rows_of (fs_account params) sighash w'). sg_share r \<noteq> None)"
    using o unfolding observe_session_def Let_def
    by (auto simp: andthen_Inr get_dkg_params_def inputs_of_def own_commitment_def list_ex_iff
        packaged_signatures_of [simplified])
  have "so_publish_unmined s \<longrightarrow> fw_props w' SIGN_LAST_TXID_PROP \<noteq> None"
    using u by (auto simp: publish_unmined_def get_prop_def andthen_Inr split: option.splits if_splits)
  with s p f that show thesis by blast
qed

end
