(* ===== verification/Sign_Safety.thy ===== *)
theory Sign_Safety
  imports Sign_Correct
begin

text \<open>
  The safety of a signing session: a nonce signs one package. A share is made from the nonce
  and the package of its row, under our key and our own randomizer; from then on the row keeps
  its nonce, its package and its share until the session is deleted.
\<close>

section \<open>Relations on the rows\<close>

locale wallet_relation = two_state R for R :: "frost_wallet \<Rightarrow> frost_wallet \<Rightarrow> bool" +
  assumes calm_R: "calm w w' \<Longrightarrow> R w w'"
begin

lemma steps_calm: "steps calm m \<Longrightarrow> steps R m"
  by (simp add: steps_def calm_R)

lemma steps_gathered: "(\<And>x. x \<in> set xs \<Longrightarrow> steps R (f x)) \<Longrightarrow> steps R (gather f xs)"
  by (induction xs) (auto intro!: steps_andthen)

lemma steps_publish_in_tx:
  assumes "steps R m"
  shows "steps R (publish_in_tx sv m)"
proof -
  have send: "steps R (andthen (send_staged sv b) (\<lambda>_. ret Sent))" for b
    by (intro steps_andthen) (auto intro: steps_calm [OF calm_send_staged])
  have "R w (snd (publish_in_tx sv m w))" for w
  proof -
    obtain r v where v: "atomic m w = (r, v)" by fastforce
    then have wv: "R w v" using stepsD [OF steps_atomic [OF assms]] by blast
    show ?thesis
    proof (cases "\<exists>b. r = Inr (Some b)")
      case True
      then obtain b where "r = Inr (Some b)" by blast
      then have "publish_in_tx sv m w = andthen (send_staged sv b) (\<lambda>_. ret Sent) v"
        by (simp add: publish_in_tx_def v)
      moreover have "R v (snd (andthen (send_staged sv b) (\<lambda>_. ret Sent) v))"
        using send by (simp add: steps_def)
      ultimately show ?thesis using wv trans by simp
    next
      case False
      then have "snd (publish_in_tx sv m w) = v"
        by (auto simp: publish_in_tx_def v split: sum.split frost_error.split option.split)
      then show ?thesis using wv by simp
    qed
  qed
  then show ?thesis by (simp add: steps_def)
qed

end

definition on_rows :: "(signature_row \<Rightarrow> signature_row \<Rightarrow> bool) \<Rightarrow> frost_wallet \<Rightarrow> frost_wallet \<Rightarrow> bool" where
  "on_rows Q w w' = (same_session w w' \<and> list_all2 Q (fw_signatures w) (fw_signatures w'))"

lemma on_rows_relation:
  assumes "\<And>r. Q r r" and "\<And>a b c. Q a b \<Longrightarrow> Q b c \<Longrightarrow> Q a c" and "\<And>r r'. calm_row r r' \<Longrightarrow> Q r r'"
  shows "wallet_relation (on_rows Q)"
proof
  show "on_rows Q w w" for w by (simp add: on_rows_def same_session_refl list_all2_refl assms(1))
  show "on_rows Q u v \<Longrightarrow> on_rows Q v w \<Longrightarrow> on_rows Q u w" for u v w
    unfolding on_rows_def using same_session_trans list_all2_trans [of Q Q Q] assms(2) by metis
  show "calm w w' \<Longrightarrow> on_rows Q w w'" for w w'
    unfolding calm_def on_rows_def using list_all2_mono [of calm_row _ _ Q] assms(3) by blast
qed

interpretation cw: wallet_relation calm
  by unfold_locales simp

text \<open>Packages rewritten, and shares made.\<close>

definition repack_row :: "signature_row \<Rightarrow> signature_row \<Rightarrow> bool" where
  "repack_row r r' = (same_row r r' \<and> sg_share r' = sg_share r)"

interpretation rp: wallet_relation "on_rows repack_row"
  by (rule on_rows_relation) (auto simp: repack_row_def same_row_def calm_row_def)

definition share_row ::
  "sign_lib \<Rightarrow> u32 \<Rightarrow> blob \<Rightarrow> blob \<Rightarrow> blob list \<Rightarrow> (blob \<times> blob) list \<Rightarrow> signature_row \<Rightarrow> signature_row \<Rightarrow> bool" where
  "share_row lib account sighash key rs pairs r r' = (same_row r r'
     \<and> (sg_package r \<noteq> None \<longrightarrow> sg_package r' = sg_package r)
     \<and> (sg_share r' = sg_share r
        \<or> (sg_account r = account \<and> sg_sighash r = sighash \<and> sg_idx r < length pairs \<and> sg_idx r < length rs
           \<and> sg_share r' \<noteq> None
           \<and> sl_sign lib (fst (pairs ! sg_idx r)) (snd (pairs ! sg_idx r)) key (rs ! sg_idx r) = sg_share r')))"

interpretation sh: wallet_relation "on_rows (share_row lib account sighash key rs pairs)"
  for lib account sighash key rs pairs
  by (rule on_rows_relation) (auto simp: share_row_def same_row_def calm_row_def)

text \<open>Rows added for the inputs of a session.\<close>

definition adds_rows :: "u32 \<Rightarrow> blob \<Rightarrow> u32 \<Rightarrow> frost_wallet \<Rightarrow> frost_wallet \<Rightarrow> bool" where
  "adds_rows account sighash n w w' = (same_session w w'
     \<and> (\<exists>old new. fw_signatures w' = old @ new \<and> list_all2 calm_row (fw_signatures w) old
        \<and> (\<forall>r \<in> set new. sg_account r = account \<and> sg_sighash r = sighash \<and> sg_idx r < n \<and> sg_share r = None))
     \<and> (distinct (map sg_idx (rows_of account sighash w)) \<longrightarrow> distinct (map sg_idx (rows_of account sighash w'))))"

lemma adds_rowsI:
  assumes "same_session w w'" "fw_signatures w' = old @ new" "list_all2 calm_row (fw_signatures w) old"
    "\<forall>r \<in> set new. sg_account r = account \<and> sg_sighash r = sighash \<and> sg_idx r < n \<and> sg_share r = None"
    "distinct (map sg_idx (rows_of account sighash w)) \<Longrightarrow> distinct (map sg_idx (rows_of account sighash w'))"
  shows "adds_rows account sighash n w w'"
  using assms unfolding adds_rows_def by blast

lemma list_all2_filter:
  assumes "list_all2 Q xs ys" and "\<And>x y. Q x y \<Longrightarrow> P x = P y"
  shows "list_all2 Q (filter P xs) (filter P ys)"
  using assms(1) by (induction rule: list_all2_induct) (use assms(2) in auto)

lemma list_all2_all:
  assumes "list_all2 Q xs ys" and "\<And>x y. Q x y \<Longrightarrow> P x \<Longrightarrow> P y" and "\<forall>x \<in> set xs. P x"
  shows "\<forall>y \<in> set ys. P y"
  using assms(1,3) by (induction rule: list_all2_induct) (use assms(2) in auto)

lemma rows_list_all2:
  assumes "list_all2 Q (fw_signatures w) (fw_signatures w')" and "\<And>r r'. Q r r' \<Longrightarrow> same_row r r'"
  shows "list_all2 Q (rows_of account sighash w) (rows_of account sighash w')"
  unfolding rows_of_def using assms(1) by (rule list_all2_filter) (auto dest: assms(2) simp: same_row_def)

lemma same_row_idx: "list_all2 same_row xs ys \<Longrightarrow> map sg_idx ys = map sg_idx xs"
  by (induction rule: list_all2_induct) (auto simp: same_row_def)

lemma calm_rows: "calm w w' \<Longrightarrow> list_all2 calm_row (rows_of account sighash w) (rows_of account sighash w')"
  unfolding calm_def by (elim conjE, erule rows_list_all2) (simp add: calm_row_def)

lemma calm_same_row: "list_all2 calm_row xs ys \<Longrightarrow> list_all2 same_row xs ys"
  by (erule list_all2_mono) (simp add: calm_row_def)

interpretation ad: wallet_relation "adds_rows account sighash n" for account sighash n
proof
  show "adds_rows account sighash n w w" for w
    by (rule adds_rowsI [of _ _ "fw_signatures w" "[]"])
      (auto simp: same_session_refl list_all2_refl calm_row_refl)
  show "adds_rows account sighash n w w'" if "calm w w'" for w w'
    by (rule adds_rowsI [of _ _ "fw_signatures w'" "[]"])
      (use that same_row_idx [OF calm_same_row [OF calm_rows [OF that]], of account sighash]
        in \<open>auto simp: calm_def\<close>)
next
  fix u v w assume a: "adds_rows account sighash n u v" and b: "adds_rows account sighash n v w"
  obtain o1 n1 where 1: "fw_signatures v = o1 @ n1" "list_all2 calm_row (fw_signatures u) o1"
    "\<forall>r \<in> set n1. sg_account r = account \<and> sg_sighash r = sighash \<and> sg_idx r < n \<and> sg_share r = None"
    using a by (auto simp: adds_rows_def)
  obtain o2 n2 where 2: "fw_signatures w = o2 @ n2" "list_all2 calm_row (fw_signatures v) o2"
    "\<forall>r \<in> set n2. sg_account r = account \<and> sg_sighash r = sighash \<and> sg_idx r < n \<and> sg_share r = None"
    using b by (auto simp: adds_rows_def)
  obtain x y where xy: "o2 = x @ y" "list_all2 calm_row o1 x" "list_all2 calm_row n1 y"
    using 2(2) unfolding 1(1) by (auto simp: list_all2_append1)
  have "list_all2 calm_row (fw_signatures u) x"
    using list_all2_trans [OF calm_row_trans 1(2) xy(2)] .
  moreover have "\<forall>r \<in> set y. sg_account r = account \<and> sg_sighash r = sighash \<and> sg_idx r < n \<and> sg_share r = None"
    using xy(3) _ 1(3) by (rule list_all2_all) (auto simp: calm_row_def same_row_def)
  moreover have "same_session u v" "same_session v w" using a b by (simp_all add: adds_rows_def)
  then have "same_session u w" by (rule same_session_trans)
  moreover have "distinct (map sg_idx (rows_of account sighash u)) \<Longrightarrow> distinct (map sg_idx (rows_of account sighash w))"
    using a b by (simp add: adds_rows_def)
  moreover have "fw_signatures w = x @ (y @ n2)" using 2(1) xy(1) by simp
  ultimately show "adds_rows account sighash n u w"
    using 2(3) by (intro adds_rowsI [of u w x "y @ n2"]) (assumption, assumption, assumption, auto)
qed

section \<open>The three effects that are not calm\<close>

lemma adds_insert_signature:
  assumes "sg_account row = account" "sg_sighash row = sighash" "sg_idx row < n" "sg_share row = None"
  shows "steps (adds_rows account sighash n) (insert_signature row)"
proof -
  have "adds_rows account sighash n w (w\<lparr> fw_signatures := fw_signatures w @ [row] \<rparr>)"
    if "\<not> list_ex (signature_at account sighash (sg_idx row)) (fw_signatures w)" for w
    by (rule adds_rowsI [of _ _ "fw_signatures w" "[row]"])
      (use that assms in \<open>auto simp: same_session_def rows_of_def list_all2_refl calm_row_refl list_ex_iff
        signature_at_def\<close>)
  then show ?thesis using assms
    by (auto simp: steps_def insert_signature_def ensure_def ad.refl)
qed

lemma calm_insert_new_commitment [intro, simp]: "steps calm (insert_new_commitment row)"
  by (auto simp: steps_def insert_new_commitment_def ensure_def calm_def same_session_def
      list_all2_refl calm_row_refl)

lemma calm_seal_load [intro, simp]:
  "steps calm (load_signing_key a)" "steps calm (load_key_package lib a)" "steps calm (load_pczt_pkg lib)"
  "steps calm (stage_message lib f rs)" "steps calm (check_indices pkg)"
  "steps calm (load_commitments lib a sh k)" "steps calm (load_sigpackages a sh)" "steps calm (load_nonces a sh)"
  unfolding load_signing_key_def load_key_package_def load_pczt_pkg_def stage_message_def check_indices_def
    load_commitments_def load_sigpackages_def load_nonces_def get_prop_def
  by (auto intro!: cl.steps_andthen)

lemma send_commitments_adds:
  "steps (adds_rows (so_account s) (so_sighash s) (so_nsigs s)) (send_commitments lib sv s)"
proof -
  have "steps (adds_rows (so_account s) (so_sighash s) (so_nsigs s)) (commit_input lib s k kp share idx)"
    if "idx \<in> set [0..<so_nsigs s]" for k kp share idx
    using that unfolding commit_input_def
    by (auto split: prod.split intro!: ad.steps_andthen adds_insert_signature
        ad.steps_calm [OF calm_insert_new_commitment])
  then show ?thesis
    unfolding send_commitments_def
    by (auto intro!: ad.steps_andthen ad.steps_publish_in_tx ad.steps_gathered ad.steps_calm [OF calm_seal_load(1)]
        ad.steps_calm [OF calm_seal_load(2)] ad.steps_calm [OF calm_seal_load(4)])
qed

lemma repack_update: "steps (on_rows repack_row) (update_signatures P (\<lambda>r. r\<lparr> sg_package := x, sg_randomizer := y \<rparr>))"
  unfolding update_signatures_def
  by (intro rp.steps_modify)
    (auto simp: on_rows_def same_session_def repack_row_def same_row_def intro: list_all2_update_where)

lemma make_sigpackages_repacks: "steps (on_rows repack_row) (make_sigpackages lib sv s)"
proof -
  have "steps (on_rows repack_row) (part_message lib s k idx r x)" for k idx r x
    unfolding part_message_def by (auto split: prod.split intro!: rp.steps_andthen)
  then have "steps (on_rows repack_row) (package_input lib s k rs x)" for k rs x
    unfolding package_input_def
    by (auto split: prod.split intro!: rp.steps_andthen repack_update rp.steps_gathered)
  then show ?thesis
    unfolding make_sigpackages_def
    by (auto intro!: rp.steps_andthen rp.steps_publish_in_tx rp.steps_gathered rp.steps_calm [OF calm_seal_load(1)]
        rp.steps_calm [OF calm_seal_load(3)] rp.steps_calm [OF calm_seal_load(4)] rp.steps_calm [OF calm_seal_load(5)]
        rp.steps_calm [OF calm_seal_load(6)])
qed

lemma share_update:
  assumes "i < length rs" "i < length pairs" "pairs ! i = (package, nonce)" "sl_sign lib package nonce key (rs ! i) = Some x"
  shows "steps (on_rows (share_row lib account sighash key rs pairs))
    (update_signatures (signature_at account sighash i) (\<lambda>r. r\<lparr> sg_share := Some x \<rparr>))"
  unfolding update_signatures_def using assms
  by (intro sh.steps_modify)
    (auto simp: on_rows_def same_session_def share_row_def same_row_def signature_at_def intro!: list_all2_update_where)

lemma share_input_shares:
  assumes "(i, p) \<in> set (enumerate 0 pairs)"
  shows "steps (on_rows (share_row lib (so_account s) (so_sighash s) key rs pairs))
    (share_input lib s k key rs (i, p))"
proof -
  obtain package nonce where p: "p = (package, nonce)" by fastforce
  have i: "i < length pairs" "pairs ! i = (package, nonce)"
    using assms p by (auto simp: in_set_enumerate_eq)
  show ?thesis
  proof (cases "i < length rs")
    case True
    show ?thesis
    proof (cases "sl_sign lib package nonce key (rs ! i)")
      case None
      then show ?thesis using True p by (auto simp: share_input_def)
    next
      case (Some x)
      then show ?thesis using True p share_update [OF True i Some]
        by (auto simp: share_input_def intro!: sh.steps_andthen)
    qed
  qed (use p in \<open>auto simp: share_input_def\<close>)
qed

lemma reads_andthen:
  assumes "andthen m f w = (res, w')" and "snd (m w) = w"
  shows "w' = w \<or> (\<exists>x. m w = (Inr x, w) \<and> f x w = (res, w'))"
  using assms by (cases "m w") (auto simp: andthen_def split: sum.splits)

lemma reads:
  "snd (the_or e y w) = w" "snd (load_key_package lib a w) = w" "snd (load_nonces a sh w) = w"
  "snd (load_sigpackages a sh w) = w" "snd (load_pczt_pkg lib w) = w"
  by (auto simp: the_or_def load_key_package_def load_nonces_def load_sigpackages_def load_pczt_pkg_def
      get_prop_def andthen_def ensure_def prog_simps split: option.split)

lemma send_sigshares_shares:
  assumes "send_sigshares lib sv s w = (res, w')"
  shows "w' = w \<or> (\<exists>key rs pkg nonces packages.
    load_key_package lib (so_account s) w = (Inr key, w)
    \<and> load_nonces (so_account s) (so_sighash s) w = (Inr nonces, w)
    \<and> load_sigpackages (so_account s) (so_sighash s) w = (Inr packages, w)
    \<and> load_pczt_pkg lib w = (Inr pkg, w) \<and> input_randomizers lib pkg = Some rs
    \<and> on_rows (share_row lib (so_account s) (so_sighash s) key rs (zip (map fst packages) nonces)) w w')"
proof -
  let ?tx = "\<lambda>key nonces packages rs addr. publish_in_tx sv (
         andthen (load_signing_key (so_account s)) (\<lambda>signing_key.
         andthen (gather (share_input lib s signing_key key rs)
             (enumerate 0 (zip (map fst packages) nonces))) (\<lambda>msgs.
           if is_coordinator s then ret None
           else stage_message lib (so_funding s) (map (Pair addr) msgs))))"
  have "steps (on_rows (share_row lib (so_account s) (so_sighash s) key rs (zip (map fst packages) nonces)))
      (?tx key nonces packages rs addr)" for key nonces packages rs addr
    by (intro sh.steps_publish_in_tx sh.steps_andthen sh.steps_gathered)
      (auto intro: sh.steps_calm [OF calm_seal_load(1)] sh.steps_calm [OF calm_seal_load(4)]
        intro!: share_input_shares)
  note tx = this [THEN stepsD]
  show ?thesis
    using assms unfolding send_sigshares_def
    by (elim disjE exE conjE reads_andthen [elim_format])
      (auto simp: reads dest: tx)
qed

end
