(* ===== verification/Sign_Pass.thy ===== *)
theory Sign_Pass
  imports Sign_Safety
begin

text \<open>
  The invariant of a signing session and what a pass keeps of it, whatever the server answers,
  whatever memos arrive and wherever the pass ends.
\<close>

section \<open>The invariant\<close>

text \<open>A share is the signature of the row's package under the row's nonce and our randomizer.\<close>

definition signed_with :: "sign_lib \<Rightarrow> pczt_package \<Rightarrow> blob option \<Rightarrow> signature_row \<Rightarrow> bool" where
  "signed_with lib pkg key r =
     (sg_share r \<noteq> None \<longrightarrow>
       (\<exists>k rs package. key = Some k \<and> input_randomizers lib pkg = Some rs \<and> sg_idx r < length rs
          \<and> sg_package r = Some package \<and> sl_sign lib package (sg_nonce r) k (rs ! sg_idx r) = sg_share r))"

definition key_of :: "u32 \<Rightarrow> frost_wallet \<Rightarrow> blob option" where
  "key_of account w = ds_key_pkg (state_of account w)"

definition sign_inv :: "sign_lib \<Rightarrow> frost_wallet \<Rightarrow> bool" where
  "sign_inv lib w =
     (case session_of lib w of
        None \<Rightarrow> True
      | Some (params, pkg, sighash) \<Rightarrow>
          let rows = rows_of (fs_account params) sighash w
          in distinct (map sg_idx rows)
             \<and> (\<forall>r \<in> set rows. sg_idx r < inputs_of pkg \<and> signed_with lib pkg (key_of (fs_account params) w) r)
             \<and> ((\<exists>r \<in> set rows. sg_share r \<noteq> None) \<longrightarrow>
                  inputs_of pkg \<le> packaged (fs_account params) sighash w))"

definition kept_row :: "signature_row \<Rightarrow> signature_row \<Rightarrow> bool" where
  "kept_row r r' = (same_row r r'
     \<and> (sg_share r \<noteq> None \<longrightarrow> sg_share r' = sg_share r \<and> sg_package r' = sg_package r))"

definition nonces_kept :: "sign_lib \<Rightarrow> frost_wallet \<Rightarrow> frost_wallet \<Rightarrow> bool" where
  "nonces_kept lib w w' = (session_of lib w' = None \<or> (session_of lib w' = session_of lib w
     \<and> (\<forall>params pkg sighash. session_of lib w = Some (params, pkg, sighash) \<longrightarrow>
          (\<forall>r \<in> set (rows_of (fs_account params) sighash w).
             \<exists>r' \<in> set (rows_of (fs_account params) sighash w'). kept_row r r'))))"

definition safe :: "sign_lib \<Rightarrow> frost_wallet \<Rightarrow> frost_wallet \<Rightarrow> bool" where
  "safe lib w w' = ((session_of lib w = None \<longrightarrow> session_of lib w' = None)
     \<and> (sign_inv lib w \<longrightarrow> sign_inv lib w' \<and> nonces_kept lib w w'))"

lemma kept_row_refl: "kept_row r r"
  by (simp add: kept_row_def same_row_def)

lemma kept_row_trans: "kept_row a b \<Longrightarrow> kept_row b c \<Longrightarrow> kept_row a c"
  by (auto simp: kept_row_def same_row_def)

lemma nonces_kept_trans:
  assumes "nonces_kept lib u v" "nonces_kept lib v w" "session_of lib v = None \<longrightarrow> session_of lib w = None"
  shows "nonces_kept lib u w"
proof (cases "session_of lib w = None")
  case False
  then have s: "session_of lib v = session_of lib u" "session_of lib w = session_of lib v"
    using assms by (auto simp: nonces_kept_def)
  have "\<exists>r'' \<in> set (rows_of (fs_account params) sighash w). kept_row r r''"
    if h: "session_of lib u = Some (params, pkg, sighash)" "r \<in> set (rows_of (fs_account params) sighash u)"
    for params pkg sighash r
  proof -
    obtain r' where r': "r' \<in> set (rows_of (fs_account params) sighash v)" "kept_row r r'"
      using assms(1) False s h unfolding nonces_kept_def by metis
    moreover obtain r'' where "r'' \<in> set (rows_of (fs_account params) sighash w)" "kept_row r' r''"
      using assms(2) False s h(1) r'(1) unfolding nonces_kept_def by metis
    ultimately show ?thesis using kept_row_trans by blast
  qed
  then show ?thesis using s by (simp add: nonces_kept_def)
qed (simp add: nonces_kept_def)

interpretation sf: two_state "safe lib" for lib
proof
  show "safe lib w w" for w by (auto simp: safe_def nonces_kept_def intro: kept_row_refl)
  show "safe lib u w" if "safe lib u v" "safe lib v w" for u v w
    using that nonces_kept_trans [of lib u v w] by (simp add: safe_def)
qed

section \<open>How a step is safe\<close>

lemma kept_list: "list_all2 kept_row xs ys \<Longrightarrow> r \<in> set xs \<Longrightarrow> \<exists>r' \<in> set ys. kept_row r r'"
  by (induction rule: list_all2_induct) auto

lemma key_of_same: "same_session w w' \<Longrightarrow> key_of a w' = key_of a w"
  by (simp add: same_session_def key_of_def state_of_def)

text \<open>The rows stay, and the shares, old or new, are made of their rows.\<close>

lemma safeI:
  assumes "same_session w w'"
    and "\<And>params pkg sighash. session_of lib w = Some (params, pkg, sighash) \<Longrightarrow> sign_inv lib w \<Longrightarrow>
      list_all2 kept_row (rows_of (fs_account params) sighash w) (rows_of (fs_account params) sighash w')
      \<and> (\<forall>r \<in> set (rows_of (fs_account params) sighash w'). signed_with lib pkg (key_of (fs_account params) w) r)
      \<and> ((\<exists>r \<in> set (rows_of (fs_account params) sighash w'). sg_share r \<noteq> None) \<longrightarrow>
           inputs_of pkg \<le> packaged (fs_account params) sighash w')"
  shows "safe lib w w'"
proof -
  note s = session_of_same [OF assms(1), of lib]
  show ?thesis
  proof (cases "session_of lib w")
    case None
    then show ?thesis using s by (simp add: safe_def sign_inv_def nonces_kept_def)
  next
    case (Some x)
    obtain params pkg sighash where x: "x = (params, pkg, sighash)" by (cases x) auto
    have "sign_inv lib w' \<and> nonces_kept lib w w'" if i: "sign_inv lib w"
    proof -
      let ?rows = "rows_of (fs_account params) sighash"
      note h = assms(2) [OF Some [unfolded x] i]
      then have "list_all2 same_row (?rows w) (?rows w')"
        by (auto elim!: list_all2_mono simp: kept_row_def)
      then have idx: "map sg_idx (?rows w') = map sg_idx (?rows w)" by (rule same_row_idx)
      then have img: "sg_idx ` set (?rows w') = sg_idx ` set (?rows w)" by (metis set_map)
      have "sg_idx ` set (?rows w) \<subseteq> {..<inputs_of pkg}"
        using i Some x by (auto simp: sign_inv_def Let_def)
      then have "\<forall>r \<in> set (?rows w'). sg_idx r < inputs_of pkg"
        unfolding img [symmetric] by auto
      then have "sign_inv lib w'"
        using h i idx Some x s key_of_same [OF assms(1)] by (auto simp: sign_inv_def Let_def)
      moreover have "nonces_kept lib w w'"
        using h Some x s by (auto simp: nonces_kept_def intro: kept_list)
      ultimately show ?thesis by blast
    qed
    then show ?thesis using s by (simp add: safe_def)
  qed
qed

lemma packaged_mono:
  assumes "list_all2 Q (rows_of a sh w) (rows_of a sh w')"
    and "\<And>r r'. Q r r' \<Longrightarrow> sg_package r \<noteq> None \<Longrightarrow> sg_package r' = sg_package r"
  shows "packaged a sh w \<le> packaged a sh w'"
  unfolding packaged_def using assms(1) by (induction rule: list_all2_induct) (use assms(2) in force)+

lemma calm_safe: "calm w w' \<Longrightarrow> safe lib w w'"
proof (rule safeI)
  assume c: "calm w w'"
  then show "same_session w w'" by (simp add: calm_def)
  fix params pkg sighash assume s: "session_of lib w = Some (params, pkg, sighash)" and i: "sign_inv lib w"
  let ?rows = "rows_of (fs_account params) sighash"
  have l: "list_all2 calm_row (?rows w) (?rows w')" using c by (rule calm_rows)
  have "packaged (fs_account params) sighash w \<le> packaged (fs_account params) sighash w'"
    using l by (rule packaged_mono) (auto simp: calm_row_def)
  moreover have inv: "\<forall>r \<in> set (?rows w). signed_with lib pkg (key_of (fs_account params) w) r"
    "(\<exists>r \<in> set (?rows w). sg_share r \<noteq> None) \<longrightarrow> inputs_of pkg \<le> packaged (fs_account params) sighash w"
    using i s by (auto simp: sign_inv_def Let_def)
  moreover have "\<forall>r \<in> set (?rows w'). signed_with lib pkg (key_of (fs_account params) w) r"
    using l _ inv(1) by (rule list_all2_all) (auto simp: calm_row_def same_row_def signed_with_def)
  moreover have "\<exists>r \<in> set (?rows w). sg_share r \<noteq> None" if "\<exists>r \<in> set (?rows w'). sg_share r \<noteq> None"
  proof (rule ccontr)
    assume n: "\<not> ?thesis"
    have "\<forall>r \<in> set (?rows w'). sg_share r = None"
      using l by (rule list_all2_all) (use n in \<open>auto simp: calm_row_def\<close>)
    with that show False by (meson)
  qed
  moreover have "list_all2 (\<lambda>r r'. calm_row r r' \<and> r \<in> set (?rows w)) (?rows w) (?rows w')"
    using l by (auto simp: list_all2_conv_all_nth)
  then have "list_all2 kept_row (?rows w) (?rows w')"
    by (rule list_all2_mono) (use inv(1) in \<open>auto simp: calm_row_def kept_row_def signed_with_def\<close>)
  ultimately show "list_all2 kept_row (?rows w) (?rows w')
      \<and> (\<forall>r \<in> set (?rows w'). signed_with lib pkg (key_of (fs_account params) w) r)
      \<and> ((\<exists>r \<in> set (?rows w'). sg_share r \<noteq> None) \<longrightarrow> inputs_of pkg \<le> packaged (fs_account params) sighash w')"
    by (auto intro: order_trans)
qed

text \<open>Repacking is safe while no share is made.\<close>

lemma repack_safe:
  assumes r: "on_rows repack_row w w'"
    and none: "\<And>params pkg sighash r. session_of lib w = Some (params, pkg, sighash) \<Longrightarrow> sign_inv lib w \<Longrightarrow>
      r \<in> set (rows_of (fs_account params) sighash w) \<Longrightarrow> sg_share r = None"
  shows "safe lib w w'"
proof (rule safeI)
  show "same_session w w'" using r by (simp add: on_rows_def)
  fix params pkg sighash assume s: "session_of lib w = Some (params, pkg, sighash)" and i: "sign_inv lib w"
  let ?rows = "rows_of (fs_account params) sighash"
  have l: "list_all2 repack_row (?rows w) (?rows w')"
    by (rule rows_list_all2) (use r in \<open>auto simp: on_rows_def repack_row_def\<close>)
  have n: "\<forall>r \<in> set (?rows w). sg_share r = None" using none [OF s i] by blast
  have "\<forall>r \<in> set (?rows w'). sg_share r = None"
    using l _ n by (rule list_all2_all) (simp add: repack_row_def)
  moreover have "list_all2 (\<lambda>r r'. repack_row r r' \<and> r \<in> set (?rows w)) (?rows w) (?rows w')"
    using l by (auto simp: list_all2_conv_all_nth)
  then have "list_all2 kept_row (?rows w) (?rows w')"
    by (rule list_all2_mono) (use n in \<open>auto simp: repack_row_def kept_row_def\<close>)
  ultimately show "list_all2 kept_row (?rows w) (?rows w')
      \<and> (\<forall>r \<in> set (?rows w'). signed_with lib pkg (key_of (fs_account params) w) r)
      \<and> ((\<exists>r \<in> set (?rows w'). sg_share r \<noteq> None) \<longrightarrow> inputs_of pkg \<le> packaged (fs_account params) sighash w')"
    by (auto simp: signed_with_def)
qed

text \<open>Adding rows is safe, because they have no share.\<close>

lemma adds_safe:
  assumes a: "adds_rows account sighash n w w'"
    and s: "session_of lib w = Some (params, pkg, sighash)" "account = fs_account params" "n = inputs_of pkg"
  shows "safe lib w w'"
proof -
  let ?rows = "rows_of account sighash"
  obtain old new where h: "same_session w w'" "fw_signatures w' = old @ new"
    "list_all2 calm_row (fw_signatures w) old"
    "\<forall>r \<in> set new. sg_account r = account \<and> sg_sighash r = sighash \<and> sg_idx r < n \<and> sg_share r = None"
    "distinct (map sg_idx (?rows w)) \<longrightarrow> distinct (map sg_idx (?rows w'))"
    using a by (auto simp: adds_rows_def)
  let ?v = "w'\<lparr> fw_signatures := old \<rparr>"
  have "calm w ?v" using h(1,3) by (simp add: calm_def same_session_def)
  then have v: "safe lib w ?v" by (rule calm_safe)
  have sv: "session_of lib ?v = Some (params, pkg, sighash)" "session_of lib w' = Some (params, pkg, sighash)"
    using s session_of_same [OF h(1), of lib] by (auto simp: session_of_def)
  have rows: "?rows w' = ?rows ?v @ new" using h(2,4) by (auto simp: rows_of_def)
  have "key_of account ?v = key_of account w'" by (simp add: key_of_def state_of_def)
  then have "sign_inv lib w' \<and> nonces_kept lib w w'" if "sign_inv lib w"
    using that v sv s h(4,5) rows
    by (auto simp: safe_def sign_inv_def nonces_kept_def Let_def signed_with_def packaged_def)
  then show ?thesis using sv s by (simp add: safe_def)
qed

section \<open>Shares\<close>

lemma nonces_of_rows: "load_nonces a sh w = (Inr ns, w') \<Longrightarrow> ns = map sg_nonce (signatures_of a sh w)"
  by (auto simp: load_nonces_def)

lemma those_Some: "those xs = Some ys \<Longrightarrow> xs = map Some ys"
  by (induction xs arbitrary: ys) (auto split: option.splits)

text \<open>When every input has its package, the pairs are those of the rows, input by input.\<close>

lemma aligned:
  assumes "distinct (map sg_idx (rows_of a sh w))" and "\<forall>r \<in> set (rows_of a sh w). sg_idx r < n"
    and "n \<le> packaged a sh w"
    and "load_nonces a sh w = (Inr ns, w)" and "load_sigpackages a sh w = (Inr ps, w)"
    and "r \<in> set (rows_of a sh w)"
  shows "sg_idx r < length (zip (map fst ps) ns) \<and> Some (fst (zip (map fst ps) ns ! sg_idx r)) = sg_package r
    \<and> snd (zip (map fst ps) ns ! sg_idx r) = sg_nonce r"
proof -
  let ?rows = "signatures_of a sh w"
  have idx: "sorted (map sg_idx ?rows)" "distinct (map sg_idx ?rows)" "set (map sg_idx ?rows) \<subseteq> {0..<n}"
    using assms(1,2) by (auto simp: signatures_of_def rows_of_def distinct_map)
  have len: "length ?rows \<le> n" using idx(2,3) by (metis card_atLeastLessThan card_mono diff_zero distinct_card
        finite_atLeastLessThan length_map)
  have pk: "length (filter (\<lambda>r. sg_package r \<noteq> None) ?rows) = packaged a sh w"
    by (rule packaged_signatures_of)
  then have all: "filter (\<lambda>r. sg_package r \<noteq> None) ?rows = ?rows" and n: "length ?rows = n"
    using assms(3) len length_filter_le [of "\<lambda>r. sg_package r \<noteq> None" ?rows]
    by (metis filter_True le_antisym length_filter_less not_le order_trans, linarith)
  have "map sg_idx ?rows = [0..<n]"
    using idx n by (metis card_atLeastLessThan card_subset_eq diff_zero distinct_card finite_atLeastLessThan
        length_map set_upt sorted_distinct_set_unique sorted_upt distinct_upt)
  then have at: "sg_idx (?rows ! i) = i" if "i < n" for i using that n by (metis nth_map nth_upt add_0 diff_zero length_upt)
  obtain i where i: "i < n" "r = ?rows ! i"
    using assms(6) n set_signatures_of [of a sh w] by (metis in_set_conv_nth)
  have ps: "map (\<lambda>r. map_option (Pair (the (sg_package r))) (sg_randomizer r)) ?rows = map Some ps"
    using assms(5) all by (auto simp: load_sigpackages_def dest!: those_Some)
  then have lp: "length ps = n" using n by (metis length_map)
  have "map_option (Pair (the (sg_package r))) (sg_randomizer r) = Some (ps ! i)"
    using arg_cong [OF ps, of "\<lambda>xs. xs ! i"] i n lp by simp
  then have "fst (ps ! i) = the (sg_package r)" by (auto simp: prod_eq_iff)
  moreover have "sg_package r \<noteq> None" using all i n by (metis (mono_tags, lifting) filter_id_conv nth_mem)
  moreover have "ns = map sg_nonce ?rows" using assms(4) by (rule nonces_of_rows)
  ultimately show ?thesis using i at lp n by auto
qed

lemma session_package:
  "session_of lib w = Some (params, pkg, sighash) \<Longrightarrow> load_pczt_pkg lib w = (Inr pkg', w') \<Longrightarrow> pkg' = pkg"
  by (auto simp: session_of_def load_pczt_pkg_def get_prop_def andthen_Inr bind_eq_Some_conv)

lemma shares_safe:
  assumes h: "on_rows (share_row lib account sighash key rs (zip (map fst packages) nonces)) w w'"
    and s: "session_of lib w = Some (params, pkg, sighash)" "account = fs_account params"
    and k: "key_of account w = Some key" "input_randomizers lib pkg = Some rs"
    and l: "load_nonces account sighash w = (Inr nonces, w)" "load_sigpackages account sighash w = (Inr packages, w)"
    and all: "inputs_of pkg \<le> packaged account sighash w"
    and none: "\<forall>r \<in> set (rows_of account sighash w). sg_share r = None"
  shows "safe lib w w'"
proof (rule safeI)
  show "same_session w w'" using h by (simp add: on_rows_def)
  fix params' pkg' sighash' assume s': "session_of lib w = Some (params', pkg', sighash')" and i: "sign_inv lib w"
  let ?rows = "rows_of account sighash" and ?pairs = "zip (map fst packages) nonces"
  have same: "params' = params" "pkg' = pkg" "sighash' = sighash" using s' s by auto
  have sr: "list_all2 (share_row lib account sighash key rs ?pairs) (?rows w) (?rows w')"
    by (rule rows_list_all2) (use h in \<open>auto simp: on_rows_def share_row_def\<close>)
  have inv: "distinct (map sg_idx (?rows w))" "\<forall>r \<in> set (?rows w). sg_idx r < inputs_of pkg"
    using i s by (auto simp: sign_inv_def Let_def)
  have al: "Some (fst (?pairs ! sg_idx r)) = sg_package r" "snd (?pairs ! sg_idx r) = sg_nonce r"
    if "r \<in> set (?rows w)" for r
    using aligned [OF inv all l that] by auto
  have "list_all2 (\<lambda>r r'. kept_row r r' \<and> signed_with lib pkg (key_of account w) r') (?rows w) (?rows w')"
  proof -
    have "list_all2 (\<lambda>r r'. share_row lib account sighash key rs ?pairs r r' \<and> r \<in> set (?rows w)) (?rows w) (?rows w')"
      using sr by (auto simp: list_all2_conv_all_nth)
    then show ?thesis
    proof (rule list_all2_mono)
      fix r r' assume a: "share_row lib account sighash key rs ?pairs r r' \<and> r \<in> set (?rows w)"
      then have n: "sg_share r = None" and pk: "Some (fst (?pairs ! sg_idx r)) = sg_package r"
        and no: "snd (?pairs ! sg_idx r) = sg_nonce r" using none al by auto
      have p': "sg_package r' = sg_package r" "same_row r r'" using a pk by (auto simp: share_row_def)
      have "signed_with lib pkg (key_of account w) r'"
        unfolding signed_with_def
      proof
        assume "sg_share r' \<noteq> None"
        then have "sg_idx r < length rs"
          "sl_sign lib (fst (?pairs ! sg_idx r)) (snd (?pairs ! sg_idx r)) key (rs ! sg_idx r) = sg_share r'"
          using a n by (auto simp: share_row_def)
        then show "\<exists>k rs package. key_of account w = Some k \<and> input_randomizers lib pkg = Some rs
            \<and> sg_idx r' < length rs \<and> sg_package r' = Some package
            \<and> sl_sign lib package (sg_nonce r') k (rs ! sg_idx r') = sg_share r'"
          using k pk [symmetric] no p' by (auto simp: same_row_def)
      qed
      then show "kept_row r r' \<and> signed_with lib pkg (key_of account w) r'"
        using n p' by (simp add: kept_row_def)
    qed
  qed
  then have q: "list_all2 kept_row (?rows w) (?rows w')"
    "\<forall>r' \<in> set (?rows w'). signed_with lib pkg (key_of account w) r'"
    by (auto simp: list_all2_conv_all_nth in_set_conv_nth)
  moreover have "packaged account sighash w \<le> packaged account sighash w'"
    using sr by (rule packaged_mono) (auto simp: share_row_def)
  ultimately show "list_all2 kept_row (rows_of (fs_account params') sighash' w) (rows_of (fs_account params') sighash' w')
      \<and> (\<forall>r \<in> set (rows_of (fs_account params') sighash' w'). signed_with lib pkg' (key_of (fs_account params') w) r)
      \<and> ((\<exists>r \<in> set (rows_of (fs_account params') sighash' w'). sg_share r \<noteq> None) \<longrightarrow>
           inputs_of pkg' \<le> packaged (fs_account params') sighash' w')"
    using same s(2) all by auto
qed

section \<open>The tasks\<close>

interpretation sw: wallet_relation "safe lib" for lib
  by unfold_locales (rule calm_safe)

definition same_props :: "frost_wallet \<Rightarrow> frost_wallet \<Rightarrow> bool" where
  "same_props w w' = (fw_props w' = fw_props w)"

interpretation spr: two_state same_props
  by unfold_locales (auto simp: same_props_def)

lemma deleted_session: "session_of lib (snd (delete_frost_state w)) = None"
proof -
  have "steps same_props (for_each delete_account xs)" for xs
    by (intro spr.steps_for_each) (auto simp: delete_account_def same_props_def intro!: spr.steps_modify)
  then have keep: "fw_props (snd (for_each delete_account xs v)) = fw_props v" for xs v
    by (simp add: steps_def same_props_def)
  have "like_prefix ''frost_'' ''frost_pczt''" by code_simp
  then have "fw_props (snd (delete_frost_state w)) ''frost_pczt'' = None"
    by (simp add: delete_frost_state_def delete_props_like_def keep)
  then show ?thesis by (auto simp: session_of_def bind_eq_None_conv split: option.split)
qed

lemma safe_delete [intro, simp]: "steps (safe lib) delete_frost_state"
  unfolding steps_def safe_def using deleted_session by (simp add: sign_inv_def nonces_kept_def)

lemma silent_ensure_mailbox: "steps silent (ensure_mailbox lib s)"
proof -
  have "steps silent (ensure_mailbox_from_seed lib a)" for a
    unfolding ensure_mailbox_from_seed_def get_dkg_params_def mailbox_address_def
    by (auto split: option.split intro!: sl.steps_andthen sl.steps_atomic silent_set_params simp: participant_def)
  moreover have "steps silent (ensure_broadcast_account_from_sk lib sk)" for sk
    unfolding ensure_broadcast_account_from_sk_def by (auto split: option.split intro!: sl.steps_andthen)
  ultimately show ?thesis
    unfolding ensure_mailbox_def session_broadcast_sk_def by (auto intro!: sl.steps_andthen)
qed

lemma calm_announce: "steps calm (announce_coordinator lib sv s)"
  unfolding announce_coordinator_def
  by (auto intro!: cl.steps_andthen cw.steps_publish_in_tx steps_silent_calm [OF silent_prims(1)]
      steps_silent_calm [OF silent_ensure_mailbox])

lemma calm_own_publish: "steps calm (sign_own_publish lib sv s height)"
proof -
  have "steps calm (resend_publish sv SIGN_LAST_TXID_PROP)"
    unfolding resend_publish_def get_prop_def by (auto split: option.split intro!: cl.steps_andthen)
  moreover have "steps calm (publish_expired l SIGN_LAST_TXID_PROP a h)" for l a h
    unfolding publish_expired_def get_prop_def by (auto split: option.split intro!: cl.steps_andthen)
  ultimately show ?thesis unfolding sign_own_publish_def by (auto intro!: cl.steps_andthen)
qed

lemma safe_aggregate: "steps (safe lib) (aggregate_and_send lib sv s)"
proof -
  have sg: "steps calm (signer_share lib a k x)" for a k x
    unfolding signer_share_def by (auto split: option.split intro!: cl.steps_andthen)
  have ss: "steps calm (signer_shares lib a k xs)" for a k xs
  proof (induction xs)
    case (Cons x xs)
    then show ?case
      unfolding signer_shares.simps by (auto split: option.split intro!: cl.steps_andthen sg)
  qed (simp only: signer_shares.simps cl.steps_pure)
  have rb: "steps calm (rebuild_pubkey_package lib a xs)" for a xs
    unfolding rebuild_pubkey_package_def by (auto split: option.split intro!: cl.steps_andthen ss)
  have lp: "steps calm (load_pubkey_package lib a)" for a
    unfolding load_pubkey_package_def by (auto split: option.split intro!: cl.steps_andthen)
  have la: "steps calm (load_all_sigshares lib a sh n)" for a sh n
    unfolding load_all_sigshares_def by (auto intro!: cl.steps_andthen)
  have ai: "steps calm (aggregate_input lib s ppkg x)" for ppkg x
    unfolding aggregate_input_def
    by (auto split: prod.split intro!: cl.steps_andthen calm_update_signatures simp: calm_row_def same_row_def)
  have ag: "steps calm (atomic (gather (aggregate_input lib s ppkg) xs))" for ppkg xs
    by (intro cl.steps_atomic cw.steps_gathered ai)
  have bf: "steps calm (broadcast_frost l sv a b)" for l a b
    by (auto simp: steps_def broadcast_frost_def Let_def split: prod.split intro!: calm_same)
  show ?thesis
    unfolding aggregate_and_send_def
    by (auto split: option.split prod.split intro!: sf.steps_andthen sw.steps_calm [OF ag] sw.steps_calm [OF la]
        sw.steps_calm [OF rb] sw.steps_calm [OF lp] sw.steps_calm [OF bf] sw.steps_calm [OF calm_seal_load(7)]
        sw.steps_calm [OF calm_seal_load(3)] sw.steps_calm [OF calm_seal_load(5)])
qed

lemma meanwhile_calm: "log_only env \<Longrightarrow> calm w (pe_meanwhile env w)"
proof -
  assume "log_only env"
  then obtain db where "pe_meanwhile env w = w\<lparr> fw_log := db \<rparr>" by (auto simp: log_only_def)
  then show ?thesis by (simp add: calm_same)
qed

lemma after_send_state: "andthen m (after_send t executed) w = (res, w') \<Longrightarrow> \<exists>r. m w = (r, w')"
  by (auto simp: andthen_def after_send_def split: prod.splits sum.splits send_result.splits)

lemma rows_bounded:
  assumes "session_of lib w = Some (params, pkg, sighash)" and "sign_inv lib w"
  shows "packaged (fs_account params) sighash w mod 2 ^ 32 = packaged (fs_account params) sighash w"
proof -
  let ?rows = "rows_of (fs_account params) sighash w"
  have "distinct (map sg_idx ?rows)" "set (map sg_idx ?rows) \<subseteq> {..<inputs_of pkg}"
    using assms by (auto simp: sign_inv_def Let_def)
  then have "length ?rows \<le> inputs_of pkg"
    by (metis card_lessThan card_mono distinct_card finite_lessThan length_map)
  moreover have "packaged (fs_account params) sighash w \<le> length ?rows" by (simp add: packaged_def)
  moreover have "inputs_of pkg < 2 ^ 32" by (simp add: inputs_of_def)
  ultimately show ?thesis by (simp only: mod_less)
qed

lemma run_sign_task_safe:
  assumes o1: "observe_sign lib w = (Inr (Some s), w1)" and t: "next_sign_task s = Inr task"
    and q: "calm w1 w3" and o2: "observe_sign lib w3 = (Inr (Some fresh), w4)"
    and ok: "sign_satisfied task fresh"
    and run: "run_sign_task lib sv task fresh executed w4 = (res, w')"
  shows "safe lib w1 w'"
proof -
  have c1: "calm w w1" using calm_observe_sign o1 by (rule stepsD)
  have c34: "calm w3 w4" using calm_observe_sign o2 by (rule stepsD)
  have c14: "calm w1 w4" using q c34 by (rule cl.trans)
  obtain params pkg sighash where s: "session_of lib w = Some (params, pkg, sighash)"
    and ns: "so_nsigs s = inputs_of pkg" "so_packages s = packaged (fs_account params) sighash w1 mod 2 ^ 32"
    using o1 by (rule observe_sign_ok)
  have sess: "session_of lib w3 = Some (params, pkg, sighash)" "session_of lib w4 = Some (params, pkg, sighash)"
    using s calm_session c1 q c34 by metis+
  have f: "so_account fresh = fs_account params" "so_sighash fresh = sighash" "so_nsigs fresh = inputs_of pkg"
    "so_packages fresh = packaged (fs_account params) sighash w4 mod 2 ^ 32"
    "so_own_shares fresh = (\<exists>r \<in> set (rows_of (fs_account params) sighash w4). sg_share r \<noteq> None)"
    using o2 by (rule observe_sign_ok; use sess in simp)+
  have step: ?thesis if "safe lib w4 w'" using calm_safe [OF c14] that sf.trans by blast
  show ?thesis
  proof (cases task)
    case EnsureMailbox
    have "steps calm (run_sign_task lib sv EnsureMailbox fresh executed)"
      by (auto simp: run_sign_task_def intro!: cl.steps_andthen steps_silent_calm [OF silent_ensure_mailbox])
    then show ?thesis using run EnsureMailbox by (intro step calm_safe) (metis stepsD)
  next
    case AnnounceCoordinator
    then obtain r where "announce_coordinator lib sv fresh w4 = (r, w')"
      using run by (auto simp: run_sign_task_def dest: after_send_state)
    then show ?thesis by (intro step calm_safe stepsD [OF calm_announce])
  next
    case SendCommitments
    then obtain r where "send_commitments lib sv fresh w4 = (r, w')"
      using run by (auto simp: run_sign_task_def dest: after_send_state)
    then have "adds_rows (fs_account params) sighash (inputs_of pkg) w4 w'"
      using stepsD [OF send_commitments_adds] f by metis
    then show ?thesis by (intro step adds_safe [OF _ sess(2)]) auto
  next
    case MakeSigpackages
    then obtain r where "make_sigpackages lib sv fresh w4 = (r, w')"
      using run by (auto simp: run_sign_task_def dest: after_send_state)
    then have rp: "on_rows repack_row w4 w'" by (rule stepsD [OF make_sigpackages_repacks])
    have less: "packaged (fs_account params) sighash w4 mod 2 ^ 32 < inputs_of pkg"
      using ok MakeSigpackages f by simp
    have "sg_share r = None" if "sign_inv lib w4" "r \<in> set (rows_of (fs_account params) sighash w4)" for r
    proof (rule ccontr)
      assume "sg_share r \<noteq> None"
      then have "inputs_of pkg \<le> packaged (fs_account params) sighash w4"
        using that sess(2) by (auto simp: sign_inv_def Let_def)
      then show False using less rows_bounded [OF sess(2) that(1)] by simp
    qed
    then show ?thesis using rp sess(2) by (intro step repack_safe) auto
  next
    case SendSigshares
    then obtain r where "send_sigshares lib sv fresh w4 = (r, w')"
      using run by (auto simp: run_sign_task_def dest: after_send_state)
    from send_sigshares_shares [OF this] show ?thesis
    proof (elim disjE exE conjE)
      assume "w' = w4"
      then show ?thesis using step sf.refl by blast
    next
      fix key rs pkg' nonces packages
      assume l: "load_key_package lib (so_account fresh) w4 = (Inr key, w4)"
        "load_nonces (so_account fresh) (so_sighash fresh) w4 = (Inr nonces, w4)"
        "load_sigpackages (so_account fresh) (so_sighash fresh) w4 = (Inr packages, w4)"
        "load_pczt_pkg lib w4 = (Inr pkg', w4)" "input_randomizers lib pkg' = Some rs"
        and h: "on_rows (share_row lib (so_account fresh) (so_sighash fresh) key rs (zip (map fst packages) nonces)) w4 w'"
      have "inputs_of pkg \<le> packaged (fs_account params) sighash w1"
        using shares_planned [OF t] SendSigshares ns by (auto intro: order_trans mod_less_eq_dividend)
      also have "\<dots> \<le> packaged (fs_account params) sighash w4"
        using calm_rows [OF c14] by (rule packaged_mono) (auto simp: calm_row_def)
      finally have all: "inputs_of pkg \<le> packaged (fs_account params) sighash w4" .
      have "key_of (fs_account params) w4 = Some key"
        using l(1) f by (auto simp: load_key_package_def andthen_Inr key_of_def)
      moreover have "input_randomizers lib pkg = Some rs" using l(4,5) session_package [OF sess(2)] by blast
      moreover have "\<forall>r \<in> set (rows_of (fs_account params) sighash w4). sg_share r = None"
        using ok SendSigshares f(5) by auto
      ultimately show ?thesis
        using h l(2,3) f all by (intro step shares_safe [OF _ sess(2) refl]) auto
    qed
  next
    case Aggregate
    have "steps (safe lib) (run_sign_task lib sv Aggregate fresh executed)"
      by (auto simp: run_sign_task_def intro!: sf.steps_andthen safe_aggregate)
    then show ?thesis using run Aggregate by (intro step) (metis stepsD)
  next
    case SignDone
    have "steps (safe lib) (run_sign_task lib sv SignDone fresh executed)"
      by (auto simp: run_sign_task_def intro!: sf.steps_andthen)
    then show ?thesis using run SignDone by (intro step) (metis stepsD)
  qed (use run in \<open>auto simp: run_sign_task_def intro!: step sf.refl\<close>)
qed

end
