(* ===== verification/Sign_Step.thy ===== *)
theory Sign_Step
  imports Sign_Pass
begin

text \<open>
  The ways an iteration of a signing pass can go, and what the iterations of a whole pass keep.
\<close>

section \<open>An iteration\<close>

text \<open>A turn that executed nothing: it replans, or ends the pass waiting.\<close>

fun idle_turn :: "sign_task list \<Rightarrow> frost_error + sign_turn \<Rightarrow> bool" where
  "idle_turn executed (Inr (SignRan t)) = False"
| "idle_turn executed (Inr (SignStopped (Some out))) =
     (sn_txid out = None \<and> (\<exists>t. sign_kind t \<noteq> EffectTask \<and> sn_executed out = executed @ [t]))"
| "idle_turn executed _ = True"

lemma meanwhile_silent: "log_only env \<Longrightarrow> silent w (pe_meanwhile env w)"
proof -
  assume e: "log_only env"
  then obtain db where "pe_meanwhile env w = w\<lparr> fw_log := db \<rparr>" by (auto simp: log_only_def)
  then show ?thesis using meanwhile_calm [OF e, of w] by (intro silentI) simp_all
qed

lemma andthen_run: "m w = (r, v) \<Longrightarrow> andthen m f w = (case r of Inl e \<Rightarrow> (Inl e, v) | Inr x \<Rightarrow> f x v)"
  by (simp add: andthen_def)

lemma ret_run: "ret x w = (Inr x, w)"
  by (simp add: ret_def)

lemma plan_or_abort_then:
  "andthen (plan_or_abort s) k w =
     (case next_sign_task s of
        Inl e \<Rightarrow> (case delete_frost_state w of (Inl e', v) \<Rightarrow> (Inl e', v) | (Inr _, v) \<Rightarrow> (Inl e, v))
      | Inr task \<Rightarrow> k task w)"
  by (cases "next_sign_task s")
    (simp_all add: plan_or_abort_def andthen_def fail_def ret_def split: prod.split sum.split)

lemma iteration_cases:
  assumes env: "log_only env" and run: "sign_iteration lib height env executed w = (res, w')"
  obtains
    (idle) "silent w w'" "idle_turn executed res"
  | (own) s w1 where "observe_sign lib w = (Inr (Some s), w1)" "next_sign_task s = Inr SignWaitOwnPublish"
      "calm w1 w'" "idle_turn executed res"
  | (abort) s w1 e where "observe_sign lib w = (Inr (Some s), w1)" "next_sign_task s = Inl e"
      "w' = snd (delete_frost_state w1)" "idle_turn executed res"
  | (effect) s w1 task w3 fresh w4 where "observe_sign lib w = (Inr (Some s), w1)"
      "next_sign_task s = Inr task" "sign_kind task = EffectTask" "silent w1 w3"
      "observe_sign lib w3 = (Inr (Some fresh), w4)" "sign_satisfied task fresh"
      "run_sign_task lib (pe_server env) task fresh executed w4 = (res, w')"
proof (cases "observe_sign lib w")
  case (Pair r1 w1)
  have s1: "silent w w1" using Pair by (rule stepsD [OF silent_observe_sign])
  have it: "(res, w') = (case r1 of Inl e \<Rightarrow> (Inl e, w1) | Inr None \<Rightarrow> (Inr (SignStopped None), w1)
      | Inr (Some s) \<Rightarrow> (case next_sign_task s of
          Inl e \<Rightarrow> (case delete_frost_state w1 of (Inl e', v) \<Rightarrow> (Inl e', v) | (Inr _, v) \<Rightarrow> (Inl e, v))
        | Inr task \<Rightarrow> andthen (if task = SignWaitOwnPublish then sign_own_publish lib (pe_server env) s height
              else ret False) (\<lambda>expired.
            if expired then ret SignReplan
            else if sign_kind task \<noteq> EffectTask then
              ret (SignStopped (Some ((sign_end (executed @ [task]))\<lparr> sn_progress := sign_progress task s \<rparr>)))
            else
              andthen (modify (pe_meanwhile env)) (\<lambda>_.
              andthen (observe_sign lib) (\<lambda>again.
                case again of
                  None \<Rightarrow> ret (SignStopped None)
                | Some fresh \<Rightarrow>
                    if \<not> sign_satisfied task fresh then ret SignReplan
                    else if pe_stopping env then ret (SignStopped None)
                    else run_sign_task lib (pe_server env) task fresh executed))) w1))"
    using run Pair
    by (cases r1) (simp_all add: sign_iteration_def andthen_run [of "observe_sign lib" w, OF Pair] plan_or_abort_then ret_run
        split: option.splits)
  consider (e) e where "r1 = Inl e" | (n) "r1 = Inr None" | (s) s where "r1 = Inr (Some s)"
    by (metis option.exhaust sum.exhaust)
  then show thesis
  proof cases
    case (s s)
    have o1: "observe_sign lib w = (Inr (Some s), w1)" using Pair s by simp
    show thesis
    proof (cases "next_sign_task s")
      case (Inl e)
      then show thesis using it s
        by (intro abort [OF o1 Inl]) (auto split: prod.splits sum.splits)
    next
      case (Inr task)
      show thesis
      proof (cases "sign_kind task = EffectTask")
        case False
        show thesis
        proof (cases "task = SignWaitOwnPublish")
          case True
          obtain r v where v: "sign_own_publish lib (pe_server env) s height w1 = (r, v)" by fastforce
          then have "calm w1 v" by (rule stepsD [OF calm_own_publish])
          then show thesis using it s Inr True v
            by (intro own [OF o1 Inr [unfolded True]])
              (auto simp: andthen_def prog_simps sign_end_def split: sum.splits if_splits)
        next
          case w: False
          then show thesis using it s Inr False s1
            by (intro idle) (auto simp: ret_run sign_end_def)
        qed
      next
        case True
        then have k: "task \<noteq> SignWaitOwnPublish" by auto
        let ?w3 = "pe_meanwhile env w1"
        obtain r4 w4 where o2: "observe_sign lib ?w3 = (r4, w4)" by fastforce
        have q: "silent w1 ?w3" "silent ?w3 w4"
          using meanwhile_silent [OF env] stepsD [OF silent_observe_sign o2] by blast+
        have i: ?thesis if "w' = w4" "idle_turn executed res"
          using idle that s1 q sl.trans by metis
        have rest: "(res, w') = (case r4 of Inl e \<Rightarrow> (Inl e, w4) | Inr None \<Rightarrow> (Inr (SignStopped None), w4)
            | Inr (Some fresh) \<Rightarrow>
                (if \<not> sign_satisfied task fresh then ret SignReplan
                 else if pe_stopping env then ret (SignStopped None)
                 else run_sign_task lib (pe_server env) task fresh executed) w4)"
          using it s Inr True k o2 by (auto simp: andthen_def prog_simps split: sum.splits option.splits)
        show thesis
        proof (cases "\<exists>fresh. r4 = Inr (Some fresh) \<and> sign_satisfied task fresh \<and> \<not> pe_stopping env")
          case t: True
          then obtain fresh where f: "r4 = Inr (Some fresh)" "sign_satisfied task fresh" "\<not> pe_stopping env"
            by blast
          then show thesis
            using rest o2 by (intro effect [OF o1 Inr True q(1)]) auto
        next
          case f: False
          then have "w' = w4 \<and> idle_turn executed res"
            using rest by (auto simp: prog_simps split: sum.splits option.splits if_splits)
          then show thesis using i by blast
        qed
      qed
    qed
  qed (use it s1 idle in auto)
qed

section \<open>A pass\<close>

text \<open>
  An invariant relation that every iteration keeps, for as long as \<open>I\<close> holds and every task
  executed satisfies \<open>T\<close>, is kept by the pass, and every task it reports satisfies \<open>T\<close>.
\<close>

lemma pass_induct:
  assumes "two_state R"
    and iter: "\<And>env executed w res w'. env \<in> set envs \<Longrightarrow> I w \<Longrightarrow>
      sign_iteration lib height env executed w = (res, w') \<Longrightarrow> R w w' \<and> I w'
        \<and> (\<forall>t. res = Inr (SignRan t) \<longrightarrow> T t)
        \<and> (\<forall>out. res = Inr (SignStopped (Some out)) \<longrightarrow>
            set (sn_executed out) \<subseteq> set executed \<union> {t. T t} \<and> P out)"
    and "I w" "set executed \<subseteq> {t. T t}" "sign_pass lib height envs executed w = (res, w')"
  shows "R w w' \<and> I w' \<and> (\<forall>out. res = Inr (Some out) \<longrightarrow> set (sn_executed out) \<subseteq> {t. T t} \<and> P out)"
  using iter assms(3-5)
proof (induction envs arbitrary: executed w)
  case Nil
  then show ?case using two_state.refl [OF assms(1)] by (auto simp: prog_simps)
next
  case (Cons env envs)
  obtain t w1 where i: "sign_iteration lib height env executed w = (t, w1)" by fastforce
  have h: "R w w1 \<and> I w1 \<and> (\<forall>u. t = Inr (SignRan u) \<longrightarrow> T u)
      \<and> (\<forall>out. t = Inr (SignStopped (Some out)) \<longrightarrow>
          set (sn_executed out) \<subseteq> set executed \<union> {t. T t} \<and> P out)"
    by (rule Cons.prems(1) [OF _ Cons.prems(2) i]) simp
  have step: "R w1 w' \<and> I w' \<and> (\<forall>out. res = Inr (Some out) \<longrightarrow> set (sn_executed out) \<subseteq> {t. T t} \<and> P out)"
    if "set ex' \<subseteq> {t. T t}" "sign_pass lib height envs ex' w1 = (res, w')" for ex'
    by (rule Cons.IH [OF _ _ that]) (rule Cons.prems(1), simp_all add: h)
  have run: "andthen (sign_iteration lib height env executed) (\<lambda>t. case t of
         SignReplan \<Rightarrow> sign_pass lib height envs executed
       | SignRan task \<Rightarrow> sign_pass lib height envs (executed @ [task])
       | SignStopped out \<Rightarrow> ret out) w = (res, w')" using Cons.prems(4) by simp
  show ?case
  proof (cases t)
    case (Inl e)
    then show ?thesis using run i h by (auto simp: andthen_def)
  next
    case (Inr turn)
    show ?thesis
    proof (cases turn)
      case SignReplan
      then show ?thesis using run i Inr step [OF Cons.prems(3)] h two_state.trans [OF assms(1)]
        by (auto simp: andthen_def)
    next
      case (SignRan task)
      then show ?thesis using run i Inr step [of "executed @ [task]"] h Cons.prems(3) two_state.trans [OF assms(1)]
        by (auto simp: andthen_def)
    next
      case (SignStopped out)
      then show ?thesis using run i Inr h Cons.prems(3) by (auto simp: andthen_def prog_simps)
    qed
  qed
qed

lemma step_induct:
  assumes "two_state R" and "\<And>u v. silent u v \<Longrightarrow> R u v" and "\<And>u v. silent u v \<Longrightarrow> I u \<Longrightarrow> I v"
    and "\<And>i. log_only (env i)"
    and iter: "\<And>env executed w res w'. log_only env \<Longrightarrow> I w \<Longrightarrow>
      sign_iteration lib height env executed w = (res, w') \<Longrightarrow> R w w' \<and> I w'
        \<and> (\<forall>t. res = Inr (SignRan t) \<longrightarrow> T t)
        \<and> (\<forall>out. res = Inr (SignStopped (Some out)) \<longrightarrow>
            set (sn_executed out) \<subseteq> set executed \<union> {t. T t} \<and> P out)"
    and "I w" "sign_step lib height env w = (res, w')"
  shows "R w w' \<and> I w' \<and> (\<forall>out. res = Inr (Some out) \<longrightarrow> set (sn_executed out) \<subseteq> {t. T t} \<and> P out)"
proof -
  obtain r1 w1 where o: "observe_sign lib w = (r1, w1)" by fastforce
  have s: "silent w w1" using o by (rule stepsD [OF silent_observe_sign])
  consider (stop) "w' = w1" "\<forall>out. res \<noteq> Inr (Some out)"
    | (pass) "sign_pass lib height (map env [0..<16]) [] w1 = (res, w')"
    using assms(7) o by (auto simp: sign_step_def andthen_def prog_simps split: sum.splits option.splits)
  then show ?thesis
  proof cases
    case stop
    then show ?thesis using assms(2,3,6) s by auto
  next
    case pass
    have "R w1 w' \<and> I w' \<and> (\<forall>out. res = Inr (Some out) \<longrightarrow> set (sn_executed out) \<subseteq> {t. T t} \<and> P out)"
    proof (rule pass_induct [OF assms(1) _ _ _ pass])
      fix e executed v res v' assume "e \<in> set (map env [0..<16])"
      then have "log_only e" using assms(4) by auto
      then show "I v \<Longrightarrow> sign_iteration lib height e executed v = (res, v') \<Longrightarrow> R v v' \<and> I v'
        \<and> (\<forall>t. res = Inr (SignRan t) \<longrightarrow> T t)
        \<and> (\<forall>out. res = Inr (SignStopped (Some out)) \<longrightarrow>
            set (sn_executed out) \<subseteq> set executed \<union> {t. T t} \<and> P out)" by (rule iter)
    qed (use assms(3) [OF s assms(6)] in auto)
    then show ?thesis using assms(2) [OF s] two_state.trans [OF assms(1)] by blast
  qed
qed

section \<open>A pass is safe\<close>

lemma iteration_safe:
  assumes env: "log_only env" and run: "sign_iteration lib height env executed w = (res, w')"
  shows "safe lib w w'"
  using env run
proof (cases rule: iteration_cases)
  case idle
  then show ?thesis using calm_safe silent_calm by blast
next
  case (own s w1)
  then show ?thesis using calm_safe stepsD [OF calm_observe_sign] cl.trans by metis
next
  case (abort s w1 e)
  then have "safe lib w w1" "safe lib w1 w'"
    using calm_safe stepsD [OF calm_observe_sign] safe_delete [of lib] by (auto simp: steps_def)
  then show ?thesis by (rule sf.trans)
next
  case (effect s w1 task w3 fresh w4)
  have "safe lib w1 w'"
    by (rule run_sign_task_safe [OF effect(1,2) silent_calm [OF effect(4)] effect(5,6,7)])
  moreover have "safe lib w w1" using calm_safe stepsD [OF calm_observe_sign effect(1)] .
  ultimately show ?thesis using sf.trans by blast
qed

lemma sign_step_safe:
  assumes "\<And>i. log_only (env i)" and "sign_step lib height env w = (res, w')"
  shows "safe lib w w'"
proof -
  have "safe lib w w' \<and> True
      \<and> (\<forall>out. res = Inr (Some out) \<longrightarrow> set (sn_executed out) \<subseteq> {t. True} \<and> True)"
    by (rule step_induct [where I = "\<lambda>_. True" and T = "\<lambda>_. True" and P = "\<lambda>_. True", OF _ _ _ assms(1) _ _ assms(2)])
      (auto intro: iteration_safe calm_safe silent_calm simp: sf.two_state_axioms)
  then show ?thesis by blast
qed

end
