(* ===== verification/Sign_Liveness.thy ===== *)
theory Sign_Liveness
  imports Sign_Step
begin

text \<open>
  Two states of a signing session from which no pass gets on: the share of a member whose
  message has expired, and a commitment of ours without the nonce it was made with.
\<close>

section \<open>What a task reports\<close>

lemma run_turn:
  assumes "run_sign_task lib sv task fresh executed w = (res, w')"
  shows "(\<forall>t. res = Inr (SignRan t) \<longrightarrow> t = task)
    \<and> (\<forall>out. res = Inr (SignStopped (Some out)) \<longrightarrow>
        set (sn_executed out) \<subseteq> insert task (set executed) \<and> (sn_txid out \<noteq> None \<longrightarrow> task = Aggregate))"
  using assms
  by (cases task)
    (auto simp: run_sign_task_def after_send_def andthen_def sign_end_def prog_simps
      split: prod.splits sum.splits send_result.splits)

lemma idle_report:
  assumes "idle_turn executed res"
  shows "(\<forall>t. res \<noteq> Inr (SignRan t))
    \<and> (\<forall>out. res = Inr (SignStopped (Some out)) \<longrightarrow>
        set (sn_executed out) \<subseteq> set executed \<union> {t. sign_kind t \<noteq> EffectTask} \<and> sn_txid out = None)"
  using assms by (cases "(executed, res)" rule: idle_turn.cases) auto

lemma silent_session: "silent w w' \<Longrightarrow> session_of lib w' = session_of lib w"
  using silent_calm calm_session by blast

lemma wait_own_publish_unmined: "next_sign_task s = Inr SignWaitOwnPublish \<Longrightarrow> so_publish_unmined s"
  by (auto simp: next_sign_unfold split: if_splits option.splits)

section \<open>A share whose message has expired\<close>

text \<open>A member whose commitment and share are stored and whose marker is gone.\<close>

definition share_out :: "sign_lib \<Rightarrow> frost_wallet \<Rightarrow> bool" where
  "share_out lib w = (session_of lib w = None \<or>
     (\<exists>params pkg sighash i n t. session_of lib w = Some (params, pkg, sighash)
        \<and> map_option participant (fw_params w (fs_account params)) = Some (i, n, t)
        \<and> i \<noteq> fs_coordinator params \<and> own_commitment (fs_account params) sighash i w
        \<and> (\<exists>r \<in> set (rows_of (fs_account params) sighash w). sg_share r \<noteq> None)
        \<and> fw_props w SIGN_LAST_TXID_PROP = None))"

lemma rows_share_calm:
  assumes "calm w w'" "\<exists>r \<in> set (rows_of a sh w). sg_share r \<noteq> None"
  shows "\<exists>r \<in> set (rows_of a sh w'). sg_share r \<noteq> None"
proof (rule ccontr)
  assume n: "\<not> ?thesis"
  have "list_all2 calm_row (rows_of a sh w) (rows_of a sh w')" using assms(1) by (rule calm_rows)
  then have "list_all2 (\<lambda>x y. calm_row y x) (rows_of a sh w') (rows_of a sh w)"
    by (auto simp: list_all2_conv_all_nth)
  then have "\<forall>r \<in> set (rows_of a sh w). sg_share r = None"
    by (rule list_all2_all) (use n in \<open>auto simp: calm_row_def\<close>)
  with assms(2) show False by metis
qed

lemma share_out_silent:
  assumes "share_out lib w" and s: "silent w w'"
  shows "share_out lib w'"
proof (cases "session_of lib w")
  case None
  then show ?thesis using silent_session [OF s, of lib] by (simp add: share_out_def)
next
  case (Some x)
  then obtain params pkg sighash i n t where h: "session_of lib w = Some (params, pkg, sighash)"
    "map_option participant (fw_params w (fs_account params)) = Some (i, n, t)"
    "i \<noteq> fs_coordinator params" "own_commitment (fs_account params) sighash i w"
    "\<exists>r \<in> set (rows_of (fs_account params) sighash w). sg_share r \<noteq> None"
    "fw_props w SIGN_LAST_TXID_PROP = None"
    using assms(1) unfolding share_out_def by (metis option.distinct(1))
  have c: "same_session w w'" using s by (simp add: silent_def calm_def)
  have "own_commitment (fs_account params) sighash i w'" using c h(4) by (rule own_commitment_same)
  moreover have "map_option participant (fw_params w' (fs_account params)) = Some (i, n, t)"
    using c h(2) unfolding same_session_def by metis
  moreover have "\<exists>r \<in> set (rows_of (fs_account params) sighash w'). sg_share r \<noteq> None"
    using silent_calm [OF s] h(5) by (rule rows_share_calm)
  ultimately show ?thesis
    using h s session_of_same [OF c, of lib] unfolding share_out_def silent_def by metis
qed

lemma share_out_task:
  assumes o: "observe_sign lib w = (Inr (Some s), w1)" and i: "share_out lib w1"
  shows "\<not> so_publish_unmined s" "next_sign_task s = Inr task \<Longrightarrow> sign_kind task = EffectTask \<Longrightarrow>
    task \<in> {EnsureMailbox, SignDone}"
proof -
  have c: "calm w w1" using calm_observe_sign o by (rule stepsD)
  obtain params pkg sighash p where f: "session_of lib w = Some (params, pkg, sighash)"
    "fw_params w (fs_account params) = Some p" "so_coordinator s = fs_coordinator params" "so_self s = dp_id p"
    "so_own_commitments s = own_commitment (fs_account params) sighash (dp_id p) w1"
    "so_own_shares s = (\<exists>r \<in> set (rows_of (fs_account params) sighash w1). sg_share r \<noteq> None)"
    "so_publish_unmined s \<longrightarrow> fw_props w1 SIGN_LAST_TXID_PROP \<noteq> None"
    using o by (rule observe_sign_ok)
  have "session_of lib w1 = Some (params, pkg, sighash)" using calm_session [OF c] f(1) by simp
  moreover have "map_option participant (fw_params w1 (fs_account params)) = Some (participant p)"
    using c f(2) unfolding calm_def same_session_def by (metis option.map(2))
  ultimately have "\<not> is_coordinator s" "so_own_commitments s" "so_own_shares s" and n: "\<not> so_publish_unmined s"
    using i f by (auto simp: share_out_def participant_def is_coordinator_def)
  then show "next_sign_task s = Inr task \<Longrightarrow> sign_kind task = EffectTask \<Longrightarrow> task \<in> {EnsureMailbox, SignDone}"
    by (auto simp: next_sign_unfold split: if_splits)
  show "\<not> so_publish_unmined s" by (rule n)
qed

lemma deleted_posts: "delete_frost_state w = (r, w') \<Longrightarrow> fw_posted w' = fw_posted w"
  using stepsD [OF same_posts_delete_frost_state] by (fastforce simp: same_posts_def)

lemma deleted_out: "delete_frost_state w = (r, w') \<Longrightarrow> session_of lib w' = None"
  using deleted_session [of lib w] by simp

lemma share_out_iteration:
  assumes env: "log_only env" and i: "share_out lib w"
    and run: "sign_iteration lib height env executed w = (res, w')"
  shows "same_posts w w' \<and> share_out lib w' \<and> (\<forall>t. res = Inr (SignRan t) \<longrightarrow> t \<noteq> SendSigshares)
    \<and> (\<forall>out. res = Inr (SignStopped (Some out)) \<longrightarrow>
        set (sn_executed out) \<subseteq> set executed \<union> {t. t \<noteq> SendSigshares} \<and> sn_txid out = None)"
  using env run
proof (cases rule: iteration_cases)
  case idle
  then show ?thesis using idle_report [OF idle(2)] share_out_silent [OF i]
    by (fastforce simp: silent_def same_posts_def)
next
  case (own s w1)
  have "share_out lib w1" using i stepsD [OF silent_observe_sign own(1)] by (rule share_out_silent)
  then show ?thesis using share_out_task(1) [OF own(1)] wait_own_publish_unmined [OF own(2)] by blast
next
  case (abort s w1 e)
  have "silent w w1" by (rule stepsD [OF silent_observe_sign abort(1)])
  moreover have "delete_frost_state w1 = (fst (delete_frost_state w1), w')" using abort(3) by simp
  note deleted_posts [OF this] deleted_out [OF this, of lib]
  ultimately show ?thesis using idle_report [OF abort(4)]
    by (fastforce simp: silent_def same_posts_def share_out_def)
next
  case (effect s w1 task w3 fresh w4)
  have w1: "silent w w1" by (rule stepsD [OF silent_observe_sign effect(1)])
  have w4: "silent w w4"
    using w1 effect(4) stepsD [OF silent_observe_sign effect(5)] sl.trans by metis
  have "task \<in> {EnsureMailbox, SignDone}"
    using share_out_task(2) [OF effect(1) share_out_silent [OF i w1]] effect(2,3) by blast
  then have rest: "same_posts w w' \<and> share_out lib w'"
  proof (elim insertE emptyE)
    assume t: "task = EnsureMailbox"
    have "steps silent (run_sign_task lib (pe_server env) EnsureMailbox fresh executed)"
      by (auto simp: run_sign_task_def intro!: sl.steps_andthen silent_ensure_mailbox)
    then have "silent w4 w'" using effect(7) t by (metis stepsD)
    then have "silent w w'" using w4 sl.trans by blast
    then show ?thesis using share_out_silent [OF i] by (auto simp: silent_def same_posts_def)
  next
    assume t: "task = SignDone"
    obtain r v where d: "delete_frost_state w4 = (r, v)" by fastforce
    then have "v = w'" using effect(7) t by (auto simp: run_sign_task_def andthen_def prog_simps split: sum.splits)
    then show ?thesis using deleted_posts [OF d] deleted_out [OF d, of lib] w4
      by (simp add: silent_def same_posts_def share_out_def)
  qed
  from \<open>task \<in> _\<close> rest run_turn [OF effect(7)] show ?thesis by fastforce
qed

lemma share_out_step:
  assumes "share_out lib w" and "\<And>i. log_only (env i)" and "sign_step lib height env w = (res, w')"
  shows "fw_posted w' = fw_posted w"
    and "res = Inr (Some out) \<Longrightarrow> SendSigshares \<notin> set (sn_executed out) \<and> sn_txid out = None"
proof -
  have "same_posts w w' \<and> share_out lib w' \<and> (\<forall>out. res = Inr (Some out) \<longrightarrow>
      set (sn_executed out) \<subseteq> {t. t \<noteq> SendSigshares} \<and> sn_txid out = None)"
    by (rule step_induct [where I = "share_out lib", OF _ _ _ assms(2) _ assms(1,3)])
      (simp add: sp.two_state_axioms, simp add: silent_def same_posts_def, erule (1) share_out_silent [rotated],
       erule (2) share_out_iteration)
  then show "fw_posted w' = fw_posted w"
    "res = Inr (Some out) \<Longrightarrow> SendSigshares \<notin> set (sn_executed out) \<and> sn_txid out = None"
    by (auto simp: same_posts_def)
qed

section \<open>A commitment without its nonce\<close>

definition nonce_lost ::
  "sign_lib \<Rightarrow> sign_params \<times> pczt_package \<times> blob \<Rightarrow> u8 \<times> u8 \<times> u8 \<Rightarrow> frost_wallet \<Rightarrow> bool" where
  "nonce_lost lib session who w = (case session of (params, pkg, sighash) \<Rightarrow>
     session_of lib w = None \<or>
     (session_of lib w = Some session \<and> 0 < inputs_of pkg
        \<and> map_option participant (fw_params w (fs_account params)) = Some who
        \<and> own_commitment (fs_account params) sighash (fst who) w
        \<and> rows_of (fs_account params) sighash w = []))"

text \<open>The session and its commitments stay, and no row is added.\<close>

definition no_new_rows :: "frost_wallet \<Rightarrow> frost_wallet \<Rightarrow> bool" where
  "no_new_rows w w' = (same_session w w'
     \<and> (\<forall>a sh. rows_of a sh w = [] \<longrightarrow> rows_of a sh w' = []))"

interpretation nn: two_state no_new_rows
  by unfold_locales (auto simp: no_new_rows_def same_session_refl intro: same_session_trans)

lemma related_rows_empty: "list_all2 Q xs ys \<Longrightarrow> xs = [] \<longrightarrow> ys = []"
  by auto

lemma calm_no_new_rows: "calm w w' \<Longrightarrow> no_new_rows w w'"
  unfolding no_new_rows_def using related_rows_empty [OF calm_rows] by (simp add: calm_def)

lemma repack_no_new_rows:
  assumes "on_rows repack_row w w'"
  shows "no_new_rows w w'"
proof -
  have "list_all2 repack_row (rows_of a sh w) (rows_of a sh w')" for a sh
    by (rule rows_list_all2) (use assms in \<open>auto simp: on_rows_def repack_row_def\<close>)
  from related_rows_empty [OF this] show ?thesis
    using assms by (simp add: no_new_rows_def on_rows_def)
qed

lemma nonce_lost_kept:
  assumes "nonce_lost lib session who w" and k: "no_new_rows w w'"
  shows "nonce_lost lib session who w'"
proof (cases "session_of lib w")
  case None
  then show ?thesis using k session_of_same [of w w' lib] by (simp add: nonce_lost_def no_new_rows_def split: prod.split)
next
  case (Some x)
  obtain params pkg sighash where p: "session = (params, pkg, sighash)" by (cases session) auto
  with Some have h: "session_of lib w = Some session" "0 < inputs_of pkg"
    "map_option participant (fw_params w (fs_account params)) = Some who"
    "own_commitment (fs_account params) sighash (fst who) w" "rows_of (fs_account params) sighash w = []"
    using assms(1) by (auto simp: nonce_lost_def)
  have c: "same_session w w'" using k by (simp add: no_new_rows_def)
  have "own_commitment (fs_account params) sighash (fst who) w'" using c h(4) by (rule own_commitment_same)
  moreover have "map_option participant (fw_params w' (fs_account params)) = Some who"
    using c h(3) unfolding same_session_def by metis
  ultimately show ?thesis
    using h k p session_of_same [OF c, of lib] by (simp add: nonce_lost_def no_new_rows_def)
qed

definition stuck_tasks :: "sign_task set" where
  "stuck_tasks = {EnsureMailbox, AnnounceCoordinator, MakeSigpackages} \<union> {t. sign_kind t \<noteq> EffectTask}"

lemma nonce_lost_task:
  assumes o: "observe_sign lib w = (Inr (Some s), w1)" and i: "nonce_lost lib session who w1"
    and t: "next_sign_task s = Inr task"
  shows "task \<in> stuck_tasks"
proof -
  have c: "calm w w1" using calm_observe_sign o by (rule stepsD)
  obtain params pkg sighash p where f: "session_of lib w = Some (params, pkg, sighash)"
    "fw_params w (fs_account params) = Some p" "so_nsigs s = inputs_of pkg"
    "so_own_commitments s = own_commitment (fs_account params) sighash (dp_id p) w1"
    "so_packages s = packaged (fs_account params) sighash w1 mod 2 ^ 32"
    using o by (rule observe_sign_ok)
  have "session_of lib w1 = Some (params, pkg, sighash)" using calm_session [OF c] f(1) by simp
  moreover have "map_option participant (fw_params w1 (fs_account params)) = Some (participant p)"
    using c f(2) unfolding calm_def same_session_def by (metis option.map(2))
  ultimately have "so_own_commitments s" "so_packages s < so_nsigs s"
    using i f by (auto simp: nonce_lost_def participant_def packaged_def)
  then show ?thesis
    using t by (auto simp: stuck_tasks_def next_sign_unfold split: if_splits option.splits)
qed

lemma nonce_lost_iteration:
  assumes env: "log_only env" and i: "nonce_lost lib session who w"
    and run: "sign_iteration lib height env executed w = (res, w')"
  shows "nonce_lost lib session who w' \<and> (\<forall>t. res = Inr (SignRan t) \<longrightarrow> t \<in> stuck_tasks)
    \<and> (\<forall>out. res = Inr (SignStopped (Some out)) \<longrightarrow>
        set (sn_executed out) \<subseteq> set executed \<union> {t. t \<in> stuck_tasks} \<and> sn_txid out = None)"
  using env run
proof (cases rule: iteration_cases)
  case idle
  have "nonce_lost lib session who w'" using i calm_no_new_rows [OF silent_calm [OF idle(1)]] by (rule nonce_lost_kept)
  then show ?thesis using idle_report [OF idle(2)] by (fastforce simp: stuck_tasks_def)
next
  case (own s w1)
  have "calm w w'" using stepsD [OF calm_observe_sign own(1)] own(3) cl.trans by blast
  then have "nonce_lost lib session who w'" using nonce_lost_kept [OF i calm_no_new_rows] by blast
  then show ?thesis using idle_report [OF own(4)] by (fastforce simp: stuck_tasks_def)
next
  case (abort s w1 e)
  have "delete_frost_state w1 = (fst (delete_frost_state w1), w')" using abort(3) by simp
  from deleted_out [OF this, of lib] show ?thesis
    using idle_report [OF abort(4)] by (fastforce simp: nonce_lost_def stuck_tasks_def)
next
  case (effect s w1 task w3 fresh w4)
  have w1: "calm w w1" by (rule stepsD [OF calm_observe_sign effect(1)])
  have w4: "calm w w4"
    using w1 silent_calm [OF effect(4)] stepsD [OF calm_observe_sign effect(5)] cl.trans by metis
  have "task \<in> stuck_tasks"
    using nonce_lost_task [OF effect(1) nonce_lost_kept [OF i calm_no_new_rows [OF w1]] effect(2)] .
  then have t: "task \<in> {EnsureMailbox, AnnounceCoordinator, MakeSigpackages}"
    using effect(3) by (auto simp: stuck_tasks_def)
  then have "no_new_rows w4 w'"
  proof (elim insertE emptyE)
    assume t: "task = EnsureMailbox"
    have "steps calm (run_sign_task lib (pe_server env) EnsureMailbox fresh executed)"
      by (auto simp: run_sign_task_def intro!: cl.steps_andthen steps_silent_calm [OF silent_ensure_mailbox])
    then show ?thesis using effect(7) t calm_no_new_rows by (metis stepsD)
  next
    assume "task = AnnounceCoordinator"
    then obtain r where "announce_coordinator lib (pe_server env) fresh w4 = (r, w')"
      using effect(7) by (auto simp: run_sign_task_def dest: after_send_state)
    then show ?thesis by (intro calm_no_new_rows stepsD [OF calm_announce])
  next
    assume "task = MakeSigpackages"
    then obtain r where "make_sigpackages lib (pe_server env) fresh w4 = (r, w')"
      using effect(7) by (auto simp: run_sign_task_def dest: after_send_state)
    then show ?thesis by (intro repack_no_new_rows stepsD [OF make_sigpackages_repacks])
  qed
  then have "nonce_lost lib session who w'" using calm_no_new_rows [OF w4] nonce_lost_kept [OF i] nn.trans by blast
  then show ?thesis using run_turn [OF effect(7)] \<open>task \<in> stuck_tasks\<close> t by fastforce
qed

lemma nonce_lost_step:
  assumes "nonce_lost lib session who w" and "\<And>i. log_only (env i)" and "sign_step lib height env w = (res, w')"
  shows "nonce_lost lib session who w'"
    and "res = Inr (Some out) \<Longrightarrow> set (sn_executed out) \<subseteq> stuck_tasks \<and> sn_txid out = None"
proof -
  have "True \<and> nonce_lost lib session who w' \<and> (\<forall>out. res = Inr (Some out) \<longrightarrow>
      set (sn_executed out) \<subseteq> {t. t \<in> stuck_tasks} \<and> sn_txid out = None)"
    by (rule step_induct [where I = "nonce_lost lib session who" and R = "\<lambda>_ _. True", OF _ _ _ assms(2) _ assms(1,3)])
      (unfold_locales, (rule TrueI)+, erule nonce_lost_kept [OF _ calm_no_new_rows [OF silent_calm], rotated],
       assumption, drule (2) nonce_lost_iteration, blast)
  then show "nonce_lost lib session who w'"
    "res = Inr (Some out) \<Longrightarrow> set (sn_executed out) \<subseteq> stuck_tasks \<and> sn_txid out = None"
    by auto
qed

end
