(* ===== verification/Sign_Properties.thy ===== *)
theory Sign_Properties
  imports Sign_Liveness Dkg_Properties
begin

text \<open>
  The properties of the signing session, with the second signer of a 2-of-2 group as the
  witness: participant 1, whose coordinator is participant 2.
\<close>

section \<open>An example session\<close>

text \<open>A message is its sender, its input, and a part of our own with the bytes that follow.\<close>

definition ex_sign :: sign_lib where
  "ex_sign = \<lparr> sl_frost = ex_lib,
     sl_encode = (\<lambda>m. Some (sm_from m # sm_idx m # sm_data m)),
     sl_decode = (\<lambda>bs. case bs of f # i # d \<Rightarrow> Some \<lparr> sm_sighash = [9], sm_from = f, sm_idx = i, sm_data = d,
       sm_signature = None, sm_share = None \<rparr> | _ \<Rightarrow> None),
     sl_encode_part = (\<lambda>p. Some (sp_signer p # sp_commitment p)),
     sl_decode_part = (\<lambda>bs. case bs of i # d \<Rightarrow> Some \<lparr> sp_signer = i, sp_commitment = d, sp_randomizer = [8] \<rparr>
       | _ \<Rightarrow> None),
     sl_ed_sign = (\<lambda>_ _. []), sl_ed_verify = (\<lambda>_ _ _. True),
     sl_utf8 = (\<lambda>bs. Some (map char_of bs)),
     sl_package_of = (\<lambda>_. Some \<lparr> pk_pczt = [1], pk_orchard = [0], pk_ironwood = [] \<rparr>),
     sl_package_text = (\<lambda>_. ''p''),
     sl_params_of = (\<lambda>_. Some \<lparr> fs_account = 1, fs_coordinator = 2, fs_funding = 1 \<rparr>),
     sl_params_text = (\<lambda>_. ''q''),
     sl_pczt = (\<lambda>_. Some \<lparr> pv_expiry = 450, pv_sighash = Some [9], pv_sapling = False,
       pv_orchard = [\<lparr> ps_value = Some 5, ps_fvk = None, ps_alpha = Some [8] \<rparr>], pv_ironwood = [] \<rparr>),
     sl_broadcast_sk = (\<lambda>_. Some [97, 98]), sl_session_sk = (\<lambda>sk _. Some sk),
     sl_sk_ok = (\<lambda>_. True), sl_sk_fvk = id,
     sl_key_id = (\<lambda>_. Some 1), sl_key_share = (\<lambda>_. Some [4]),
     sl_commit = (\<lambda>_ i. Some ([5, i], [6, i])),
     sl_commitment_ok = (\<lambda>_. True), sl_randomizer_ok = (\<lambda>_. True), sl_share_ok = (\<lambda>_. True),
     sl_vshare_ok = (\<lambda>_. True), sl_pubkey_ok = (\<lambda>_. True),
     sl_make_package = (\<lambda>cs sighash. Some (concat (map snd cs) @ sighash)),
     sl_sign = (\<lambda>package nonce key randomizer. Some (package @ nonce @ key @ randomizer)),
     sl_aggregate = (\<lambda>_ shares _ _. Some (concat (map snd shares))),
     sl_rebuild = (\<lambda>_ _. Some []), sl_finish = (\<lambda>_ _. None), sl_txid_text = map char_of \<rparr>"

definition ex_keys :: dkg_state_row where
  "ex_keys = empty_state\<lparr> ds_key_pkg := Some [3] \<rparr>"

text \<open>The session, with the coordinator's address known; the rows and the memos differ.\<close>

definition ex_session :: "signature_row list \<Rightarrow> commitment_row list \<Rightarrow> blob list \<Rightarrow> frost_wallet" where
  "ex_session sigs commits memos =
     (let w = ex_group ex_keys 1
      in w\<lparr> fw_log := (fw_log w)\<lparr> db_memos := map (\<lambda>b. ex_memo b) memos \<rparr>,
         fw_props := [''frost_pczt'' \<mapsto> ''p'', ''frost_sign_params'' \<mapsto> ''q'', ''dkg_account'' \<mapsto> ''1'',
           COORDINATOR_ADDRESS_PROP \<mapsto> ''z''],
         fw_signatures := sigs, fw_commitments := commits \<rparr>)"

definition ex_row :: "blob option \<Rightarrow> signature_row" where
  "ex_row share = \<lparr> sg_account = 1, sg_sighash = [9], sg_idx = 0, sg_nonce = [5], sg_package = Some [6],
     sg_randomizer = Some [8], sg_share = share, sg_signature = None \<rparr>"

definition ex_commit :: "u16 \<Rightarrow> commitment_row" where
  "ex_commit i = \<lparr> cm_account = 1, cm_sighash = [9], cm_idx = 0, cm_from = i, cm_commitment = [6, i],
     cm_share = None \<rparr>"

definition ex_sign_marker :: "frost_wallet \<Rightarrow> frost_wallet" where
  "ex_sign_marker w = w\<lparr> fw_props := (fw_props w)(
     SIGN_LAST_TXID_PROP \<mapsto> hex_encode (replicate 32 7),
     publish_tx_prop SIGN_LAST_TXID_PROP \<mapsto> ''0a'',
     publish_expiry_prop SIGN_LAST_TXID_PROP \<mapsto> ''400'') \<rparr>"

text \<open>A server that does not answer: a message stays staged.\<close>

definition ex_offline :: pass_env where
  "ex_offline = ex_env\<lparr> pe_server := ex_server\<lparr> sv_latest := Inl () \<rparr> \<rparr>"

lemma ex_offline_log_only: "log_only ex_offline"
  using ex_env_log_only by (simp add: log_only_def ex_offline_def)

lemma step_stops:
  assumes "observe_sign lib w = (Inr (Some s), w0)"
    and "sign_iteration lib height (env 0) [] w0 = (Inr (SignStopped out), w')"
  shows "sign_step lib height env w = (Inr out, w')"
proof -
  have "map env [0..<16] = env 0 # map env [1..<16]" by (simp add: upt_conv_Cons)
  then show ?thesis using assms by (simp add: sign_step_def andthen_def prog_simps)
qed

lemma step_fails:
  assumes "observe_sign lib w = (Inr (Some s), w0)" and "sign_iteration lib height (env 0) [] w0 = (Inl e, w')"
  shows "sign_step lib height env w = (Inl e, w')"
proof -
  have "map env [0..<16] = env 0 # map env [1..<16]" by (simp add: upt_conv_Cons)
  then show ?thesis using assms by (simp add: sign_step_def andthen_def)
qed

section \<open>One nonce, one package\<close>

text \<open>
  C29: a nonce signs one package. If every share of the session is the signature of the package in
  its row under the nonce in its row, with our key and the randomizer that our own transaction
  derives, then the same holds after every pass; and unless the pass ended the session, every row
  is still there with its nonce, and a row that had a share has the same share and the same
  package. Whatever parts the coordinator sends, and however often, a nonce of ours is never
  used on two messages.
\<close>

theorem nonce_signs_one_package:
  assumes "sign_inv lib w" and "\<And>i. log_only (env i)" and "sign_step lib height env w = (res, w')"
    and "session_of lib w' = Some (params, pkg, sighash)"
  shows "sign_inv lib w' \<and> session_of lib w = session_of lib w'
    \<and> (\<forall>r \<in> set (rows_of (fs_account params) sighash w). \<exists>r' \<in> set (rows_of (fs_account params) sighash w').
        sg_idx r' = sg_idx r \<and> sg_nonce r' = sg_nonce r
        \<and> (sg_share r \<noteq> None \<longrightarrow> sg_share r' = sg_share r \<and> sg_package r' = sg_package r))
    \<and> (\<forall>r \<in> set (rows_of (fs_account params) sighash w'). \<forall>share. sg_share r = Some share \<longrightarrow>
        (\<exists>key rs package. ds_key_pkg (state_of (fs_account params) w') = Some key
          \<and> input_randomizers lib pkg = Some rs \<and> sg_package r = Some package
          \<and> sl_sign lib package (sg_nonce r) key (rs ! sg_idx r) = Some share))"
proof -
  have "safe lib w w'" using assms(2,3) by (rule sign_step_safe)
  then have h: "sign_inv lib w'" "nonces_kept lib w w'" using assms(1) by (simp_all add: safe_def)
  then have s: "session_of lib w = Some (params, pkg, sighash)"
    using assms(4) by (simp add: nonces_kept_def)
  then have k: "\<forall>r \<in> set (rows_of (fs_account params) sighash w).
      \<exists>r' \<in> set (rows_of (fs_account params) sighash w'). kept_row r r'"
    using h(2) assms(4) unfolding nonces_kept_def by (metis option.distinct(1))
  have "signed_with lib pkg (key_of (fs_account params) w') r"
    if "r \<in> set (rows_of (fs_account params) sighash w')" for r
    using h(1) assms(4) that by (auto simp: sign_inv_def Let_def)
  then have "\<forall>r \<in> set (rows_of (fs_account params) sighash w'). \<forall>share. sg_share r = Some share \<longrightarrow>
        (\<exists>key rs package. ds_key_pkg (state_of (fs_account params) w') = Some key
          \<and> input_randomizers lib pkg = Some rs \<and> sg_package r = Some package
          \<and> sl_sign lib package (sg_nonce r) key (rs ! sg_idx r) = Some share)"
    by (fastforce simp: signed_with_def key_of_def)
  moreover have "\<forall>r \<in> set (rows_of (fs_account params) sighash w).
      \<exists>r' \<in> set (rows_of (fs_account params) sighash w').
        sg_idx r' = sg_idx r \<and> sg_nonce r' = sg_nonce r
        \<and> (sg_share r \<noteq> None \<longrightarrow> sg_share r' = sg_share r \<and> sg_package r' = sg_package r)"
    using k by (simp add: kept_row_def same_row_def) metis
  ultimately show ?thesis using h(1) s assms(4) by simp
qed

theorem nonce_signs_one_package_witness:
  "let w = ex_session [ex_row None] [ex_commit 1, ex_commit 2] [];
       w' = snd (sign_step ex_sign 300 (\<lambda>_. ex_offline) w)
   in map sg_share (fw_signatures w') = [Some [6, 5, 3, 8]] \<and> sign_inv ex_sign w'"
proof -
  let ?w = "ex_session [ex_row None] [ex_commit 1, ex_commit 2] []"
  have "case observe_sign ex_sign ?w of
      (Inr (Some s), w0) \<Rightarrow> (case sign_iteration ex_sign 300 ex_offline [] w0 of
          (Inl e, v) \<Rightarrow> map sg_share (fw_signatures v) = [Some [6, 5, 3, 8]]
            \<and> fw_props v ''frost_pczt'' = Some ''p'' \<and> fw_props v ''frost_sign_params'' = Some ''q''
        | _ \<Rightarrow> False)
    | _ \<Rightarrow> False" by code_simp
  then obtain s w0 e v where p: "observe_sign ex_sign ?w = (Inr (Some s), w0)"
    "sign_iteration ex_sign 300 ex_offline [] w0 = (Inl e, v)" "map sg_share (fw_signatures v) = [Some [6, 5, 3, 8]]"
    "fw_props v ''frost_pczt'' = Some ''p''" "fw_props v ''frost_sign_params'' = Some ''q''"
    by (auto split: prod.splits sum.splits option.splits)
  have "sign_inv ex_sign ?w"
    by (auto simp: sign_inv_def session_of_def ex_sign_def ex_session_def rows_of_def ex_row_def ex_group_def
        inputs_of_def signed_with_def Let_def COORDINATOR_ADDRESS_PROP_def)
  moreover have st: "sign_step ex_sign 300 (\<lambda>_. ex_offline) ?w = (Inl e, v)"
    by (rule step_fails [OF p(1)]) (use p(2) in simp)
  moreover have "session_of ex_sign v =
      Some (\<lparr> fs_account = 1, fs_coordinator = 2, fs_funding = 1 \<rparr>,
        \<lparr> pk_pczt = [1], pk_orchard = [0], pk_ironwood = [] \<rparr>, [9])"
    using p(4,5) by (simp add: session_of_def ex_sign_def)
  ultimately have "sign_inv ex_sign v"
    using nonce_signs_one_package [OF _ ex_offline_log_only] by meson
  then show ?thesis using st p(3) by (simp add: Let_def)
qed

section \<open>Where a session does not do what it says\<close>



text \<open>
  C31: a commitment without its nonce blocks the session. If the row of our own commitment is there
  and no row of ours has a nonce, as after a second start on the same transaction, whose broadcast
  account still holds the parts of the first, then no pass sends commitments, makes a share, aggregates
  or finishes, and none ever will: the state holds again after every pass. In the witness a session
  has just started, and the first pass that reads the old part waits for the signing package.
\<close>

theorem stale_commitment_blocks_signing:
  assumes "session_of lib w = Some (params, pkg, sighash)" and "0 < inputs_of pkg"
    and "fw_params w (fs_account params) = Some p"
    and "own_commitment (fs_account params) sighash (dp_id p) w"
    and "rows_of (fs_account params) sighash w = []"
    and "\<And>i. log_only (env i)" and "sign_step lib height env w = (res, w')"
  shows "(session_of lib w' = None \<or> session_of lib w' = session_of lib w
      \<and> own_commitment (fs_account params) sighash (dp_id p) w' \<and> rows_of (fs_account params) sighash w' = [])
    \<and> (\<forall>out. res = Inr (Some out) \<longrightarrow> sn_txid out = None
      \<and> set (sn_executed out) \<inter> {SendCommitments, SendSigshares, Aggregate, SignDone} = {})"
proof -
  have "nonce_lost lib (params, pkg, sighash) (dp_id p, dp_n p, dp_t p) w"
    using assms(1-5) by (simp add: nonce_lost_def participant_def)
  note h = nonce_lost_step [OF this assms(6,7)]
  have "{SendCommitments, SendSigshares, Aggregate, SignDone} \<inter> stuck_tasks = {}"
    by (auto simp: stuck_tasks_def)
  then show ?thesis using h assms(1) by (simp add: nonce_lost_def) blast
qed

theorem stale_commitment_blocks_signing_witness:
  "let w = ex_session [] [] [SIGPACKAGE_PREFIX @ [2, 0, 1, 6, 1]];
       w1 = snd (observe_sign ex_sign w); m = sign_step ex_sign 300 (\<lambda>_. ex_env) w1
   in own_commitment 1 [9] 1 w = False \<and> own_commitment 1 [9] 1 w1
    \<and> map_sum id (map_option sn_executed) (fst m) = Inr (Some [WaitSigpackages])
    \<and> rows_of 1 [9] (snd m) = [] \<and> is_signing_in_progress (snd m)"
proof -
  let ?w = "ex_session [] [] [SIGPACKAGE_PREFIX @ [2, 0, 1, 6, 1]]"
  let ?p = "\<lparr> fs_account = 1, fs_coordinator = 2, fs_funding = 1 \<rparr>"
  let ?k = "\<lparr> pk_pczt = [1], pk_orchard = [0], pk_ironwood = [] \<rparr>"
  have "case observe_sign ex_sign ?w of
      (Inr (Some s), w1) \<Rightarrow> own_commitment 1 [9] 1 w1 \<and> session_of ex_sign w1 = Some (?p, ?k, [9])
        \<and> rows_of 1 [9] w1 = [] \<and> map_option dp_id (fw_params w1 1) = Some 1
        \<and> (case observe_sign ex_sign w1 of
            (Inr (Some s), w0) \<Rightarrow> (case sign_iteration ex_sign 300 ex_env [] w0 of
                (Inr (SignStopped (Some out)), v) \<Rightarrow> sn_executed out = [WaitSigpackages] \<and> is_signing_in_progress v
                  \<and> session_of ex_sign v \<noteq> None
              | _ \<Rightarrow> False)
          | _ \<Rightarrow> False)
    | _ \<Rightarrow> False" by code_simp
  then obtain s1 w1 s w0 out v p where x: "observe_sign ex_sign ?w = (Inr (Some s1), w1)"
    "own_commitment 1 [9] 1 w1" "session_of ex_sign w1 = Some (?p, ?k, [9])" "rows_of 1 [9] w1 = []"
    "fw_params w1 1 = Some p" "dp_id p = 1" "observe_sign ex_sign w1 = (Inr (Some s), w0)"
    "sign_iteration ex_sign 300 ex_env [] w0 = (Inr (SignStopped (Some out)), v)"
    "sn_executed out = [WaitSigpackages]" "is_signing_in_progress v" "session_of ex_sign v \<noteq> None"
    by (auto split: prod.splits sum.splits option.splits sign_turn.splits)
  have st: "sign_step ex_sign 300 (\<lambda>_. ex_env) w1 = (Inr (Some out), v)"
    by (rule step_stops [OF x(7)]) (use x(8) in simp)
  have n: "own_commitment 1 [9] 1 ?w = False" by code_simp
  have i: "0 < inputs_of ?k" by (simp add: inputs_of_def)
  from stale_commitment_blocks_signing [OF x(3) i _ _ _ ex_env_log_only st, of p] show ?thesis
    using x st n by (simp add: Let_def)
qed

end
