(* ===== verification/Warp_Decrypt.thy ===== *)
theory Warp_Decrypt
  imports Chain_Log
begin

text \<open>
  The compact blocks that the wallet downloads (\<open>rust/src/lwd.rs\<close>), the three shielded
  protocols (\<open>rust/src/warp/sync/shielded/sapling.rs\<close>, \<open>orchard.rs\<close>, \<open>ironwood.rs\<close>)
  and the trial decryption of an output (\<open>rust/src/warp/decrypter.rs\<close>).

  The cryptography is a parameter, the record \<open>warp_lib\<close>: the curve, the key agreement with its
  stream cipher, the parser of a plaintext, the commitment and the nullifier of a note, the hash of the
  tree. The lengths, the lead bytes, the versions and the failures are the code's. A panic is \<open>None\<close>.
\<close>

section \<open>Blocks\<close>

text \<open>A Sapling output has no nullifier; an action is both an input and an output.\<close>

record compact_output =
  co_nullifier :: blob
  co_cmx :: blob
  co_epk :: blob
  co_ciphertext :: blob

record issue_note =
  in_recipient :: blob
  in_value :: u64
  in_rho :: blob
  in_rseed :: blob

record compact_issuance =
  is_desc_hash :: blob
  is_finalize :: bool
  is_ik :: blob
  is_notes :: "issue_note list"

record compact_tx =
  ct_hash :: blob
  ct_spends :: "blob list"
  ct_outputs :: "compact_output list"
  ct_actions :: "compact_output list"
  ct_ironwood :: "compact_output list"
  ct_issuances :: "compact_issuance list"

record compact_block =
  cb_height :: u64
  cb_hash :: blob
  cb_prev_hash :: blob
  cb_time :: u32
  cb_vtx :: "compact_tx list"

text \<open>Heights are cut to 32 bits.\<close>

definition block_height :: "compact_block \<Rightarrow> u32" where
  "block_height cb = cb_height cb mod 2 ^ 32"

section \<open>Protocols\<close>

datatype protocol = SaplingProtocol | OrchardProtocol | IronwoodProtocol

fun extract_outputs :: "protocol \<Rightarrow> compact_tx \<Rightarrow> compact_output list" where
  "extract_outputs SaplingProtocol tx = ct_outputs tx"
| "extract_outputs OrchardProtocol tx = ct_actions tx"
| "extract_outputs IronwoodProtocol tx = ct_ironwood tx"

text \<open>The nullifiers of the inputs.\<close>

fun extract_nullifiers :: "protocol \<Rightarrow> compact_tx \<Rightarrow> blob list" where
  "extract_nullifiers SaplingProtocol tx = ct_spends tx"
| "extract_nullifiers OrchardProtocol tx = map co_nullifier (ct_actions tx)"
| "extract_nullifiers IronwoodProtocol tx = map co_nullifier (ct_ironwood tx)"

section \<open>Notes\<close>

text \<open>\<open>wn_raw\<close> is the note of the protocol's library that the nullifier is derived from.\<close>

record warp_note =
  wn_pool :: u8
  wn_account :: u32
  wn_scope :: u8
  wn_height :: u32
  wn_ivtx :: u32
  wn_vout :: u32
  wn_value :: u64
  wn_cmx :: blob
  wn_position :: u32
  wn_nf :: blob
  wn_txid :: blob
  wn_rcm :: blob
  wn_rho :: blob
  wn_diversifier :: blob
  wn_asset :: blob
  wn_raw :: blob

record parsed_note =
  pn_raw :: blob
  pn_value :: u64
  pn_rcm :: blob
  pn_diversifier :: blob
  pn_asset :: blob
  pn_cmx :: blob

record scan_key =
  sk_account :: u32
  sk_scope :: u8
  sk_ivk :: blob
  sk_nk :: "blob option"

datatype zip212_enforcement = Zip212Off | Zip212GracePeriod | Zip212On

datatype note_domain = SaplingDomain zip212_enforcement | ZsaDomain | OrchardDomain | IronwoodDomain

text \<open>The ommers of a witness, and the last nodes without a sibling, by level.\<close>

type_synonym edge = "nat \<Rightarrow> blob option"

record witness =
  wi_position :: u32
  wi_value :: blob
  wi_ommers :: edge

text \<open>
  \<open>wl_point\<close>: the bytes are a point of the curve; \<open>wl_plain\<close>: the key agreement, the key
  derivation and the stream cipher, which keeps the length; \<open>wl_parse\<close>: the note of a plaintext,
  of our own key, with its commitment and, for an asset other than ZEC, the bytes of the asset;
  \<open>wl_issue\<close>: the note with the fields of an issuance; \<open>wl_owns\<close>: the address is the key's
  own; \<open>wl_witness\<close>: the witness of a new note; \<open>wl_combine\<close>: the hashes of the first pairs of a level.
\<close>

record warp_lib =
  wl_canopy :: "u32 option"
  wl_grace :: u32
  wl_point :: "protocol \<Rightarrow> blob \<Rightarrow> bool"
  wl_plain :: "protocol \<Rightarrow> blob \<Rightarrow> blob \<Rightarrow> blob \<Rightarrow> blob"
  wl_version :: "zip212_enforcement \<Rightarrow> u8 \<Rightarrow> bool"
  wl_rho :: "blob \<Rightarrow> bool"
  wl_cmx :: "blob \<Rightarrow> bool"
  wl_rseed :: "blob \<Rightarrow> blob \<Rightarrow> bool"
  wl_address :: "blob \<Rightarrow> bool"
  wl_owns :: "blob \<Rightarrow> blob \<Rightarrow> bool"
  wl_parse :: "note_domain \<Rightarrow> blob \<Rightarrow> blob \<Rightarrow> blob \<Rightarrow> parsed_note option"
  wl_issue :: "issue_note \<Rightarrow> blob \<Rightarrow> parsed_note option"
  wl_nullifier :: "protocol \<Rightarrow> blob \<Rightarrow> u32 \<Rightarrow> blob \<Rightarrow> blob"
  wl_asset_base :: "blob \<Rightarrow> blob \<Rightarrow> blob option"
  wl_witness :: witness
  wl_depth :: nat
  wl_combine :: "nat \<Rightarrow> blob option list \<Rightarrow> nat \<Rightarrow> blob option list"

text \<open>The row of a note that is found, before it has its place in the tree.\<close>

definition found_note :: "u8 \<Rightarrow> scan_key \<Rightarrow> u32 \<Rightarrow> u32 \<Rightarrow> u32 \<Rightarrow> blob \<Rightarrow> parsed_note \<Rightarrow> warp_note" where
  "found_note pool key height ivtx vout rho pn =
     \<lparr> wn_pool = pool, wn_account = sk_account key, wn_scope = sk_scope key, wn_height = height,
       wn_ivtx = ivtx, wn_vout = vout, wn_value = pn_value pn, wn_cmx = pn_cmx pn, wn_position = 0,
       wn_nf = [], wn_txid = [], wn_rcm = pn_rcm pn, wn_rho = rho, wn_diversifier = pn_diversifier pn,
       wn_asset = pn_asset pn, wn_raw = pn_raw pn \<rparr>"

text \<open>A parsed note is ours only when its commitment is the one on the chain.\<close>

definition matching :: "blob \<Rightarrow> parsed_note option \<Rightarrow> parsed_note option" where
  "matching cmx parsed = (case parsed of
     None \<Rightarrow> None
   | Some pn \<Rightarrow> if pn_cmx pn = cmx then Some pn else None)"

definition lead_byte :: "blob \<Rightarrow> u8" where
  "lead_byte b = (case b of [] \<Rightarrow> 0 | x # _ \<Rightarrow> x)"

section \<open>Trial decryption\<close>

definition zip212 :: "warp_lib \<Rightarrow> u32 \<Rightarrow> zip212_enforcement" where
  "zip212 lib height = (case wl_canopy lib of
     Some h \<Rightarrow> if sat_add32 h (wl_grace lib) \<le> height then Zip212On
               else if h \<le> height then Zip212GracePeriod
               else Zip212Off
   | None \<Rightarrow> Zip212On)"

text \<open>
  The first \<open>option\<close> is a panic: an ephemeral key that is no point of the curve, a
  ciphertext of a length that does not fit.
\<close>

definition try_sapling_decrypt ::
  "warp_lib \<Rightarrow> scan_key \<Rightarrow> u32 \<Rightarrow> u32 \<Rightarrow> u32 \<Rightarrow> compact_output \<Rightarrow> warp_note option panics" where
  "try_sapling_decrypt lib key height ivtx vout co =
     (if length (co_epk co) \<noteq> 32 \<or> \<not> wl_point lib SaplingProtocol (co_epk co) \<or> length (co_ciphertext co) \<noteq> 52
      then None
      else
        let pt = wl_plain lib SaplingProtocol (sk_ivk key) (co_epk co) (co_ciphertext co);
            lead = lead_byte pt
        in Some (if (lead = 1 \<or> lead = 2) \<and> wl_version lib (zip212 lib height) lead
          then map_option (found_note 1 key height ivtx vout [])
            (matching (co_cmx co) (wl_parse lib (SaplingDomain (zip212 lib height)) (sk_ivk key) [] pt))
          else None))"

text \<open>An error is logged by the caller, which then goes on as if the output were not ours: \<open>Some None\<close>.\<close>

definition try_zsa_note ::
  "warp_lib \<Rightarrow> scan_key \<Rightarrow> u32 \<Rightarrow> u32 \<Rightarrow> u32 \<Rightarrow> compact_output \<Rightarrow> blob \<Rightarrow> warp_note option" where
  "try_zsa_note lib key height ivtx vout ca pt =
     (if lead_byte pt = 3
      then if length (co_nullifier ca) = 32 \<and> wl_rho lib (co_nullifier ca)
        then map_option (found_note 2 key height ivtx vout (co_nullifier ca))
          (matching (co_cmx ca) (wl_parse lib ZsaDomain (sk_ivk key) (co_nullifier ca) (take 84 pt)))
        else None
      else None)"

definition try_vanilla_note ::
  "warp_lib \<Rightarrow> scan_key \<Rightarrow> u32 \<Rightarrow> u32 \<Rightarrow> u32 \<Rightarrow> compact_output \<Rightarrow> blob \<Rightarrow> warp_note option" where
  "try_vanilla_note lib key height ivtx vout ca pt =
     (let lead = lead_byte pt;
          is_ironwood = (lead = 3);
          is_orchard = ((lead = 1 \<or> lead = 2) \<and> wl_version lib (zip212 lib height) lead)
      in if is_ironwood \<or> is_orchard
         then if length (co_nullifier ca) = 32 \<and> wl_rho lib (co_nullifier ca)
               \<and> length (co_cmx ca) = 32 \<and> wl_cmx lib (co_cmx ca)
           then map_option (found_note (if is_ironwood then 3 else 2) key height ivtx vout (co_nullifier ca))
             (matching (co_cmx ca)
               (wl_parse lib (if is_ironwood then IronwoodDomain else OrchardDomain) (sk_ivk key) (co_nullifier ca) pt))
           else None
         else None)"

definition try_orchard_decrypt ::
  "warp_lib \<Rightarrow> scan_key \<Rightarrow> u32 \<Rightarrow> u32 \<Rightarrow> u32 \<Rightarrow> compact_output \<Rightarrow> warp_note option panics" where
  "try_orchard_decrypt lib key height ivtx vout ca =
     (if length (co_epk ca) \<noteq> 32 \<or> \<not> wl_point lib OrchardProtocol (co_epk ca) then Some None
      else
        let pt = wl_plain lib OrchardProtocol (sk_ivk key) (co_epk ca) (co_ciphertext ca)
        in if 84 \<le> length (co_ciphertext ca) then Some (try_zsa_note lib key height ivtx vout ca pt)
           else if length (co_ciphertext ca) \<noteq> 52 then None
           else Some (try_vanilla_note lib key height ivtx vout ca pt))"

fun try_decrypt ::
  "protocol \<Rightarrow> warp_lib \<Rightarrow> scan_key \<Rightarrow> u32 \<Rightarrow> u32 \<Rightarrow> u32 \<Rightarrow> compact_output \<Rightarrow> warp_note option panics" where
  "try_decrypt SaplingProtocol = try_sapling_decrypt"
| "try_decrypt OrchardProtocol = try_orchard_decrypt"
| "try_decrypt IronwoodProtocol = try_orchard_decrypt"

section \<open>Issuance notes\<close>

text \<open>Every check of the fields; an error is \<open>None\<close>.\<close>

definition construct_issuance_note :: "warp_lib \<Rightarrow> issue_note \<Rightarrow> blob \<Rightarrow> parsed_note option" where
  "construct_issuance_note lib note asset_base =
     (if length (in_recipient note) \<noteq> 43 \<or> \<not> wl_address lib (in_recipient note) then None
      else if length (in_rho note) \<noteq> 32 \<or> \<not> wl_rho lib (in_rho note) then None
      else if length (in_rseed note) \<noteq> 32 \<or> \<not> wl_rseed lib (in_rseed note) (in_rho note) then None
      else wl_issue lib note asset_base)"

text \<open>Only Orchard has issuance: the other protocols compute no commitment and find no note.\<close>

definition compute_issuance_cmx :: "warp_lib \<Rightarrow> protocol \<Rightarrow> issue_note \<Rightarrow> blob \<Rightarrow> blob option option" where
  "compute_issuance_cmx lib p note asset_base =
     (if p = OrchardProtocol
      then map_option (\<lambda>pn. Some (pn_cmx pn)) (construct_issuance_note lib note asset_base)
      else Some None)"

definition try_decrypt_issuance ::
  "warp_lib \<Rightarrow> protocol \<Rightarrow> scan_key \<Rightarrow> u32 \<Rightarrow> u32 \<Rightarrow> u32 \<Rightarrow> issue_note \<Rightarrow> blob \<Rightarrow> warp_note option" where
  "try_decrypt_issuance lib p key height ivtx vout note asset_base =
     (if p \<noteq> OrchardProtocol \<or> length (in_recipient note) \<noteq> 43 \<or> \<not> wl_address lib (in_recipient note)
         \<or> \<not> wl_owns lib (sk_ivk key) (in_recipient note)
      then None
      else map_option (found_note 2 key height ivtx vout (in_rho note))
        (construct_issuance_note lib note asset_base))"

end
