(* ===== verification/Warp_Scan.thy ===== *)
theory Warp_Scan
  imports Warp_Decrypt Effects
begin

text \<open>
  The scanner of one shielded pool (\<open>rust/src/warp/sync/shielded.rs\<close>): it decrypts the outputs
  of a chunk of blocks, places the notes in the commitment tree, brings every witness up to the end of
  the chunk level by level, and reports the spends. What it sends to the writer is the list
  \<open>sy_sent\<close>. The height of the tree and its hash are parameters.

  A panic (an \<open>unwrap\<close>, a failed \<open>assert\<close>) and an error are the two failures.
\<close>

section \<open>Unspent notes\<close>

record utxo =
  ut_id :: u32
  ut_account :: u32
  ut_pool :: u8
  ut_position :: u32
  ut_nullifier :: blob
  ut_value :: u64
  ut_cmx :: blob
  ut_txid :: blob
  ut_witness :: witness

datatype warp_message =
    MsgTransaction u32 u32 u32 blob
  | MsgNote warp_note
  | MsgWitness u32 u32 blob witness
  | MsgSpend utxo
  | MsgCheckpoint "u32 list" u8 u32
  | MsgIssuance blob blob blob bool u32
  | MsgBlockHeader u32 blob u32
  | MsgCommit
  | MsgRewind "u32 list" u32
  | MsgError

datatype warp_error = WarpPanic | WarpError

record synchronizer =
  sy_protocol :: protocol
  sy_pool :: u8
  sy_keys :: "scan_key list"
  sy_position :: u32
  sy_utxos :: "utxo list"
  sy_tree :: edge
  sy_sent :: "warp_message list"

type_synonym 'a warp = "(warp_error, synchronizer, 'a) prog"

definition send :: "warp_message \<Rightarrow> unit warp" where
  "send m = modify (\<lambda>sy. sy\<lparr> sy_sent := sy_sent sy @ [m] \<rparr>)"

text \<open>\<open>Hash32\<close>: the conversion from a vector of another length panics.\<close>

definition hash32 :: "blob \<Rightarrow> blob panics" where
  "hash32 b = (if length b = 32 then Some b else None)"

section \<open>Decryption\<close>

text \<open>Every output of the chunk with every key, in the order of the blocks; a panic is the scan's.\<close>

definition chunk_outputs :: "protocol \<Rightarrow> compact_block list \<Rightarrow> (u32 \<times> u32 \<times> u32 \<times> compact_output) list" where
  "chunk_outputs p blocks = [(block_height b, ivtx, vout, co). b \<leftarrow> blocks, (ivtx, tx) \<leftarrow> enumerate 0 (cb_vtx b),
     (vout, co) \<leftarrow> enumerate 0 (extract_outputs p tx)]"

definition decrypt_output ::
  "warp_lib \<Rightarrow> protocol \<Rightarrow> scan_key list \<Rightarrow> u32 \<times> u32 \<times> u32 \<times> compact_output \<Rightarrow> (warp_note \<times> blob option) list panics" where
  "decrypt_output lib p keys = (\<lambda>(height, ivtx, vout, co).
     map_option concat (those (map (\<lambda>key. map_option (\<lambda>found. case found of None \<Rightarrow> [] | Some n \<Rightarrow> [(n, sk_nk key)])
       (try_decrypt p lib key height ivtx vout co)) keys)))"

definition decrypted_notes ::
  "warp_lib \<Rightarrow> protocol \<Rightarrow> scan_key list \<Rightarrow> compact_block list \<Rightarrow> (warp_note \<times> blob option) list panics" where
  "decrypted_notes lib p keys blocks =
     map_option concat (those (map (decrypt_output lib p keys) (chunk_outputs p blocks)))"

section \<open>Issuance\<close>

text \<open>The issuance notes of a transaction flow through a counter of outputs, the commitments and our notes.\<close>

record issued =
  ix_vout :: u32
  ix_cmxs :: "blob list"
  ix_notes :: "(warp_note \<times> blob option) list"

definition issue_one ::
  "warp_lib \<Rightarrow> protocol \<Rightarrow> scan_key list \<Rightarrow> u32 \<Rightarrow> u32 \<Rightarrow> blob \<Rightarrow> issued \<Rightarrow> issue_note \<Rightarrow> issued warp" where
  "issue_one lib p keys height ivtx asset_base x note =
     andthen (the_or WarpError (compute_issuance_cmx lib p note asset_base)) (\<lambda>cmx.
       ret \<lparr> ix_vout = ix_vout x + 1,
         ix_cmxs = ix_cmxs x @ (case cmx of None \<Rightarrow> [] | Some c \<Rightarrow> [c]),
         ix_notes = ix_notes x @ List.map_filter (\<lambda>key. map_option (\<lambda>n. (n, sk_nk key))
             (try_decrypt_issuance lib p key height ivtx (ix_vout x) note asset_base)) keys \<rparr>)"

fun fold_prog :: "('s \<Rightarrow> 'a \<Rightarrow> 's warp) \<Rightarrow> 's \<Rightarrow> 'a list \<Rightarrow> 's warp" where
  "fold_prog f s [] = ret s"
| "fold_prog f s (x # xs) = andthen (f s x) (\<lambda>s'. fold_prog f s' xs)"

definition issue_action ::
  "warp_lib \<Rightarrow> protocol \<Rightarrow> scan_key list \<Rightarrow> u32 \<Rightarrow> u32 \<Rightarrow> issued \<Rightarrow> compact_issuance \<Rightarrow> issued warp" where
  "issue_action lib p keys height ivtx x iss =
     andthen (ensure (length (is_desc_hash iss) = 32) WarpError) (\<lambda>_.
     andthen (the_or WarpError (wl_asset_base lib (is_ik iss) (is_desc_hash iss))) (\<lambda>asset_base.
       fold_prog (issue_one lib p keys height ivtx asset_base) x (is_notes iss)))"

text \<open>The commitments that a transaction issues, and our notes among them.\<close>

definition issue_tx ::
  "warp_lib \<Rightarrow> protocol \<Rightarrow> scan_key list \<Rightarrow> u32 \<Rightarrow> u32 \<Rightarrow> compact_tx \<Rightarrow> issued warp" where
  "issue_tx lib p keys height ivtx tx =
     fold_prog (issue_action lib p keys height ivtx)
       \<lparr> ix_vout = length (extract_outputs p tx), ix_cmxs = [], ix_notes = [] \<rparr> (ct_issuances tx)"

type_synonym issuance_row = "(u32 \<times> u32) \<times> blob list"

text \<open>The transactions with their coordinates, in the order of the chunk.\<close>

definition chunk_txs :: "compact_block list \<Rightarrow> (compact_block \<times> u32 \<times> compact_tx) list" where
  "chunk_txs blocks = [(b, ivtx, tx). b \<leftarrow> blocks, (ivtx, tx) \<leftarrow> enumerate 0 (cb_vtx b)]"

definition issue_chunk ::
  "warp_lib \<Rightarrow> protocol \<Rightarrow> scan_key list \<Rightarrow> compact_block list
     \<Rightarrow> ((warp_note \<times> blob option) list \<times> issuance_row list) warp" where
  "issue_chunk lib p keys blocks =
     fold_prog (\<lambda>(notes_in, rows) (b, ivtx, tx).
         andthen (issue_tx lib p keys (block_height b) ivtx tx) (\<lambda>x.
           ret (notes_in @ ix_notes x,
             if ix_cmxs x = [] then rows else rows @ [((block_height b, ivtx), ix_cmxs x)])))
       ([], []) (chunk_txs blocks)"

text \<open>A map built by inserting the rows in order: the last row of a key stays.\<close>

definition issued_cmxs :: "issuance_row list \<Rightarrow> u32 \<times> u32 \<Rightarrow> blob list" where
  "issued_cmxs rows k = (case map_of (rev rows) k of None \<Rightarrow> [] | Some cs \<Rightarrow> cs)"

section \<open>Placing the notes\<close>

text \<open>The order of the chunk; each sort is stable.\<close>

definition sort_chunk_notes :: "(warp_note \<times> blob option) list \<Rightarrow> (warp_note \<times> blob option) list" where
  "sort_chunk_notes ns = sort_key (wn_height \<circ> fst) (sort_key (wn_ivtx \<circ> fst) (sort_key (wn_vout \<circ> fst) ns))"

text \<open>An account without its full key has the commitment stand in for the nullifier.\<close>

definition place_note ::
  "warp_lib \<Rightarrow> protocol \<Rightarrow> u32 \<Rightarrow> compact_block \<Rightarrow> compact_tx \<Rightarrow> warp_note \<times> blob option \<Rightarrow> warp_note warp" where
  "place_note lib p position cb tx = (\<lambda>(n, nk).
     let pos = add32 position (wn_vout n) in
     andthen (case nk of
         None \<Rightarrow> ret (wn_cmx n)
       | Some key \<Rightarrow> ret (wl_nullifier lib p key pos (wn_raw n))) (\<lambda>nf.
     andthen (send (MsgTransaction (wn_account n) (block_height cb) (cb_time cb) (ct_hash tx))) (\<lambda>_.
     let placed = n\<lparr> wn_position := pos, wn_nf := nf, wn_txid := ct_hash tx \<rparr> in
     andthen (send (MsgNote placed)) (\<lambda>_. ret placed))))"

fun place_all :: "(warp_note \<times> blob option \<Rightarrow> warp_note warp) \<Rightarrow> (warp_note \<times> blob option) list \<Rightarrow> warp_note list warp" where
  "place_all f [] = ret []"
| "place_all f (n # ns) = andthen (f n) (\<lambda>m. andthen (place_all f ns) (\<lambda>ms. ret (m # ms)))"

definition tx_size :: "protocol \<Rightarrow> issuance_row list \<Rightarrow> compact_block \<times> u32 \<times> compact_tx \<Rightarrow> nat" where
  "tx_size p rows = (\<lambda>(cb, ivtx, tx).
     length (extract_outputs p tx) + length (issued_cmxs rows (block_height cb, ivtx)))"

text \<open>The notes that no transaction reaches stay where they are, at the end.\<close>

fun place_notes ::
  "warp_lib \<Rightarrow> protocol \<Rightarrow> issuance_row list \<Rightarrow> u32 \<Rightarrow> (warp_note \<times> blob option) list
     \<Rightarrow> (compact_block \<times> u32 \<times> compact_tx) list \<Rightarrow> warp_note list warp" where
  "place_notes lib p rows position ns [] = ret (map fst ns)"
| "place_notes lib p rows position ns (tx # txs) =
     (let here = (\<lambda>(n, _). wn_height n = block_height (fst tx) \<and> wn_ivtx n = fst (snd tx)) in
      andthen (place_all (place_note lib p position (fst tx) (snd (snd tx))) (takeWhile here ns)) (\<lambda>placed.
      andthen (place_notes lib p rows (add32 position (tx_size p rows tx)) (dropWhile here ns) txs) (\<lambda>rest.
        ret (placed @ rest))))"

definition new_utxo :: "warp_lib \<Rightarrow> u8 \<Rightarrow> warp_note \<Rightarrow> utxo" where
  "new_utxo lib pool n = \<lparr> ut_id = 0, ut_account = wn_account n, ut_pool = pool, ut_position = wn_position n,
     ut_nullifier = wn_nf n, ut_value = wn_value n, ut_cmx = wn_cmx n, ut_txid = [],
     ut_witness = wl_witness lib \<rparr>"

section \<open>The levels of the tree\<close>

text \<open>The leaves of the chunk: the outputs of each transaction, then what it issues.\<close>

definition tx_leaves :: "protocol \<Rightarrow> issuance_row list \<Rightarrow> compact_block \<times> u32 \<times> compact_tx \<Rightarrow> blob list panics" where
  "tx_leaves p rows = (\<lambda>(cb, ivtx, tx).
     map_option (\<lambda>cs. cs @ issued_cmxs rows (block_height cb, ivtx))
       (those (map (hash32 \<circ> co_cmx) (extract_outputs p tx))))"

definition chunk_leaves :: "protocol \<Rightarrow> issuance_row list \<Rightarrow> compact_block list \<Rightarrow> blob list panics" where
  "chunk_leaves p rows blocks = map_option concat (those (map (tx_leaves p rows) (chunk_txs blocks)))"

record level =
  lv_nodes :: "blob option list"
  lv_new :: "utxo list"
  lv_old :: "utxo list"
  lv_tree :: edge

definition set_ommer :: "nat \<Rightarrow> blob option \<Rightarrow> utxo \<Rightarrow> utxo" where
  "set_ommer depth x u = u\<lparr> ut_witness := (ut_witness u)\<lparr> wi_ommers := (wi_ommers (ut_witness u))(depth := x) \<rparr> \<rparr>"

definition node_at :: "blob option list \<Rightarrow> nat \<Rightarrow> blob panics" where
  "node_at nodes i = (if i < length nodes then nodes ! i else None)"

definition leaf_witness :: "nat \<Rightarrow> blob option list \<Rightarrow> u32 \<Rightarrow> u32 \<Rightarrow> utxo \<Rightarrow> utxo panics" where
  "leaf_witness depth nodes npos nidx u =
     (if depth = 0
      then map_option (\<lambda>v. u\<lparr> ut_witness := (ut_witness u)\<lparr> wi_position := npos, wi_value := v \<rparr> \<rparr>) (node_at nodes nidx)
      else Some u)"

definition new_ommer :: "nat \<Rightarrow> u32 \<Rightarrow> blob option list \<Rightarrow> utxo \<Rightarrow> utxo panics" where
  "new_ommer depth start nodes u =
     (let npos = ut_position u div 2 ^ depth; nidx = sub32 npos start
      in Option.bind (leaf_witness depth nodes npos nidx u) (\<lambda>u.
        if even nidx
        then (if nidx + 1 < length nodes
              then map_option (\<lambda>v. set_ommer depth (Some v) u) (node_at nodes (nidx + 1))
              else Some (set_ommer depth None u))
        else map_option (\<lambda>v. set_ommer depth (Some v) u) (node_at nodes (nidx - 1))))"

definition old_ommer :: "nat \<Rightarrow> blob option list \<Rightarrow> utxo \<Rightarrow> utxo panics" where
  "old_ommer depth nodes u =
     (if 2 \<le> length nodes \<and> wi_ommers (ut_witness u) depth = None
      then map_option (\<lambda>v. set_ommer depth (Some v) u) (node_at nodes 1)
      else Some u)"

text \<open>A level starts with the last node of the tree so far when that node has no sibling yet.\<close>

definition level_nodes :: "nat \<Rightarrow> u32 \<Rightarrow> blob list \<Rightarrow> level \<Rightarrow> (u32 \<times> blob option list) panics" where
  "level_nodes depth position leaves lv =
     (let p = position div 2 ^ depth; more = (if depth = 0 then map Some leaves else [])
      in if odd p then map_option (\<lambda>v. (p - 1, (Some v # lv_nodes lv) @ more)) (lv_tree lv depth)
         else Some (p, lv_nodes lv @ more))"

definition level_step :: "warp_lib \<Rightarrow> u32 \<Rightarrow> blob list \<Rightarrow> level \<Rightarrow> nat \<Rightarrow> level panics" where
  "level_step lib position leaves lv depth =
     Option.bind (level_nodes depth position leaves lv) (\<lambda>(start, nodes).
     Option.bind (those (map (new_ommer depth start nodes) (lv_new lv))) (\<lambda>new.
     Option.bind (those (map (old_ommer depth nodes) (lv_old lv))) (\<lambda>old.
       Some \<lparr> lv_nodes = wl_combine lib depth nodes (length nodes div 2), lv_new = new, lv_old = old,
         lv_tree = (lv_tree lv)(depth := if odd (length nodes) then nodes ! (length nodes - 1) else None) \<rparr>)))"

section \<open>A chunk\<close>

definition utxo_key :: "utxo \<Rightarrow> u32 \<times> blob" where
  "utxo_key u = (ut_account u, ut_nullifier u)"

definition insert_utxo :: "utxo list \<Rightarrow> utxo \<Rightarrow> utxo list" where
  "insert_utxo us u = (if utxo_key u \<in> set (map utxo_key us)
     then map (\<lambda>v. if utxo_key v = utxo_key u then u else v) us else us @ [u])"

definition remove_utxo :: "u32 \<times> blob \<Rightarrow> utxo option warp" where
  "remove_utxo k = (\<lambda>sy. (Inr (List.find (\<lambda>u. utxo_key u = k) (sy_utxos sy)),
     sy\<lparr> sy_utxos := filter (\<lambda>u. utxo_key u \<noteq> k) (sy_utxos sy) \<rparr>))"

definition spend_input :: "compact_block \<Rightarrow> compact_tx \<Rightarrow> blob \<Rightarrow> u32 \<Rightarrow> unit warp" where
  "spend_input cb tx nf account =
     andthen (remove_utxo (account, nf)) (\<lambda>found.
       case found of
         None \<Rightarrow> ret ()
       | Some u \<Rightarrow>
           andthen (send (MsgTransaction (ut_account u) (block_height cb) (cb_time cb) (ct_hash tx))) (\<lambda>_.
             send (MsgSpend (u\<lparr> ut_txid := ct_hash tx \<rparr>))))"

definition spend_tx :: "protocol \<Rightarrow> u32 list \<Rightarrow> compact_block \<times> u32 \<times> compact_tx \<Rightarrow> unit warp" where
  "spend_tx p accounts = (\<lambda>(cb, _, tx).
     for_each (\<lambda>nf. andthen (the_or WarpPanic (hash32 nf)) (\<lambda>nf. for_each (spend_input cb tx nf) accounts))
       (extract_nullifiers p tx))"

definition update_witnesses :: "warp_lib \<Rightarrow> issuance_row list \<Rightarrow> compact_block list \<Rightarrow> warp_note list \<Rightarrow> nat warp" where
  "update_witnesses lib rows blocks ns =
     andthen (gets id) (\<lambda>sy.
     andthen (the_or WarpPanic (chunk_leaves (sy_protocol sy) rows blocks)) (\<lambda>leaves.
     andthen (the_or WarpPanic (foldM (level_step lib (sy_position sy) leaves)
         \<lparr> lv_nodes = [], lv_new = map (new_utxo lib (sy_pool sy)) ns, lv_old = sy_utxos sy, lv_tree = sy_tree sy \<rparr>
         [0..<wl_depth lib])) (\<lambda>lv.
     andthen (modify (\<lambda>sy. sy\<lparr> sy_tree := lv_tree lv, sy_utxos := foldl insert_utxo (lv_old lv) (lv_new lv) \<rparr>)) (\<lambda>_.
       ret (length leaves)))))"

text \<open>What a chunk does once its notes are placed.\<close>

definition finish_chunk :: "warp_lib \<Rightarrow> issuance_row list \<Rightarrow> compact_block list \<Rightarrow> protocol \<Rightarrow> scan_key list \<Rightarrow> u8
    \<Rightarrow> warp_note list \<Rightarrow> unit warp" where
  "finish_chunk lib rows blocks p keys pool ns =
     andthen (update_witnesses lib rows blocks ns) (\<lambda>size.
     andthen (gets sy_utxos) (\<lambda>us.
     andthen (for_each (\<lambda>u. send (MsgWitness (ut_account u) (block_height (last blocks)) (ut_cmx u) (ut_witness u))) us) (\<lambda>_.
     andthen (modify (\<lambda>sy. sy\<lparr> sy_position := add32 (sy_position sy) (size mod 2 ^ 32) \<rparr>)) (\<lambda>_.
     andthen (for_each (spend_tx p (map sk_account keys)) (chunk_txs blocks)) (\<lambda>_.
       send (MsgCheckpoint (map sk_account keys) pool (block_height (last blocks))))))))"

definition add :: "warp_lib \<Rightarrow> compact_block list \<Rightarrow> unit warp" where
  "add lib blocks =
     (if blocks = [] then ret ()
      else
        andthen (gets id) (\<lambda>sy.
        andthen (the_or WarpPanic (decrypted_notes lib (sy_protocol sy) (sy_keys sy) blocks)) (\<lambda>decrypted.
        andthen (issue_chunk lib (sy_protocol sy) (sy_keys sy) blocks) (\<lambda>(issued_notes, rows).
        andthen (place_notes lib (sy_protocol sy) rows (sy_position sy) (sort_chunk_notes (decrypted @ issued_notes)) (chunk_txs blocks))
          (finish_chunk lib rows blocks (sy_protocol sy) (sy_keys sy) (sy_pool sy))))))"

end
