(* ===== verification/Warp_Sync.thy ===== *)
theory Warp_Sync
  imports Warp_Scan
begin

text \<open>
  The scan of a stream of blocks (\<open>rust/src/warp/sync.rs\<close>): a reader that checks that the
  blocks connect and cuts them into chunks, and the consumer that gives every chunk to the scanners of
  the three pools. The events of the reader are those its \<open>select!\<close> can wake up to; the
  messages between the two are the list that the reader leaves.
\<close>

section \<open>Opening a scanner\<close>

text \<open>
  The unspent notes of an account with their witness at the height before the scan. A column that
  has no value of its type, or a witness that does not decode, panics.
\<close>

definition witness_rows :: "u8 \<Rightarrow> u32 \<Rightarrow> u32 \<Rightarrow> db \<Rightarrow> (note_row \<times> witness_row) list" where
  "witness_rows pool account height db =
     [(n, w). n \<leftarrow> db_notes db, w \<leftarrow> db_witnesses db, unspent db n \<and> nt_id n = wt_note w \<and> nt_pool n = pool
        \<and> nt_account n = account \<and> wt_height w = height]"

definition open_utxo :: "(blob \<Rightarrow> witness option) \<Rightarrow> u8 \<Rightarrow> note_row \<times> witness_row \<Rightarrow> utxo panics" where
  "open_utxo decode pool = (\<lambda>(n, w).
     case (nt_position n, nt_cmx n, decode (wt_witness w)) of
       (Some pos, Some cmx, Some wit) \<Rightarrow>
         Some \<lparr> ut_id = nt_id n, ut_account = nt_account n, ut_pool = pool, ut_position = pos,
           ut_nullifier = nt_nullifier n, ut_value = as_u64 (nt_value n), ut_cmx = cmx, ut_txid = [],
           ut_witness = wit \<rparr>
     | _ \<Rightarrow> None)"

text \<open>The keys of the accounts, external first; \<open>ivk\<close> finds the key of a scope.\<close>

definition open_keys :: "(u32 \<Rightarrow> u8 \<Rightarrow> (blob \<times> blob option) option) \<Rightarrow> (u32 \<times> bool) list \<Rightarrow> scan_key list" where
  "open_keys ivk accounts = concat (map (\<lambda>(i, use_internal).
     List.map_filter (\<lambda>scope. map_option (\<lambda>(k, nk). \<lparr> sk_account = i, sk_scope = scope, sk_ivk = k, sk_nk = nk \<rparr>)
       (ivk i scope)) (if use_internal then [0, 1] else [0])) accounts)"

definition synchronizer_new ::
  "(blob \<Rightarrow> witness option) \<Rightarrow> (u32 \<Rightarrow> u8 \<Rightarrow> (blob \<times> blob option) option) \<Rightarrow> protocol \<Rightarrow> u8 \<Rightarrow> u32
     \<Rightarrow> (u32 \<times> bool) list \<Rightarrow> u32 \<times> edge \<Rightarrow> db \<Rightarrow> synchronizer panics" where
  "synchronizer_new decode ivk p pool height accounts frontier db =
     (let keys = open_keys ivk accounts
      in map_option (\<lambda>us. \<lparr> sy_protocol = p, sy_pool = pool, sy_keys = keys, sy_position = fst frontier,
             sy_utxos = foldl insert_utxo [] us, sy_tree = snd frontier, sy_sent = [] \<rparr>)
         (those (map (open_utxo decode pool)
           (concat (map (\<lambda>key. witness_rows pool (sk_account key) (sub32 height 1) db) keys)))))"

definition has_no_keys :: "synchronizer \<Rightarrow> bool" where
  "has_no_keys sy = (sy_keys sy = [])"

section \<open>The reader\<close>

datatype block_message =
    BlockChunk "compact_block list"
  | SaveHeader u32 blob u32
  | CancelMessage
  | StallAbort u32
  | Interrupted u32
  | FailedMessage u32
  | ReorgMessage "u32 list" u32

text \<open>The timer, the cancellation, and what the stream of blocks answers.\<close>

datatype reader_event = TimerTick | CancelRequested | Arrived compact_block | StreamFailed | StreamEnded

record reader_config =
  rc_end :: u32
  rc_actions :: u32
  rc_accounts :: "u32 list"
  rc_frontier :: "blob list"

record reader =
  rd_blocks :: "compact_block list"
  rd_height :: u32
  rd_prev_height :: u32
  rd_count :: nat
  rd_prev_hash :: "blob option"
  rd_no_time :: "u32 set"

definition reader_start :: "u32 \<Rightarrow> u32 set \<Rightarrow> reader" where
  "reader_start start_height no_time = \<lparr> rd_blocks = [], rd_height = sat_sub start_height 1, rd_prev_height = u32_max,
     rd_count = 0, rd_prev_hash = None, rd_no_time = no_time \<rparr>"

definition pending_chunk :: "reader \<Rightarrow> block_message list" where
  "pending_chunk rd = (if rd_blocks rd = [] then [] else [BlockChunk (rd_blocks rd)])"

definition discontinuity :: "reader_config \<Rightarrow> reader \<Rightarrow> compact_block \<Rightarrow> bool" where
  "discontinuity rc rd b = (case rd_prev_hash rd of
     Some h \<Rightarrow> h \<noteq> cb_prev_hash b
   | None \<Rightarrow> list_ex (\<lambda>h. h \<noteq> cb_prev_hash b) (rc_frontier rc))"

definition block_actions :: "compact_block \<Rightarrow> nat" where
  "block_actions b = sum_list (map (\<lambda>tx. length (ct_spends tx) + length (ct_outputs tx) + length (ct_actions tx)
     + length (ct_ironwood tx) + length (ct_issuances tx)) (cb_vtx b))"

text \<open>A step of the reader: the messages it sends, and its state unless it is done.\<close>

definition read_block :: "reader_config \<Rightarrow> reader \<Rightarrow> compact_block \<Rightarrow> block_message list \<times> reader option" where
  "read_block rc rd b =
     (let height = block_height b
      in if discontinuity rc rd b then ([ReorgMessage (rc_accounts rc) (sub32 height 1)], None)
         else
           let header = (if height \<in> rd_no_time rd then [SaveHeader height (cb_hash b) (cb_time b)] else []);
               bs = rd_blocks rd @ [b];
               c = rd_count rd + block_actions b;
               full = rc_actions rc \<le> c
           in (header @ (if full then [BlockChunk bs] else []),
               Some (rd\<lparr> rd_height := height, rd_prev_hash := Some (cb_hash b), rd_no_time := rd_no_time rd - {height},
                 rd_blocks := (if full then [] else bs), rd_count := (if full then 0 else c) \<rparr>)))"

fun read_event :: "reader_config \<Rightarrow> reader \<Rightarrow> reader_event \<Rightarrow> block_message list \<times> reader option" where
  "read_event rc rd TimerTick =
     (if rd_prev_height rd = rd_height rd then ([StallAbort (rd_height rd)], None)
      else ([], Some (rd\<lparr> rd_prev_height := rd_height rd \<rparr>)))"
| "read_event rc rd CancelRequested = ([CancelMessage], None)"
| "read_event rc rd (Arrived b) = read_block rc rd b"
| "read_event rc rd StreamFailed = (pending_chunk rd @ [FailedMessage (rd_height rd)], None)"
| "read_event rc rd StreamEnded =
     (pending_chunk rd @ (if rd_height rd < rc_end rc then [Interrupted (rd_height rd)] else []), None)"

text \<open>The messages of a run, and whether the reader is done.\<close>

fun read_stream :: "reader_config \<Rightarrow> reader \<Rightarrow> reader_event list \<Rightarrow> block_message list \<times> bool" where
  "read_stream rc rd [] = ([], False)"
| "read_stream rc rd (ev # evs) = (case read_event rc rd ev of
     (ms, None) \<Rightarrow> (ms, True)
   | (ms, Some rd') \<Rightarrow> (let (rest, over) = read_stream rc rd' evs in (ms @ rest, over)))"

section \<open>The consumer\<close>

datatype scan_end = ScanCompleted | ScanCancelled | ScanReorg u32

record scanners =
  sc_sapling :: synchronizer
  sc_orchard :: synchronizer
  sc_ironwood :: "synchronizer option"
  sc_sent :: "warp_message list"

type_synonym 'a scan = "(warp_error, scanners, 'a) prog"

definition send_message :: "warp_message \<Rightarrow> unit scan" where
  "send_message m = modify (\<lambda>w. w\<lparr> sc_sent := sc_sent w @ [m] \<rparr>)"

text \<open>A scanner sends on the channel that all of them share.\<close>

definition add_sapling :: "warp_lib \<Rightarrow> compact_block list \<Rightarrow> unit scan" where
  "add_sapling lib bs = (\<lambda>w. let (r, sy) = add lib bs ((sc_sapling w)\<lparr> sy_sent := sc_sent w \<rparr>)
     in (r, w\<lparr> sc_sapling := sy, sc_sent := sy_sent sy \<rparr>))"

definition add_orchard :: "warp_lib \<Rightarrow> compact_block list \<Rightarrow> unit scan" where
  "add_orchard lib bs = (\<lambda>w. let (r, sy) = add lib bs ((sc_orchard w)\<lparr> sy_sent := sc_sent w \<rparr>)
     in (r, w\<lparr> sc_orchard := sy, sc_sent := sy_sent sy \<rparr>))"

definition add_ironwood :: "warp_lib \<Rightarrow> compact_block list \<Rightarrow> unit scan" where
  "add_ironwood lib bs = (\<lambda>w. case sc_ironwood w of
       None \<Rightarrow> (Inr (), w)
     | Some sy0 \<Rightarrow> (let (r, sy) = add lib bs (sy0\<lparr> sy_sent := sc_sent w \<rparr>)
         in (r, w\<lparr> sc_ironwood := Some sy, sc_sent := sy_sent sy \<rparr>)))"

definition send_issuance :: "warp_lib \<Rightarrow> compact_block \<Rightarrow> compact_issuance \<Rightarrow> unit scan" where
  "send_issuance lib b iss =
     andthen (the_or WarpPanic (hash32 (is_desc_hash iss))) (\<lambda>desc_hash.
     andthen (the_or WarpPanic (wl_asset_base lib (is_ik iss) desc_hash)) (\<lambda>asset_base.
       send_message (MsgIssuance (is_desc_hash iss) (is_ik iss) asset_base (is_finalize iss) (block_height b))))"

definition block_issuances :: "compact_block list \<Rightarrow> (compact_block \<times> compact_issuance) list" where
  "block_issuances bs = [(b, iss). b \<leftarrow> bs, tx \<leftarrow> cb_vtx b, iss \<leftarrow> ct_issuances tx]"

definition process_chunk :: "(protocol \<Rightarrow> warp_lib) \<Rightarrow> compact_block list \<Rightarrow> unit scan" where
  "process_chunk lib bs =
     andthen (for_each (\<lambda>(b, iss). send_issuance (lib OrchardProtocol) b iss) (block_issuances bs)) (\<lambda>_.
     andthen (add_sapling (lib SaplingProtocol) bs) (\<lambda>_.
     andthen (add_orchard (lib OrchardProtocol) bs) (\<lambda>_.
     andthen (add_ironwood (lib IronwoodProtocol) bs) (\<lambda>_.
     andthen (ensure (bs \<noteq> []) WarpPanic) (\<lambda>_.
     let lcb = last bs in
     andthen (send_message (MsgBlockHeader (block_height lcb) (cb_hash lcb) (cb_time lcb))) (\<lambda>_.
       send_message MsgCommit))))))"

text \<open>\<open>None\<close>: the messages have run out with no verdict.\<close>

fun consume :: "(protocol \<Rightarrow> warp_lib) \<Rightarrow> block_message list \<Rightarrow> scan_end option scan" where
  "consume lib [] = ret None"
| "consume lib (BlockChunk bs # ms) = andthen (process_chunk lib bs) (\<lambda>_. consume lib ms)"
| "consume lib (SaveHeader height hash time # ms) =
     andthen (send_message (MsgBlockHeader height hash time)) (\<lambda>_. consume lib ms)"
| "consume lib (CancelMessage # ms) = ret (Some ScanCancelled)"
| "consume lib (StallAbort reached # ms) = fail WarpError"
| "consume lib (Interrupted reached # ms) = fail WarpError"
| "consume lib (FailedMessage reached # ms) = fail WarpError"
| "consume lib (ReorgMessage accounts height # ms) =
     andthen (send_message (MsgRewind accounts height)) (\<lambda>_. ret (Some (ScanReorg (add32 height 1))))"

section \<open>The scan\<close>

definition no_keys :: "scanners \<Rightarrow> bool" where
  "no_keys w = (has_no_keys (sc_sapling w) \<and> has_no_keys (sc_orchard w)
     \<and> (case sc_ironwood w of None \<Rightarrow> True | Some sy \<Rightarrow> has_no_keys sy))"

text \<open>The scan with its scanners open; \<open>None\<close>: the reader still waits for its next event.\<close>

definition scan_blocks ::
  "(protocol \<Rightarrow> warp_lib) \<Rightarrow> reader_config \<Rightarrow> reader \<Rightarrow> reader_event list \<Rightarrow> scan_end option scan" where
  "scan_blocks lib rc rd events =
     andthen (gets no_keys) (\<lambda>nothing.
       if nothing then ret (Some ScanCompleted)
       else
         let (ms, over) = read_stream rc rd events
         in andthen (consume lib ms) (\<lambda>verdict. ret (case verdict of
              Some e \<Rightarrow> Some e
            | None \<Rightarrow> if over then Some ScanCompleted else None)))"

text \<open>The frontiers of the three trees; Ironwood is scanned where it is active.\<close>

record scan_env =
  se_lib :: "protocol \<Rightarrow> warp_lib"
  se_ivk :: "protocol \<Rightarrow> u32 \<Rightarrow> u8 \<Rightarrow> (blob \<times> blob option) option"
  se_decode :: "blob \<Rightarrow> witness option"
  se_activation :: "network_upgrade \<Rightarrow> u32 option"

definition open_scanners ::
  "scan_env \<Rightarrow> u32 \<Rightarrow> (u32 \<times> bool) list \<Rightarrow> (protocol \<Rightarrow> u32 \<times> edge) \<Rightarrow> db \<Rightarrow> scanners panics" where
  "open_scanners env start_height accounts frontier db =
     (let new = (\<lambda>p pool. synchronizer_new (se_decode env) (se_ivk env p) p pool start_height accounts (frontier p) db)
      in do {
        sap \<leftarrow> new SaplingProtocol 1;
        orch \<leftarrow> new OrchardProtocol 2;
        iron \<leftarrow> (if se_activation env Nu6_3_Upgrade \<noteq> None then map_option Some (new IronwoodProtocol 3) else Some None);
        Some \<lparr> sc_sapling = sap, sc_orchard = orch, sc_ironwood = iron, sc_sent = [] \<rparr>
      })"

definition frontier_hashes :: "u32 \<Rightarrow> (u32 \<times> bool) list \<Rightarrow> db \<Rightarrow> blob list" where
  "frontier_hashes start_height accounts db =
     List.map_filter (\<lambda>(account, _). header_hash account (sub32 start_height 1) db) accounts"

text \<open>What the scan returns, unless it still waits, and what it has sent to the writer.\<close>

definition warp_sync ::
  "scan_env \<Rightarrow> u32 \<Rightarrow> u32 \<Rightarrow> (u32 \<times> bool) list \<Rightarrow> u32 set \<Rightarrow> u32 \<Rightarrow> (protocol \<Rightarrow> u32 \<times> edge) \<Rightarrow> db
     \<Rightarrow> reader_event list \<Rightarrow> (warp_error + scan_end option) \<times> warp_message list" where
  "warp_sync env start_height end_height accounts no_time actions frontier db events =
     (case open_scanners env start_height accounts frontier db of
        None \<Rightarrow> (Inl WarpPanic, [])
      | Some w \<Rightarrow>
          let rc = \<lparr> rc_end = end_height, rc_actions = actions, rc_accounts = map fst accounts,
                rc_frontier = frontier_hashes start_height accounts db \<rparr>;
              (r, w') = scan_blocks (se_lib env) rc (reader_start start_height no_time) events w
          in (r, sc_sent w'))"

end
