(* ===== verification/Warp_Writer.thy ===== *)
theory Warp_Writer
  imports Warp_Sync Sync_Run
begin

text \<open>
  The shielded scan around the warp scanner (\<open>rust/src/sync/shielded.rs\<close>): the writer that
  records the messages of a scan in the chain log batch by batch, one range of heights, and the loop
  over the ranges that absorbs the reorgs. A range is the scanner and the writer together: the writer
  sees the messages in the order in which they were sent.
\<close>

section \<open>A message\<close>

text \<open>
  The encoding of a witness, the search for the diversifier index in the keys of an account, the
  activation heights, the frontier of an empty tree, and whether this is a debug build.
\<close>

record writer_env =
  we_encode :: "witness \<Rightarrow> blob"
  we_sapling_index :: "u32 \<Rightarrow> u8 \<Rightarrow> blob \<Rightarrow> int option"
  we_orchard_index :: "u32 \<Rightarrow> u8 \<Rightarrow> blob \<Rightarrow> int option"
  we_activation :: "network_upgrade \<Rightarrow> u32 option"
  we_empty_tree :: "u32 \<times> edge"
  we_debug :: bool

datatype writer_error = WriterPanic | WriterError | ScannerPanic | ScanFailed | ServerError | NoCheckpoint | ReorgLoop

definition resolve_diversifier_index :: "writer_env \<Rightarrow> u32 \<Rightarrow> u8 \<Rightarrow> u8 \<Rightarrow> blob \<Rightarrow> int option" where
  "resolve_diversifier_index env account pool scope diversifier =
     (if pool = 1 then we_sapling_index env account scope diversifier
      else if pool = 2 \<or> pool = 3 then we_orchard_index env account scope diversifier
      else None)"

definition write_note :: "writer_env \<Rightarrow> warp_note \<Rightarrow> db \<Rightarrow> writer_error + db" where
  "write_note env n db =
     (let (id_asset, db1) = asset_id_for_base (wn_asset n) (wn_height n) db
      in case transaction_ref (wn_account n) (wn_txid n) db1 of
           Inl _ \<Rightarrow> Inl WriterError
         | Inr (id_tx, _) \<Rightarrow>
             (case record_note (wn_account n)
                 \<lparr> nt_id_tx = id_tx, nt_height = wn_height n, nt_pool = wn_pool n, nt_scope = Some (wn_scope n),
                   nt_nullifier = wn_nf n, nt_value = as_i64 (wn_value n), nt_cmx = Some (wn_cmx n), nt_taddress = None,
                   nt_position = Some (wn_position n), nt_diversifier = Some (wn_diversifier n), nt_rcm = Some (wn_rcm n),
                   nt_rho = Some (wn_rho n), nt_locked = False, nt_id_asset = id_asset,
                   nt_diversifier_index = resolve_diversifier_index env (wn_account n) (wn_pool n) (wn_scope n)
                     (wn_diversifier n) \<rparr> db1 of
                (None, _) \<Rightarrow> Inl WriterError
              | (Some _, db2) \<Rightarrow> Inr db2))"

definition write_spend :: "utxo \<Rightarrow> db \<Rightarrow> writer_error + db" where
  "write_spend u db =
     (case transaction_ref (ut_account u) (ut_txid u) db of
        Inl _ \<Rightarrow> Inl WriterError
      | Inr (id_tx, height) \<Rightarrow>
          (case record_spend (ut_account u) \<lparr> si_note = ByCmx (ut_cmx u), si_id_tx = id_tx, si_height = height,
              si_pool = ut_pool u, si_value = wrap_i64 (- as_i64 (ut_value u)) \<rparr> db of
             Inl _ \<Rightarrow> Inl WriterError
           | Inr (recorded, db') \<Rightarrow> if recorded then Inr db' else Inl WriterError))"

definition write_header :: "u32 list \<Rightarrow> u32 \<Rightarrow> blob \<Rightarrow> u32 \<Rightarrow> db \<Rightarrow> db" where
  "write_header accounts height hash time db =
     fold (\<lambda>account db. set_block_time account height time False
         (record_relevant_header account \<lparr> hd_height = height, hd_hash = hash, hd_time = time \<rparr> db)) accounts db"

text \<open>A loop over accounts that stops at the first failure.\<close>

fun each_account :: "(u32 \<Rightarrow> db \<Rightarrow> writer_error + db) \<Rightarrow> u32 list \<Rightarrow> db \<Rightarrow> writer_error + db" where
  "each_account f [] db = Inr db"
| "each_account f (a # as) db = (case f a db of Inl e \<Rightarrow> Inl e | Inr db' \<Rightarrow> each_account f as db')"

definition write_checkpoint :: "u8 \<Rightarrow> u32 \<Rightarrow> u32 \<Rightarrow> db \<Rightarrow> writer_error + db" where
  "write_checkpoint pool height account db =
     (case checkpoint account pool height db of None \<Rightarrow> Inl WriterPanic | Some db' \<Rightarrow> Inr db')"

definition write_rewind :: "writer_env \<Rightarrow> u32 \<Rightarrow> u32 \<Rightarrow> db \<Rightarrow> writer_error + db" where
  "write_rewind env height account db =
     (case rewind_within (we_activation env) account height db of
        None \<Rightarrow> Inl WriterPanic
      | Some (Inl _) \<Rightarrow> Inl WriterError
      | Some (Inr db') \<Rightarrow> Inr db')"

fun handle_warp_message :: "writer_env \<Rightarrow> u32 list \<Rightarrow> warp_message \<Rightarrow> db \<Rightarrow> writer_error + db" where
  "handle_warp_message env accounts (MsgIssuance desc_hash ik asset_base finalized height) db =
     map_sum (\<lambda>_. WriterError) id (record_issuance \<lparr> iss_desc_hash = desc_hash, iss_ik = ik, iss_base = asset_base,
       iss_finalized = finalized, iss_height = height \<rparr> db)"
| "handle_warp_message env accounts (MsgTransaction account height time txid) db =
     Inr (snd (record_transaction account (transaction_chain txid height time) db))"
| "handle_warp_message env accounts (MsgNote n) db = write_note env n db"
| "handle_warp_message env accounts (MsgWitness account height cmx w) db =
     map_sum (\<lambda>_. WriterError) id (record_witness account (ByCmx cmx) height (we_encode env w) db)"
| "handle_warp_message env accounts (MsgSpend u) db = write_spend u db"
| "handle_warp_message env accounts (MsgCheckpoint as pool height) db = each_account (write_checkpoint pool height) as db"
| "handle_warp_message env accounts (MsgBlockHeader height hash time) db = Inr (write_header accounts height hash time db)"
| "handle_warp_message env accounts MsgCommit db = Inr db"
| "handle_warp_message env accounts (MsgRewind as height) db = each_account (write_rewind env height) as db"
| "handle_warp_message env accounts MsgError db = Inl WriterError"

section \<open>The writer\<close>

text \<open>One database transaction: a failure rolls all of it back.\<close>

fun write_batch :: "writer_env \<Rightarrow> u32 list \<Rightarrow> warp_message list \<Rightarrow> db \<Rightarrow> writer_error + db" where
  "write_batch env accounts [] db = Inr db"
| "write_batch env accounts (m # ms) db =
     (case handle_warp_message env accounts m db of Inl e \<Rightarrow> Inl e | Inr db' \<Rightarrow> write_batch env accounts ms db')"

fun is_commit :: "warp_message \<Rightarrow> bool" where
  "is_commit MsgCommit = True"
| "is_commit _ = False"

text \<open>The messages since the last commit, and the database: the writer waits for more.\<close>

fun db_writer ::
  "writer_env \<Rightarrow> u32 list \<Rightarrow> warp_message list \<Rightarrow> db \<Rightarrow> warp_message list \<Rightarrow> (writer_error + warp_message list) \<times> db" where
  "db_writer env accounts pending db [] = (Inr pending, db)"
| "db_writer env accounts pending db (m # ms) =
     (if is_commit m
      then case write_batch env accounts pending db of
             Inl e \<Rightarrow> (Inl e, db)
           | Inr db' \<Rightarrow> db_writer env accounts [] db' ms
      else db_writer env accounts (pending @ [m]) db ms)"

definition check_witness_consistency :: "writer_env \<Rightarrow> u32 list \<Rightarrow> db \<Rightarrow> writer_error + unit" where
  "check_witness_consistency env accounts db =
     (if we_debug env \<and> notes_missing_witness accounts db \<noteq> [] then Inl WriterError else Inr ())"

text \<open>The channel is closed: what is left is the last batch.\<close>

definition close_writer :: "writer_env \<Rightarrow> u32 list \<Rightarrow> warp_message list \<Rightarrow> db \<Rightarrow> (writer_error + unit) \<times> db" where
  "close_writer env accounts pending db =
     (case write_batch env accounts pending db of
        Inl e \<Rightarrow> (Inl e, db)
      | Inr db' \<Rightarrow> (check_witness_consistency env accounts db', db'))"

section \<open>A range\<close>

datatype range_end = RangeCompleted | RangeCancelled | RangeReorg u32 u32

fun min_option :: "u32 option \<Rightarrow> u32 option \<Rightarrow> u32 option" where
  "min_option (Some a) (Some b) = Some (min a b)"
| "min_option None b = b"
| "min_option a None = a"

definition restart_height :: "u32 list \<Rightarrow> db \<Rightarrow> u32 option" where
  "restart_height accounts db =
     map_option (\<lambda>h. add32 h 1) (fold (\<lambda>account lowest. min_option lowest (account_min_height account db)) accounts None)"

text \<open>What the server answers to one range: the frontiers below it, and its stream of blocks.\<close>

record server_answer =
  sv_trees :: "(protocol \<Rightarrow> u32 \<times> edge) option"
  sv_events :: "reader_event list option"

definition get_tree_state :: "writer_env \<Rightarrow> server_answer \<Rightarrow> u32 \<Rightarrow> (protocol \<Rightarrow> u32 \<times> edge) option panics" where
  "get_tree_state env sv height =
     map_option (\<lambda>min_height. if height < min_height then Some (\<lambda>_. we_empty_tree env) else sv_trees sv)
       (we_activation env Sapling_Upgrade)"

text \<open>
  The end of a range with the database it leaves; \<open>None\<close>: the scanner still waits. A scan that fails
  tells the writer; a scan that panics only drops the channel.
\<close>

definition run_range ::
  "writer_env \<Rightarrow> u32 list \<Rightarrow> warp_error + scan_end option \<Rightarrow> warp_message list \<Rightarrow> db
     \<Rightarrow> ((writer_error + range_end) \<times> db) option" where
  "run_range env accounts scan messages db =
     (case db_writer env accounts [] db (messages @ (if scan = Inl WarpError then [MsgError] else [])) of
        (Inl e, db') \<Rightarrow> Some (Inl e, db')
      | (Inr pending, db1) \<Rightarrow>
          if scan = Inr None then None
          else
            let (closed, db') = close_writer env accounts pending db1
            in Some ((case closed of
                 Inl e \<Rightarrow> Inl e
               | Inr _ \<Rightarrow> (case scan of
                     Inl WarpPanic \<Rightarrow> Inl ScannerPanic
                   | Inl WarpError \<Rightarrow> Inl ScanFailed
                   | Inr (Some ScanCancelled) \<Rightarrow> Inr RangeCancelled
                   | Inr (Some (ScanReorg detected_at)) \<Rightarrow>
                       (case restart_height accounts db' of
                          None \<Rightarrow> Inl NoCheckpoint
                        | Some restart_from \<Rightarrow> Inr (RangeReorg detected_at restart_from))
                   | _ \<Rightarrow> Inr RangeCompleted)), db'))"

definition shielded_sync_range ::
  "scan_env \<Rightarrow> writer_env \<Rightarrow> server_answer \<Rightarrow> (u32 \<times> bool) list \<Rightarrow> u32 \<Rightarrow> u32 \<Rightarrow> u32 \<Rightarrow> db
     \<Rightarrow> ((writer_error + range_end) \<times> db) option" where
  "shielded_sync_range senv env sv accounts start end' actions db =
     (case get_tree_state env sv (sub32 start 1) of
        None \<Rightarrow> Some (Inl ServerError, db)
      | Some None \<Rightarrow> Some (Inl ServerError, db)
      | Some (Some trees) \<Rightarrow>
          (case sv_events sv of
             None \<Rightarrow> Some (Inl ServerError, db)
           | Some events \<Rightarrow>
               let no_time = get_heights_without_time (map fst accounts) start end' db;
                   (scan, messages) = warp_sync senv start end' accounts no_time actions trees db events
               in run_range env (map fst accounts) scan messages db))"

section \<open>The ranges\<close>

text \<open>\<open>range\<close> runs one range in the state \<open>'w\<close>; \<open>cancelled\<close> reads the cancellation in it.\<close>

definition chunk_end :: "u32 \<Rightarrow> u32 \<Rightarrow> u32 \<Rightarrow> u32" where
  "chunk_end chunk_start chunk_size end' = min (sat_add32 chunk_start (chunk_size - 1)) end'"

partial_function (option) sync_ranges ::
  "(u32 \<Rightarrow> u32 \<Rightarrow> 'w \<Rightarrow> ((writer_error + range_end) \<times> 'w) option) \<Rightarrow> ('w \<Rightarrow> bool) \<Rightarrow> u32 \<Rightarrow> u32 \<Rightarrow> u32
     \<Rightarrow> u32 \<Rightarrow> u32 option \<Rightarrow> 'w \<Rightarrow> ((writer_error + unit) \<times> 'w) option" where
  "sync_ranges scan_range cancelled start end' chunk_size chunk_start last_reorg w =
     Option.bind (scan_range chunk_start (chunk_end chunk_start chunk_size end') w) (\<lambda>(r, w').
       case r of
         Inl e \<Rightarrow> Some (Inl e, w')
       | Inr RangeCancelled \<Rightarrow> Some (Inr (), w')
       | Inr (RangeReorg detected_at restart_from) \<Rightarrow>
           if (case last_reorg of None \<Rightarrow> False | Some previous \<Rightarrow> previous \<le> detected_at) then Some (Inl ReorgLoop, w')
           else sync_ranges scan_range cancelled start end' chunk_size (max restart_from start) (Some detected_at) w'
       | Inr RangeCompleted \<Rightarrow>
           if end' \<le> chunk_end chunk_start chunk_size end' then Some (Inr (), w')
           else if cancelled w' then Some (Inr (), w')
           else sync_ranges scan_range cancelled start end' chunk_size
             (add32 (chunk_end chunk_start chunk_size end') 1) last_reorg w')"

text \<open>The state of a run: the database, and how many ranges the server was asked.\<close>

record sync_run =
  sr_db :: db
  sr_asked :: nat

definition run_scan_range ::
  "scan_env \<Rightarrow> writer_env \<Rightarrow> (nat \<Rightarrow> u32 \<Rightarrow> u32 \<Rightarrow> server_answer) \<Rightarrow> (u32 \<times> bool) list \<Rightarrow> u32 \<Rightarrow> u32 \<Rightarrow> u32 \<Rightarrow> sync_run
     \<Rightarrow> ((writer_error + range_end) \<times> sync_run) option" where
  "run_scan_range senv env server accounts actions start end' w =
     map_option (map_prod id (\<lambda>db. \<lparr> sr_db = db, sr_asked = sr_asked w + 1 \<rparr>))
       (shielded_sync_range senv env (server (sr_asked w) start end') accounts start end' actions (sr_db w))"

definition shielded_sync ::
  "scan_env \<Rightarrow> writer_env \<Rightarrow> (nat \<Rightarrow> u32 \<Rightarrow> u32 \<Rightarrow> server_answer) \<Rightarrow> (nat \<Rightarrow> bool) \<Rightarrow> (u32 \<times> bool) list \<Rightarrow> u32 \<Rightarrow> u32
     \<Rightarrow> u32 \<Rightarrow> u32 option \<Rightarrow> db \<Rightarrow> ((writer_error + unit) \<times> sync_run) option panics" where
  "shielded_sync senv env server cancelled accounts start end' actions chunk_blocks db =
     map_option (\<lambda>activation_height.
         let start = max start activation_height; end' = max end' activation_height;
             chunk_size = max (case chunk_blocks of None \<Rightarrow> u32_max | Some n \<Rightarrow> n) 1
         in sync_ranges (run_scan_range senv env server accounts actions) (cancelled \<circ> sr_asked) start end' chunk_size
              start None \<lparr> sr_db = db, sr_asked = 0 \<rparr>)
       (we_activation env Sapling_Upgrade)"

end
