(* ===== verification/Warp_Tree.thy ===== *)
theory Warp_Tree
  imports Warp_Scan
begin

text \<open>
  The commitment tree that the scanner follows, as a function of the list of all commitments, and
  the proof that a step of the scanner moves its level of every witness and of the edge from the
  tree before the chunk to the tree after it.
\<close>

section \<open>The tree\<close>

type_synonym hash = "nat \<Rightarrow> blob \<Rightarrow> blob \<Rightarrow> blob"

text \<open>The \<open>k\<close>-th node of a level, and how many of them are complete.\<close>

fun node :: "hash \<Rightarrow> blob list \<Rightarrow> nat \<Rightarrow> nat \<Rightarrow> blob" where
  "node h L 0 k = L ! k"
| "node h L (Suc d) k = h d (node h L d (2 * k)) (node h L d (2 * k + 1))"

definition complete_nodes :: "blob list \<Rightarrow> nat \<Rightarrow> nat" where
  "complete_nodes L d = length L div 2 ^ d"

definition sibling :: "nat \<Rightarrow> nat" where
  "sibling k = (if even k then k + 1 else k - 1)"

text \<open>An ommer is known as soon as its node is complete, and the edge keeps the node without a sibling.\<close>

definition ommer_at :: "hash \<Rightarrow> blob list \<Rightarrow> nat \<Rightarrow> nat \<Rightarrow> blob option" where
  "ommer_at h L d pos = (let s = sibling (pos div 2 ^ d) in
     if s < complete_nodes L d then Some (node h L d s) else None)"

definition edge_at :: "hash \<Rightarrow> blob list \<Rightarrow> nat \<Rightarrow> blob option" where
  "edge_at h L d = (let n = complete_nodes L d in if odd n then Some (node h L d (n - 1)) else None)"

definition combines :: "warp_lib \<Rightarrow> hash \<Rightarrow> bool" where
  "combines lib h = (\<forall>d nodes n. None \<notin> set nodes \<longrightarrow> 2 * n \<le> length nodes \<longrightarrow>
     wl_combine lib d nodes n = map (\<lambda>i. Some (h d (the (nodes ! (2 * i))) (the (nodes ! (2 * i + 1))))) [0..<n])"

lemma complete_Suc: "complete_nodes L (Suc d) = complete_nodes L d div 2"
  by (simp add: complete_nodes_def power_Suc2 div_mult2_eq del: power_Suc)

lemma complete_append: "complete_nodes L d \<le> complete_nodes (L @ M) d"
  by (simp add: complete_nodes_def div_le_mono)

lemma node_append: "k < complete_nodes L d \<Longrightarrow> node h (L @ M) d k = node h L d k"
proof (induction d arbitrary: k)
  case 0
  then show ?case by (simp add: complete_nodes_def nth_append)
next
  case (Suc d)
  then have "2 * k + 1 < complete_nodes L d" by (simp add: complete_Suc)
  then show ?case using Suc.IH [of "2 * k"] Suc.IH [of "2 * k + 1"] by simp
qed

lemma ancestor_le: "pos < length L \<Longrightarrow> pos div 2 ^ d \<le> complete_nodes L d"
  by (simp add: complete_nodes_def div_le_mono)

section \<open>A level\<close>

text \<open>The chunk adds \<open>M\<close> to \<open>L\<close>; the nodes of a level from the even start to the last complete one.\<close>

definition level_start :: "blob list \<Rightarrow> nat \<Rightarrow> nat" where
  "level_start L d = 2 * complete_nodes L (Suc d)"

definition full_level :: "hash \<Rightarrow> blob list \<Rightarrow> blob list \<Rightarrow> nat \<Rightarrow> blob option list" where
  "full_level h L M d = map (\<lambda>k. Some (node h (L @ M) d k)) [level_start L d..<complete_nodes (L @ M) d]"

definition above :: "hash \<Rightarrow> blob list \<Rightarrow> blob list \<Rightarrow> nat \<Rightarrow> blob option list" where
  "above h L M d = (if d = 0 then []
     else map (\<lambda>k. Some (node h (L @ M) d k)) [complete_nodes L d..<complete_nodes (L @ M) d])"

definition moved :: "hash \<Rightarrow> blob list \<Rightarrow> blob list \<Rightarrow> nat \<Rightarrow> nat \<Rightarrow> utxo \<Rightarrow> bool" where
  "moved h L M D d u = (\<forall>e < D. wi_ommers (ut_witness u) e = ommer_at h (if e < d then L @ M else L) e (ut_position u))"

definition leaf_ok :: "blob list \<Rightarrow> utxo \<Rightarrow> bool" where
  "leaf_ok L u = (wi_position (ut_witness u) = ut_position u \<and> wi_value (ut_witness u) = L ! ut_position u)"

definition new_moved :: "hash \<Rightarrow> blob list \<Rightarrow> blob list \<Rightarrow> nat \<Rightarrow> utxo \<Rightarrow> bool" where
  "new_moved h L M d u = ((\<forall>e < d. wi_ommers (ut_witness u) e = ommer_at h (L @ M) e (ut_position u))
     \<and> (0 < d \<longrightarrow> leaf_ok (L @ M) u))"

definition level_ok :: "hash \<Rightarrow> blob list \<Rightarrow> blob list \<Rightarrow> nat \<Rightarrow> utxo list \<Rightarrow> utxo list \<Rightarrow> nat \<Rightarrow> level \<Rightarrow> bool" where
  "level_ok h L M D new old d lv = (lv_nodes lv = above h L M d
     \<and> (\<forall>e < D. lv_tree lv e = edge_at h (if e < d then L @ M else L) e)
     \<and> list_all2 (\<lambda>u v. v\<lparr> ut_witness := ut_witness u \<rparr> = u \<and> new_moved h L M d v) new (lv_new lv)
     \<and> list_all2 (\<lambda>u v. v\<lparr> ut_witness := ut_witness u \<rparr> = u \<and> wi_position (ut_witness v) = wi_position (ut_witness u)
         \<and> wi_value (ut_witness v) = wi_value (ut_witness u) \<and> moved h L M D d v) old (lv_old lv))"

lemma level_start_le: "level_start L d \<le> complete_nodes L d"
  by (simp add: level_start_def complete_Suc)

lemma level_start_cases:
  "level_start L d = (if odd (complete_nodes L d) then complete_nodes L d - 1 else complete_nodes L d)"
  by (auto simp: level_start_def complete_Suc elim!: oddE evenE)

lemma even_level_start [simp]: "even (level_start L d)"
  by (simp add: level_start_def)

lemma full_level_nth:
  "i < complete_nodes (L @ M) d - level_start L d \<Longrightarrow> full_level h L M d ! i = Some (node h (L @ M) d (level_start L d + i))"
  by (simp add: full_level_def)

lemma full_level_length [simp]: "length (full_level h L M d) = complete_nodes (L @ M) d - level_start L d"
  by (simp add: full_level_def)

lemma node_at_full:
  "level_start L d \<le> k \<Longrightarrow> k < complete_nodes (L @ M) d \<Longrightarrow>
   node_at (full_level h L M d) (k - level_start L d) = Some (node h (L @ M) d k)"
  by (simp add: node_at_def full_level_nth)

lemma append_nodes:
  "above h L M d @ (if d = 0 then map Some M else []) =
     map (\<lambda>k. Some (node h (L @ M) d k)) [complete_nodes L d..<complete_nodes (L @ M) d]"
proof (cases "d = 0")
  case True
  have "M = map (\<lambda>k. (L @ M) ! k) [length L..<length L + length M]"
    by (rule nth_equalityI) (simp_all add: nth_append)
  then have "map Some M = map (\<lambda>k. Some ((L @ M) ! k)) [length L..<length L + length M]"
    by (metis (no_types, lifting) list.map_comp map_eq_conv o_apply)
  then show ?thesis using True by (simp add: above_def complete_nodes_def)
qed (simp add: above_def)

lemma level_nodes_full:
  assumes ok: "level_ok h L M D new old d lv" and "d < D"
  shows "level_nodes d (length L) M lv = Some (level_start L d, full_level h L M d)"
proof -
  let ?n = "complete_nodes L d" and ?n' = "complete_nodes (L @ M) d"
  have t: "lv_tree lv d = edge_at h L d" using ok \<open>d < D\<close> by (auto simp: level_ok_def)
  have p: "length L div 2 ^ d = ?n" by (simp add: complete_nodes_def)
  have le: "?n \<le> ?n'" by (rule complete_append)
  have a: "lv_nodes lv @ (if d = 0 then map Some M else []) = map (\<lambda>k. Some (node h (L @ M) d k)) [?n..<?n']"
    using ok append_nodes [of h L M d] by (simp add: level_ok_def)
  show ?thesis
  proof (cases "odd ?n")
    case True
    then have s: "level_start L d = ?n - 1" "0 < ?n" by (auto simp: level_start_cases intro: odd_pos)
    have "lv_tree lv d = Some (node h (L @ M) d (?n - 1))"
      using True s t node_append [of "?n - 1" L d h M] by (simp add: edge_at_def Let_def)
    moreover have "[?n - 1..<?n'] = (?n - 1) # [?n..<?n']"
      using s(2) le by (cases ?n) (simp_all add: upt_conv_Cons)
    ultimately show ?thesis
      using True s a by (simp add: level_nodes_def full_level_def p Let_def)
  next
    case False
    then show ?thesis
      using a by (simp add: level_nodes_def full_level_def p Let_def level_start_cases)
  qed
qed

section \<open>A witness\<close>

lemma old_ommer_moves:
  assumes "ut_position u < length L" and "moved h L M D d u" and "d < D"
  shows "\<exists>v. old_ommer d (full_level h L M d) u = Some v \<and> v\<lparr> ut_witness := ut_witness u \<rparr> = u
    \<and> wi_position (ut_witness v) = wi_position (ut_witness u)
    \<and> wi_value (ut_witness v) = wi_value (ut_witness u) \<and> moved h L M D (Suc d) v"
proof -
  let ?n = "complete_nodes L d" and ?n' = "complete_nodes (L @ M) d"
  let ?k = "ut_position u div 2 ^ d" and ?s = "sibling (ut_position u div 2 ^ d)"
  have now: "wi_ommers (ut_witness u) d = ommer_at h L d (ut_position u)"
    using assms(2,3) by (simp add: moved_def)
  have rest: "wi_ommers (ut_witness u) e = ommer_at h (if e < Suc d then L @ M else L) e (ut_position u)"
    if "e < D" "e \<noteq> d" for e
    using assms(2) that by (auto simp: moved_def)
  have k: "?k \<le> ?n" using assms(1) by (rule ancestor_le)
  have le: "?n \<le> ?n'" by (rule complete_append)
  show ?thesis
  proof (cases "?s < ?n")
    case True
    then have "ommer_at h (L @ M) d (ut_position u) = ommer_at h L d (ut_position u)"
      using le node_append [of ?s L d h M] by (simp add: ommer_at_def Let_def)
    moreover have "wi_ommers (ut_witness u) d \<noteq> None" using True now by (simp add: ommer_at_def Let_def)
    ultimately show ?thesis
      using now rest by (auto simp: old_ommer_def moved_def) (metis less_antisym less_Suc_eq)+
  next
    case False
    then have ev: "even ?k"
      using k by (cases "even ?k") (auto simp: sibling_def elim: oddE)
    have s: "level_start L d = ?k" "?s = ?k + 1"
      using ev k False by (auto simp: level_start_cases sibling_def elim!: evenE oddE)
    have none: "wi_ommers (ut_witness u) d = None" using now False by (simp add: ommer_at_def Let_def)
    show ?thesis
    proof (cases "?s < ?n'")
      case True
      have "node_at (full_level h L M d) 1 = Some (node h (L @ M) d ?s)"
        using node_at_full [of L d ?s M h] s True by simp
      moreover have "ommer_at h (L @ M) d (ut_position u) = Some (node h (L @ M) d ?s)"
        using True by (simp add: ommer_at_def Let_def)
      moreover have "2 \<le> ?n' - level_start L d" using s True by simp
      ultimately show ?thesis
        using none rest by (auto simp: old_ommer_def set_ommer_def moved_def)
    next
      case f: False
      have "ommer_at h (L @ M) d (ut_position u) = None" using f by (simp add: ommer_at_def Let_def)
      moreover have "\<not> 2 \<le> ?n' - level_start L d" using s f by simp
      ultimately show ?thesis
        using none rest by (auto simp: old_ommer_def moved_def) (metis less_antisym less_Suc_eq)+
    qed
  qed
qed

lemma new_ommer_moves:
  assumes "length L \<le> ut_position u" and "ut_position u < length (L @ M)" and "length (L @ M) < 2 ^ 32"
    and "new_moved h L M d u"
  shows "\<exists>v. new_ommer d (level_start L d) (full_level h L M d) u = Some v
    \<and> v\<lparr> ut_witness := ut_witness u \<rparr> = u \<and> new_moved h L M (Suc d) v"
proof -
  let ?n' = "complete_nodes (L @ M) d" and ?k = "ut_position u div 2 ^ d" and ?f = "full_level h L M d"
  have k: "level_start L d \<le> ?k" "?k \<le> ?n'"
    using level_start_le [of L d] assms(1) ancestor_le [OF assms(2), of d]
    by (auto simp: complete_nodes_def div_le_mono intro: order_trans)
  have "?k < 2 ^ 32" using assms(2,3) by (meson div_le_dividend le_less_trans less_trans)
  then have i: "sub32 ?k (level_start L d) = ?k - level_start L d"
    using k(1) by (intro sub32_exact) auto
  obtain w where w: "leaf_witness d ?f ?k (?k - level_start L d) u = Some w"
    "w\<lparr> ut_witness := ut_witness u \<rparr> = u" "wi_ommers (ut_witness w) = wi_ommers (ut_witness u)"
    "ut_position w = ut_position u" "leaf_ok (L @ M) w"
  proof (cases "d = 0")
    case True
    then have "node_at ?f (?k - level_start L d) = Some ((L @ M) ! ut_position u)"
      using node_at_full [of L d ?k M h] k assms(2) by (simp add: complete_nodes_def)
    then show thesis
      using True by (intro that [of "u\<lparr> ut_witness := (ut_witness u)\<lparr> wi_position := ?k,
        wi_value := (L @ M) ! ut_position u \<rparr> \<rparr>"]) (simp_all add: leaf_witness_def leaf_ok_def)
  next
    case False
    then show thesis using assms(4) that [of u] by (simp add: leaf_witness_def new_moved_def)
  qed
  have set: "\<exists>v. set_ommer d x w = v \<and> v\<lparr> ut_witness := ut_witness u \<rparr> = u \<and> new_moved h L M (Suc d) v"
    if "x = ommer_at h (L @ M) d (ut_position u)" for x
    using w assms(4) that
    by (auto simp: set_ommer_def new_moved_def leaf_ok_def less_Suc_eq)
  have par: "even (?k - level_start L d) = even ?k" using k(1) by simp
  show ?thesis
  proof (cases "even ?k")
    case True
    then have s: "sibling ?k = ?k + 1" by (simp add: sibling_def)
    show ?thesis
    proof (cases "?k + 1 < ?n'")
      case t: True
      then have "node_at ?f (?k - level_start L d + 1) = Some (node h (L @ M) d (?k + 1))"
        using node_at_full [of L d "?k + 1" M h] k by (simp add: Suc_diff_le)
      moreover have "ommer_at h (L @ M) d (ut_position u) = Some (node h (L @ M) d (?k + 1))"
        using s t by (simp add: ommer_at_def Let_def)
      moreover have "?k - level_start L d + 1 < ?n' - level_start L d" using t k by simp
      ultimately show ?thesis
        using True par i w set by (simp add: new_ommer_def Let_def)
    next
      case f: False
      then have "ommer_at h (L @ M) d (ut_position u) = None"
        using s by (simp add: ommer_at_def Let_def)
      moreover have "\<not> ?k - level_start L d + 1 < ?n' - level_start L d" using f k by simp
      ultimately show ?thesis
        using True par i w set by (simp add: new_ommer_def Let_def)
    qed
  next
    case False
    then have s: "sibling ?k = ?k - 1" "0 < ?k" by (auto simp: sibling_def intro: odd_pos)
    have l: "level_start L d \<le> ?k - 1" "?k - 1 < ?n'"
    proof -
      have "level_start L d \<noteq> ?k" using False even_level_start [of L d] by metis
      then show "level_start L d \<le> ?k - 1" "?k - 1 < ?n'" using k s(2) by linarith+
    qed
    then have "node_at ?f (?k - level_start L d - 1) = Some (node h (L @ M) d (?k - 1))"
      using node_at_full [of L d "?k - 1" M h] by (simp add: diff_right_commute)
    moreover have "ommer_at h (L @ M) d (ut_position u) = Some (node h (L @ M) d (?k - 1))"
      using s l by (simp add: ommer_at_def Let_def)
    ultimately show ?thesis
      using False par i w set by (simp add: new_ommer_def Let_def)
  qed
qed

section \<open>All levels\<close>

lemma those_map:
  assumes "\<And>x. x \<in> set xs \<Longrightarrow> \<exists>y. f x = Some y \<and> R x y"
  shows "\<exists>ys. those (map f xs) = Some ys \<and> list_all2 R xs ys"
  using assms
proof (induction xs)
  case (Cons x xs)
  obtain y where "f x = Some y" "R x y" using Cons.prems by auto
  moreover obtain ys where "those (map f xs) = Some ys" "list_all2 R xs ys" using Cons by auto
  ultimately show ?case by (intro exI [of _ "y # ys"]) simp
qed simp

lemma same_utxo_trans:
  fixes x y z :: utxo
  shows "z\<lparr> ut_witness := a \<rparr> = y \<Longrightarrow> y\<lparr> ut_witness := b \<rparr> = x \<Longrightarrow> z\<lparr> ut_witness := b \<rparr> = x"
  by (cases z) auto

lemma combine_full:
  assumes "combines lib h"
  shows "wl_combine lib d (full_level h L M d) (length (full_level h L M d) div 2) = above h L M (Suc d)"
proof -
  let ?n' = "complete_nodes (L @ M) d" and ?s = "level_start L d" and ?f = "full_level h L M d"
  have len: "length ?f div 2 = complete_nodes (L @ M) (Suc d) - complete_nodes L (Suc d)"
    using complete_append [of L "Suc d" M] by (simp add: level_start_def complete_Suc [of "L @ M"])
  have pair: "the (?f ! i) = node h (L @ M) d (?s + i)" if "i < length ?f" for i
    using that by (simp add: full_level_nth)
  have "None \<notin> set ?f" by (auto simp: full_level_def)
  then have "wl_combine lib d ?f (length ?f div 2) =
      map (\<lambda>i. Some (h d (the (?f ! (2 * i))) (the (?f ! (2 * i + 1))))) [0..<length ?f div 2]"
    using assms by (simp add: combines_def)
  also have "\<dots> = map (\<lambda>i. Some (node h (L @ M) (Suc d) (complete_nodes L (Suc d) + i))) [0..<length ?f div 2]"
  proof (rule map_cong [OF refl])
    fix i assume "i \<in> set [0..<length ?f div 2]"
    then have "2 * i + 1 < length ?f" by simp
    then show "Some (h d (the (?f ! (2 * i))) (the (?f ! (2 * i + 1)))) =
        Some (node h (L @ M) (Suc d) (complete_nodes L (Suc d) + i))"
      using pair [of "2 * i"] pair [of "2 * i + 1"] by (simp add: level_start_def algebra_simps)
  qed
  also have "\<dots> = above h L M (Suc d)"
    unfolding len above_def
    by (rule nth_equalityI) (simp_all add: complete_append)
  finally show ?thesis .
qed

lemma edge_moves:
  "(if odd (length (full_level h L M d)) then full_level h L M d ! (length (full_level h L M d) - 1) else None)
     = edge_at h (L @ M) d"
proof -
  let ?n' = "complete_nodes (L @ M) d" and ?s = "level_start L d"
  have "?s \<le> ?n'" using level_start_le complete_append order_trans by blast
  then have par: "odd (?n' - ?s) = odd ?n'" by simp
  show ?thesis
  proof (cases "odd ?n'")
    case True
    then have "0 < ?n' - ?s" using par by (metis odd_pos)
    then show ?thesis using True par
      by (simp add: full_level_nth edge_at_def Let_def)
  qed (use par in \<open>simp add: edge_at_def Let_def\<close>)
qed

lemma level_step_moves:
  assumes c: "combines lib h" and ok: "level_ok h L M D new old d lv" and d: "d < D"
    and new: "\<forall>u \<in> set new. length L \<le> ut_position u \<and> ut_position u < length (L @ M)"
    and old: "\<forall>u \<in> set old. ut_position u < length L" and len: "length (L @ M) < 2 ^ 32"
  shows "\<exists>lv'. level_step lib (length L) M lv d = Some lv' \<and> level_ok h L M D new old (Suc d) lv'"
proof -
  let ?f = "full_level h L M d"
  let ?N = "\<lambda>d u v. v\<lparr> ut_witness := ut_witness u \<rparr> = u \<and> new_moved h L M d v"
  let ?O = "\<lambda>d u v. v\<lparr> ut_witness := ut_witness u \<rparr> = u \<and> wi_position (ut_witness v) = wi_position (ut_witness u)
         \<and> wi_value (ut_witness v) = wi_value (ut_witness u) \<and> moved h L M D d v"
  have all: "list_all2 (?N d) new (lv_new lv)" "list_all2 (?O d) old (lv_old lv)"
    using ok by (auto simp: level_ok_def)
  have step: "list_all2 R xs zs" if "list_all2 P xs ys" "list_all2 Q ys zs"
    "\<And>x y z. x \<in> set xs \<Longrightarrow> P x y \<Longrightarrow> Q y z \<Longrightarrow> R x z" for P Q R and xs :: "utxo list" and ys :: "utxo list" and zs :: "utxo list"
    using that by (auto simp: list_all2_conv_all_nth)
  have pos: "ut_position v = ut_position u" if "v\<lparr> ut_witness := x \<rparr> = u" for u v :: utxo and x
    using that by (cases v) auto
  have "\<exists>w. new_ommer d (level_start L d) ?f v = Some w \<and> w\<lparr> ut_witness := ut_witness v \<rparr> = v \<and> new_moved h L M (Suc d) w"
    if v: "v \<in> set (lv_new lv)" for v
  proof -
    obtain i where i: "i < length new" "v = lv_new lv ! i" using v all(1)
      by (auto simp: in_set_conv_nth list_all2_conv_all_nth)
    then have "?N d (new ! i) v" using all(1) by (auto simp: list_all2_conv_all_nth)
    then show ?thesis
      using new i(1) pos [of _ v "new ! i"] len nth_mem [OF i(1)] by (intro new_ommer_moves) auto
  qed
  from those_map [of "lv_new lv" _ "\<lambda>v w. w\<lparr> ut_witness := ut_witness v \<rparr> = v \<and> new_moved h L M (Suc d) w", OF this] obtain new' where n: "those (map (new_ommer d (level_start L d) ?f) (lv_new lv)) = Some new'"
    "list_all2 (\<lambda>v w. w\<lparr> ut_witness := ut_witness v \<rparr> = v \<and> new_moved h L M (Suc d) w) (lv_new lv) new'" by blast
  have "\<exists>w. old_ommer d ?f v = Some w \<and> ?O (Suc d) v w" if v: "v \<in> set (lv_old lv)" for v
  proof -
    obtain i where i: "i < length old" "v = lv_old lv ! i" using v all(2)
      by (auto simp: in_set_conv_nth list_all2_conv_all_nth)
    then have "?O d (old ! i) v" using all(2) by (auto simp: list_all2_conv_all_nth)
    then show ?thesis
      using old pos [of _ v "old ! i"] nth_mem [OF i(1)] d by (intro old_ommer_moves) auto
  qed
  from those_map [of "lv_old lv" _ "?O (Suc d)", OF this] obtain old' where o: "those (map (old_ommer d ?f) (lv_old lv)) = Some old'"
    "list_all2 (?O (Suc d)) (lv_old lv) old'" by blast
  have "list_all2 (?N (Suc d)) new new'"
    by (rule step [OF all(1) n(2)]) (elim conjE, intro conjI; (erule (1) same_utxo_trans | simp))
  moreover have "list_all2 (?O (Suc d)) old old'"
    by (rule step [OF all(2) o(2)]) (elim conjE, intro conjI; (erule (1) same_utxo_trans | simp))
  ultimately show ?thesis
    using n(1) o(1) ok level_nodes_full [OF ok d] combine_full [OF c] edge_moves [of h L M d]
    by (auto simp: level_step_def level_ok_def less_Suc_eq)
qed

lemma all_levels_move:
  assumes "combines lib h" and "d \<le> D" and "level_ok h L M D new old 0 lv"
    and "\<forall>u \<in> set new. length L \<le> ut_position u \<and> ut_position u < length (L @ M)"
    and "\<forall>u \<in> set old. ut_position u < length L" and "length (L @ M) < 2 ^ 32"
  shows "\<exists>lv'. foldM (level_step lib (length L) M) lv [0..<d] = Some lv' \<and> level_ok h L M D new old d lv'"
  using assms(2)
proof (induction d)
  case 0
  then show ?case using assms(3) by simp
next
  case (Suc d)
  then obtain lv' where "foldM (level_step lib (length L) M) lv [0..<d] = Some lv'" "level_ok h L M D new old d lv'"
    by auto
  then show ?case
    using level_step_moves [OF assms(1) _ _ assms(4-6)] Suc.prems by (simp add: foldM_snoc)
qed

section \<open>The witnesses of a chunk\<close>

definition witness_ok :: "hash \<Rightarrow> nat \<Rightarrow> blob list \<Rightarrow> utxo \<Rightarrow> bool" where
  "witness_ok h D L u = (ut_position u < length L \<and> wi_position (ut_witness u) = ut_position u
     \<and> wi_value (ut_witness u) = ut_cmx u \<and> ut_cmx u = L ! ut_position u
     \<and> (\<forall>d < D. wi_ommers (ut_witness u) d = ommer_at h L d (ut_position u)))"

definition tree_ok :: "hash \<Rightarrow> nat \<Rightarrow> blob list \<Rightarrow> edge \<Rightarrow> bool" where
  "tree_ok h D L t = (\<forall>d < D. t d = edge_at h L d)"

text \<open>Before its levels a new output knows its place and its commitment only.\<close>

definition new_ok :: "blob list \<Rightarrow> blob list \<Rightarrow> utxo \<Rightarrow> bool" where
  "new_ok L M u = (length L \<le> ut_position u \<and> ut_position u < length (L @ M) \<and> ut_cmx u = (L @ M) ! ut_position u)"

lemma levels_ok:
  assumes "combines lib h" and "tree_ok h (wl_depth lib) L t" and "\<forall>u \<in> set old. witness_ok h (wl_depth lib) L u"
    and "\<forall>u \<in> set new. new_ok L M u" and "length (L @ M) < 2 ^ 32" and "0 < wl_depth lib"
  shows "\<exists>lv. foldM (level_step lib (length L) M)
      \<lparr> lv_nodes = [], lv_new = new, lv_old = old, lv_tree = t \<rparr> [0..<wl_depth lib] = Some lv
    \<and> tree_ok h (wl_depth lib) (L @ M) (lv_tree lv)
    \<and> list_all2 (\<lambda>u v. v\<lparr> ut_witness := ut_witness u \<rparr> = u \<and> witness_ok h (wl_depth lib) (L @ M) v) new (lv_new lv)
    \<and> list_all2 (\<lambda>u v. v\<lparr> ut_witness := ut_witness u \<rparr> = u \<and> witness_ok h (wl_depth lib) (L @ M) v) old (lv_old lv)"
proof -
  let ?D = "wl_depth lib" and ?lv = "\<lparr> lv_nodes = [], lv_new = new, lv_old = old, lv_tree = t \<rparr>"
  have "level_ok h L M ?D new old 0 ?lv"
    using assms(2,3) by (auto simp: level_ok_def above_def tree_ok_def list_all2_same new_moved_def moved_def witness_ok_def)
  moreover have "\<forall>u \<in> set new. length L \<le> ut_position u \<and> ut_position u < length (L @ M)"
    "\<forall>u \<in> set old. ut_position u < length L"
    using assms(3,4) by (auto simp: witness_ok_def new_ok_def)
  ultimately obtain lv where lv: "foldM (level_step lib (length L) M) ?lv [0..<?D] = Some lv"
    "level_ok h L M ?D new old ?D lv"
    using all_levels_move [OF assms(1) order_refl _ _ _ assms(5)] by blast
  have same: "ut_position v = ut_position u \<and> ut_cmx v = ut_cmx u" if "v\<lparr> ut_witness := x \<rparr> = u" for u v :: utxo and x
    using that by (cases v) auto
  have sub: "list_all2 Q xs ys" if "list_all2 P xs ys" "\<And>x y. x \<in> set xs \<Longrightarrow> P x y \<Longrightarrow> Q x y"
    for P Q and xs ys :: "utxo list"
    using that by (auto simp: list_all2_conv_all_nth)
  have n: "list_all2 (\<lambda>u v. v\<lparr> ut_witness := ut_witness u \<rparr> = u \<and> new_moved h L M ?D v) new (lv_new lv)"
    and ol: "list_all2 (\<lambda>u v. v\<lparr> ut_witness := ut_witness u \<rparr> = u \<and> wi_position (ut_witness v) = wi_position (ut_witness u)
         \<and> wi_value (ut_witness v) = wi_value (ut_witness u) \<and> moved h L M ?D ?D v) old (lv_old lv)"
    and t: "tree_ok h ?D (L @ M) (lv_tree lv)"
    using lv(2) by (simp_all add: level_ok_def tree_ok_def)
  have "list_all2 (\<lambda>u v. v\<lparr> ut_witness := ut_witness u \<rparr> = u \<and> witness_ok h ?D (L @ M) v) new (lv_new lv)"
  proof (rule sub [OF n])
    fix u v assume "u \<in> set new" and v: "v\<lparr> ut_witness := ut_witness u \<rparr> = u \<and> new_moved h L M ?D v"
    then show "v\<lparr> ut_witness := ut_witness u \<rparr> = u \<and> witness_ok h ?D (L @ M) v"
      using assms(4,6) same [of "ut_witness u" v u] by (simp add: new_moved_def witness_ok_def new_ok_def leaf_ok_def)
  qed
  moreover have "list_all2 (\<lambda>u v. v\<lparr> ut_witness := ut_witness u \<rparr> = u \<and> witness_ok h ?D (L @ M) v) old (lv_old lv)"
  proof (rule sub [OF ol])
    fix u v assume "u \<in> set old" and v: "v\<lparr> ut_witness := ut_witness u \<rparr> = u
        \<and> wi_position (ut_witness v) = wi_position (ut_witness u)
        \<and> wi_value (ut_witness v) = wi_value (ut_witness u) \<and> moved h L M ?D ?D v"
    then show "v\<lparr> ut_witness := ut_witness u \<rparr> = u \<and> witness_ok h ?D (L @ M) v"
      using assms(3) same [of "ut_witness u" v u] by (simp add: moved_def witness_ok_def nth_append trans_less_add1)
  qed
  ultimately show ?thesis using lv(1) t by blast
qed

end
