(* ===== verification/Warp_Notes.thy ===== *)
theory Warp_Notes
  imports Warp_Tree Outcomes
begin

text \<open>
  Where a chunk puts its notes: the commitments that it adds to the tree, and the proof that
  every note the scanner finds, decrypted or issued, is placed at the leaf of its own commitment.
\<close>

section \<open>The commitments of a chunk\<close>

definition issue_cmxs :: "warp_lib \<Rightarrow> compact_tx \<Rightarrow> blob list" where
  "issue_cmxs lib tx = [pn_cmx (the (construct_issuance_note lib note (the (wl_asset_base lib (is_ik iss) (is_desc_hash iss))))).
     iss \<leftarrow> ct_issuances tx, note \<leftarrow> is_notes iss]"

definition issued_by :: "warp_lib \<Rightarrow> protocol \<Rightarrow> compact_tx \<Rightarrow> blob list" where
  "issued_by lib p tx = (if p = OrchardProtocol then issue_cmxs lib tx else [])"

definition tx_commitments :: "warp_lib \<Rightarrow> protocol \<Rightarrow> compact_tx \<Rightarrow> blob list" where
  "tx_commitments lib p tx = map co_cmx (extract_outputs p tx) @ issued_by lib p tx"

definition commitments :: "warp_lib \<Rightarrow> protocol \<Rightarrow> compact_block list \<Rightarrow> blob list" where
  "commitments lib p blocks = concat (map (tx_commitments lib p) (concat (map cb_vtx blocks)))"

definition tx_key :: "compact_block \<times> u32 \<times> compact_tx \<Rightarrow> u32 \<times> u32" where
  "tx_key = (\<lambda>(b, ivtx, tx). (block_height b, ivtx))"

definition tx_of :: "compact_block \<times> u32 \<times> compact_tx \<Rightarrow> compact_tx" where
  "tx_of = (\<lambda>(b, ivtx, tx). tx)"

definition note_place :: "warp_note \<Rightarrow> u32 \<times> u32" where
  "note_place n = (wn_height n, wn_ivtx n)"

text \<open>The note of an output of a transaction, or one that it issues.\<close>

definition note_of :: "warp_lib \<Rightarrow> protocol \<Rightarrow> compact_block \<times> u32 \<times> compact_tx \<Rightarrow> warp_note \<Rightarrow> bool" where
  "note_of lib p t n = (note_place n = tx_key t \<and> wn_vout n < length (tx_commitments lib p (tx_of t))
     \<and> wn_cmx n = tx_commitments lib p (tx_of t) ! wn_vout n)"

lemma map_tx_of: "map tx_of (chunk_txs blocks) = concat (map cb_vtx blocks)"
proof -
  have "map tx_of (map (\<lambda>(i, tx). (b, i, tx)) (enumerate 0 xs)) = xs" for b and xs :: "compact_tx list"
    by (simp add: tx_of_def comp_def case_prod_beta)
  then show ?thesis by (induction blocks) (simp_all add: chunk_txs_def case_prod_beta)
qed

lemma commitments_chunk: "commitments lib p blocks = concat (map (tx_commitments lib p \<circ> tx_of) (chunk_txs blocks))"
  by (simp add: commitments_def map_tx_of [symmetric])

section \<open>Issuance\<close>

lemma fold_prog_induct:
  assumes "fold_prog f s xs w = (Inr t, w')" and "P ys s"
    and "\<And>zs x s v s' v'. f s x v = (Inr s', v') \<Longrightarrow> P zs s \<Longrightarrow> v' = v \<and> P (zs @ [x]) s'"
  shows "w' = w \<and> P (ys @ xs) t"
  using assms(1,2)
proof (induction xs arbitrary: ys s w)
  case Nil
  then show ?case by (simp add: ret_def)
next
  case (Cons x xs)
  then obtain s1 w1 where "f s x w = (Inr s1, w1)" "fold_prog f s1 xs w1 = (Inr t, w')"
    by (auto simp: andthen_Inr)
  moreover from this(1) Cons.prems(2) have "w1 = w" "P (ys @ [x]) s1" using assms(3) by blast+
  ultimately have "w' = w1 \<and> P ((ys @ [x]) @ xs) t" using Cons.IH by blast
  then show ?case using \<open>w1 = w\<close> by simp
qed

definition issue_spec :: "protocol \<Rightarrow> u32 \<times> u32 \<Rightarrow> nat \<Rightarrow> blob list \<Rightarrow> issued \<Rightarrow> bool" where
  "issue_spec p k outs cs x = (ix_cmxs x = (if p = OrchardProtocol then cs else [])
     \<and> (p = OrchardProtocol \<longrightarrow> ix_vout x = outs + length cs)
     \<and> (\<forall>(n, nk) \<in> set (ix_notes x). p = OrchardProtocol \<and> note_place n = k \<and> outs \<le> wn_vout n
          \<and> wn_vout n < outs + length cs \<and> wn_cmx n = cs ! (wn_vout n - outs)))"

lemma issue_one_ok:
  assumes "issue_one lib p keys height ivtx ab x note w = (Inr x', w')"
    and "issue_spec p (height, ivtx) outs cs x"
  shows "w' = w \<and> issue_spec p (height, ivtx) outs (cs @ [pn_cmx (the (construct_issuance_note lib note ab))]) x'"
proof (cases "p = OrchardProtocol")
  case True
  then obtain pn where c: "construct_issuance_note lib note ab = Some pn" "w' = w"
    "x' = \<lparr> ix_vout = ix_vout x + 1, ix_cmxs = ix_cmxs x @ [pn_cmx pn], ix_notes = ix_notes x @
        List.map_filter (\<lambda>key. map_option (\<lambda>n. (n, sk_nk key))
          (try_decrypt_issuance lib p key height ivtx (ix_vout x) note ab)) keys \<rparr>"
    using assms(1) by (auto simp: issue_one_def compute_issuance_cmx_def andthen_Inr)
  have "wn_cmx n = pn_cmx pn \<and> note_place n = (height, ivtx) \<and> wn_vout n = ix_vout x"
    if "try_decrypt_issuance lib p key height ivtx (ix_vout x) note ab = Some n" for key n
    using that c(1) True by (auto simp: try_decrypt_issuance_def note_place_def found_note_def split: if_splits)
  then show ?thesis
    using assms(2) c True
    by (fastforce simp: issue_spec_def map_filter_def nth_append)
next
  case False
  then show ?thesis
    using assms by (auto simp: issue_one_def compute_issuance_cmx_def andthen_Inr issue_spec_def
        try_decrypt_issuance_def map_filter_def)
qed

lemma issue_action_ok:
  assumes "issue_action lib p keys height ivtx x iss w = (Inr x', w')"
    and "issue_spec p (height, ivtx) outs cs x"
  shows "w' = w \<and> issue_spec p (height, ivtx) outs
    (cs @ map (\<lambda>note. pn_cmx (the (construct_issuance_note lib note (the (wl_asset_base lib (is_ik iss) (is_desc_hash iss)))))) (is_notes iss)) x'"
proof -
  obtain ab where ab: "wl_asset_base lib (is_ik iss) (is_desc_hash iss) = Some ab"
    "fold_prog (issue_one lib p keys height ivtx ab) x (is_notes iss) w = (Inr x', w')"
    using assms(1) by (auto simp: issue_action_def andthen_Inr)
  have "w' = w \<and> (\<lambda>ys x. issue_spec p (height, ivtx) outs (cs @ map (\<lambda>note. pn_cmx (the (construct_issuance_note lib note ab))) ys) x)
      ([] @ is_notes iss) x'"
    by (rule fold_prog_induct [OF ab(2)]) (use assms(2) issue_one_ok in \<open>fastforce\<close>)+
  then show ?thesis using ab(1) by simp
qed

lemma issue_tx_ok:
  assumes "issue_tx lib p keys height ivtx tx w = (Inr x, w')"
  shows "w' = w \<and> issue_spec p (height, ivtx) (length (extract_outputs p tx)) (issue_cmxs lib tx) x"
proof -
  let ?c = "\<lambda>ys. concat (map (\<lambda>iss. map (\<lambda>note. pn_cmx (the (construct_issuance_note lib note
      (the (wl_asset_base lib (is_ik iss) (is_desc_hash iss)))))) (is_notes iss)) ys)"
  have "w' = w \<and> (\<lambda>ys x. issue_spec p (height, ivtx) (length (extract_outputs p tx)) (?c ys) x) ([] @ ct_issuances tx) x"
  proof (rule fold_prog_induct [OF assms [unfolded issue_tx_def]])
    show "issue_spec p (height, ivtx) (length (extract_outputs p tx)) (?c [])
        \<lparr>ix_vout = length (extract_outputs p tx), ix_cmxs = [], ix_notes = []\<rparr>"
      by (simp add: issue_spec_def)
    show "issue_action lib p keys height ivtx s iss v = (Inr s', v') \<Longrightarrow>
        issue_spec p (height, ivtx) (length (extract_outputs p tx)) (?c zs) s \<Longrightarrow>
        v' = v \<and> issue_spec p (height, ivtx) (length (extract_outputs p tx)) (?c (zs @ [iss])) s'" for zs iss s v s' v'
      using issue_action_ok by simp
  qed
  then show ?thesis by (simp add: issue_cmxs_def)
qed

lemma issue_spec_notes:
  assumes "issue_spec p (tx_key t) (length (extract_outputs p (tx_of t))) (issue_cmxs lib (tx_of t)) x"
    and "(n, nk) \<in> set (ix_notes x)"
  shows "note_of lib p t n"
  using assms by (auto simp: issue_spec_def note_of_def tx_commitments_def issued_by_def nth_append)

definition tx_rows :: "warp_lib \<Rightarrow> protocol \<Rightarrow> (compact_block \<times> u32 \<times> compact_tx) list \<Rightarrow> issuance_row list" where
  "tx_rows lib p txs = filter (\<lambda>r. snd r \<noteq> []) (map (\<lambda>t. (tx_key t, issued_by lib p (tx_of t))) txs)"

lemma issue_chunk_ok:
  assumes "issue_chunk lib p keys blocks w = (Inr (ns, rows), w')"
  shows "w' = w \<and> rows = tx_rows lib p (chunk_txs blocks)
    \<and> (\<forall>(n, nk) \<in> set ns. \<exists>t \<in> set (chunk_txs blocks). note_of lib p t n)"
proof -
  let ?P = "\<lambda>txs (ns :: (warp_note \<times> blob option) list, rows). rows = tx_rows lib p txs
      \<and> (\<forall>(n, nk) \<in> set ns. \<exists>t \<in> set txs. note_of lib p t n)"
  have "w' = w \<and> ?P ([] @ chunk_txs blocks) (ns, rows)"
  proof (rule fold_prog_induct [OF assms [unfolded issue_chunk_def]])
    show "?P [] ([], [])" by (simp add: tx_rows_def)
    fix txs t s v s' v'
    assume run: "(case s of (notes_in, rows) \<Rightarrow> \<lambda>(b, ivtx, tx). andthen (issue_tx lib p keys (block_height b) ivtx tx)
        (\<lambda>x. ret (notes_in @ ix_notes x, if ix_cmxs x = [] then rows else rows @ [((block_height b, ivtx), ix_cmxs x)]))) t v
        = (Inr s', v')" and p: "?P txs s"
    obtain b ivtx tx where t: "t = (b, ivtx, tx)" by (cases t) auto
    obtain ns rows where s: "s = (ns, rows)" by (cases s) auto
    obtain x where x: "issue_tx lib p keys (block_height b) ivtx tx v = (Inr x, v')"
      "s' = (ns @ ix_notes x, if ix_cmxs x = [] then rows else rows @ [((block_height b, ivtx), ix_cmxs x)])"
      using run t s by (auto simp: andthen_Inr)
    note i = issue_tx_ok [OF x(1)]
    then have k: "issue_spec p (tx_key t) (length (extract_outputs p (tx_of t))) (issue_cmxs lib (tx_of t)) x"
      by (simp add: t tx_key_def tx_of_def)
    then have c: "ix_cmxs x = issued_by lib p (tx_of t)" by (simp add: issue_spec_def issued_by_def)
    have "tx_rows lib p (txs @ [t]) =
        (if ix_cmxs x = [] then tx_rows lib p txs else tx_rows lib p txs @ [((block_height b, ivtx), ix_cmxs x)])"
      using c by (simp add: tx_rows_def t tx_key_def)
    moreover have "\<forall>(n, nk) \<in> set (ix_notes x). note_of lib p t n"
      using issue_spec_notes [OF k] by auto
    ultimately show "v' = v \<and> ?P (txs @ [t]) s'"
      using i p s x(2) by (auto split: prod.splits)
  qed
  then show ?thesis by simp
qed

lemma map_of_rev_distinct: "distinct (map fst xs) \<Longrightarrow> map_of (rev xs) = map_of xs"
  by (intro map_of_eqI) (auto simp: map_of_eq_Some_iff rev_map [symmetric])

lemma keys_of_rows: "fst ` set (tx_rows lib p txs) \<subseteq> tx_key ` set txs"
  by (auto simp: tx_rows_def)

lemma map_of_rows:
  assumes "distinct (map tx_key txs)" and "t \<in> set txs"
  shows "map_of (tx_rows lib p txs) (tx_key t) =
    (if issued_by lib p (tx_of t) = [] then None else Some (issued_by lib p (tx_of t)))"
  using assms
proof (induction txs)
  case (Cons a txs)
  have rows: "tx_rows lib p (a # txs) = (if issued_by lib p (tx_of a) = [] then tx_rows lib p txs
      else (tx_key a, issued_by lib p (tx_of a)) # tx_rows lib p txs)"
    by (simp add: tx_rows_def)
  show ?case
  proof (cases "t = a")
    case True
    have "map_of (tx_rows lib p txs) (tx_key a) = None"
      using Cons.prems(1) keys_of_rows [of lib p txs] by (auto simp: map_of_eq_None_iff)
    then show ?thesis using True rows by simp
  next
    case False
    then have m: "t \<in> set txs" using Cons.prems by simp
    then have "tx_key t \<in> tx_key ` set txs" by (rule imageI)
    then have "tx_key t \<noteq> tx_key a" using Cons.prems(1) by auto
    then show ?thesis using m Cons rows by simp
  qed
qed simp

lemma issued_cmxs_rows:
  assumes "distinct (map tx_key txs)" and "t \<in> set txs"
  shows "issued_cmxs (tx_rows lib p txs) (tx_key t) = issued_by lib p (tx_of t)"
proof -
  have "distinct (map fst (tx_rows lib p txs))"
    using assms(1) by (simp add: tx_rows_def distinct_map_filter comp_def)
  then show ?thesis
    by (simp add: issued_cmxs_def map_of_rev_distinct map_of_rows [OF assms])
qed

section \<open>The order of the notes\<close>

definition key_less :: "u32 \<times> u32 \<Rightarrow> u32 \<times> u32 \<Rightarrow> bool" where
  "key_less k k' = (fst k < fst k' \<or> (fst k = fst k' \<and> snd k < snd k'))"

definition key_le :: "u32 \<times> u32 \<Rightarrow> u32 \<times> u32 \<Rightarrow> bool" where
  "key_le k k' = (k = k' \<or> key_less k k')"

definition rising :: "compact_block list \<Rightarrow> bool" where
  "rising blocks = sorted_wrt (<) (map block_height blocks)"

lemma chunk_keys_sorted:
  assumes "rising blocks"
  shows "sorted_wrt key_less (map tx_key (chunk_txs blocks))"
  using assms
proof (induction blocks)
  case (Cons b blocks)
  have "sorted_wrt key_less (map tx_key (map (\<lambda>(i, tx). (b, i, tx)) (enumerate k xs)))" for k and xs :: "compact_tx list"
    by (induction xs arbitrary: k) (auto simp: tx_key_def key_less_def in_set_enumerate_eq)
  moreover have "\<forall>k \<in> set (map tx_key (chunk_txs blocks)). block_height b < fst k"
    using Cons.prems by (auto simp: rising_def chunk_txs_def tx_key_def)
  moreover have "chunk_txs (b # blocks) = map (\<lambda>(i, tx). (b, i, tx)) (enumerate 0 (cb_vtx b)) @ chunk_txs blocks"
    by (simp add: chunk_txs_def case_prod_beta)
  moreover have "sorted_wrt key_less (map tx_key (chunk_txs blocks))"
    using Cons by (simp add: rising_def)
  moreover have "fst (tx_key t) = block_height b" if "t \<in> set (map (\<lambda>(i, tx). (b, i, tx)) xs)" for t xs
    using that by (auto simp: tx_key_def)
  ultimately show ?case
    by (simp only: map_append sorted_wrt_append set_map) (fastforce simp: key_less_def)
qed (simp add: chunk_txs_def)

lemma keys_distinct: "sorted_wrt key_less ks \<Longrightarrow> distinct ks"
  by (induction ks) (auto simp: key_less_def)

lemma stable_sorted:
  fixes f :: "'a \<Rightarrow> nat" and g :: "'a \<Rightarrow> nat"
  assumes "sorted (map f xs)" and "\<And>k. sorted (map g (filter (\<lambda>x. f x = k) xs))"
  shows "sorted_wrt (\<lambda>x y. f x < f y \<or> (f x = f y \<and> g x \<le> g y)) xs"
  using assms
proof (induction xs)
  case (Cons x xs)
  have "sorted (map g (filter (\<lambda>y. f y = k) xs))" for k
    using Cons.prems(2) [of k] by (simp split: if_splits)
  moreover have "f x < f y \<or> (f x = f y \<and> g x \<le> g y)" if "y \<in> set xs" for y
    using Cons.prems(1) Cons.prems(2) [of "f x"] that by (force simp: order_le_less)
  ultimately show ?case using Cons by simp
qed simp

lemma sort_chunk_notes_sorted: "sorted_wrt (\<lambda>m n. key_le (note_place (fst m)) (note_place (fst n))) (sort_chunk_notes ns)"
proof -
  let ?g = "wn_ivtx \<circ> fst :: warp_note \<times> blob option \<Rightarrow> nat" and ?f = "wn_height \<circ> fst :: warp_note \<times> blob option \<Rightarrow> nat"
  let ?ys = "sort_key ?g (sort_key (wn_vout \<circ> fst) ns)"
  have "sorted (map ?g (filter (\<lambda>x. ?f x = k) (sort_key ?f ?ys)))" for k
    by (subst sort_key_stable) (intro sorted_filter sorted_sort_key)
  then have "sorted_wrt (\<lambda>x y. ?f x < ?f y \<or> (?f x = ?f y \<and> ?g x \<le> ?g y)) (sort_key ?f ?ys)"
    by (intro stable_sorted sorted_sort_key)
  then show ?thesis
    unfolding sort_chunk_notes_def
    by (rule sorted_wrt_mono_rel [rotated]) (auto simp: key_le_def key_less_def note_place_def)
qed

lemma set_sort_chunk_notes [simp]: "set (sort_chunk_notes ns) = set ns"
  by (simp add: sort_chunk_notes_def)

section \<open>Decryption\<close>

lemma those_elem:
  assumes "those (map f xs) = Some yss" and "z \<in> set (concat yss)"
  shows "\<exists>x \<in> set xs. \<exists>ys. f x = Some ys \<and> z \<in> set ys"
  using assms
proof (induction xs arbitrary: yss)
  case (Cons x xs)
  then obtain ys yss' where h: "f x = Some ys" "those (map f xs) = Some yss'" "yss = ys # yss'"
    by (auto split: option.splits)
  show ?case
  proof (cases "z \<in> set ys")
    case True
    then show ?thesis using h(1) by auto
  next
    case False
    then have "z \<in> set (concat yss')" using Cons.prems(2) h(3) by simp
    then show ?thesis using Cons.IH [OF h(2)] by auto
  qed
qed simp

lemma matching_cmx: "matching cmx parsed = Some pn \<Longrightarrow> pn_cmx pn = cmx"
  by (auto simp: matching_def split: option.splits if_splits)

text \<open>A decrypted note is at its output, with the commitment of the output.\<close>

lemma try_decrypt_found:
  assumes "try_decrypt p lib key height ivtx vout co = Some (Some n)"
  shows "wn_height n = height \<and> wn_ivtx n = ivtx \<and> wn_vout n = vout \<and> wn_cmx n = co_cmx co"
  using assms
  by (cases p) (auto simp: try_sapling_decrypt_def try_orchard_decrypt_def try_zsa_note_def try_vanilla_note_def
      Let_def found_note_def dest!: matching_cmx split: if_splits)

lemma decrypted_note_of:
  assumes "decrypted_notes lib p keys blocks = Some ns" and "(n, nk) \<in> set ns"
  shows "\<exists>t \<in> set (chunk_txs blocks). note_of lib p t n"
proof -
  obtain o' ys where o': "o' \<in> set (chunk_outputs p blocks)" "decrypt_output lib p keys o' = Some ys" "(n, nk) \<in> set ys"
  proof -
    obtain zss where "those (map (decrypt_output lib p keys) (chunk_outputs p blocks)) = Some zss" "ns = concat zss"
      using assms(1) by (auto simp: decrypted_notes_def)
    then show ?thesis using those_elem [of "decrypt_output lib p keys"] assms(2) that by blast
  qed
  obtain b ivtx tx vout co where h: "o' = (block_height b, ivtx, vout, co)" "b \<in> set blocks"
    "(ivtx, tx) \<in> set (enumerate 0 (cb_vtx b))" "(vout, co) \<in> set (enumerate 0 (extract_outputs p tx))"
    using o'(1) by (auto simp: chunk_outputs_def)
  obtain zss where "those (map (\<lambda>key. map_option (\<lambda>found. case found of None \<Rightarrow> [] | Some n \<Rightarrow> [(n, sk_nk key)])
       (try_decrypt p lib key (block_height b) ivtx vout co)) keys) = Some zss" "(n, nk) \<in> set (concat zss)"
    using o'(2,3) h(1) by (auto simp: decrypt_output_def)
  from those_elem [OF this] obtain key where "try_decrypt p lib key (block_height b) ivtx vout co = Some (Some n)"
    by (auto split: option.splits)
  from try_decrypt_found [OF this] h(4) have "note_of lib p (b, ivtx, tx) n"
    by (auto simp: note_of_def note_place_def tx_key_def tx_of_def tx_commitments_def nth_append in_set_enumerate_eq)
  moreover have "(b, ivtx, tx) \<in> set (chunk_txs blocks)" using h(2,3) by (auto simp: chunk_txs_def)
  ultimately show ?thesis by blast
qed

section \<open>Placement\<close>

text \<open>What the scanner sends while it places notes leaves the rest of its state alone.\<close>

definition only_sends :: "synchronizer \<Rightarrow> synchronizer \<Rightarrow> bool" where
  "only_sends sy sy' = (\<exists>more. sy' = sy\<lparr> sy_sent := sy_sent sy @ more \<rparr>)"

interpretation os: two_state only_sends
proof
  show "only_sends sy sy" for sy unfolding only_sends_def by (rule exI [of _ "[]"]) simp
  show "only_sends u w" if "only_sends u v" and "only_sends v w" for u v w
  proof -
    obtain ms ms' where "v = u\<lparr> sy_sent := sy_sent u @ ms \<rparr>" "w = v\<lparr> sy_sent := sy_sent v @ ms' \<rparr>"
      using \<open>only_sends u v\<close> \<open>only_sends v w\<close> unfolding only_sends_def by blast
    then have "w = u\<lparr> sy_sent := sy_sent u @ (ms @ ms') \<rparr>" by simp
    then show ?thesis unfolding only_sends_def by blast
  qed
qed

lemma only_sends_send [intro, simp]: "steps only_sends (send m)"
  by (auto simp: steps_def send_def modify_def only_sends_def intro: exI [of _ "[m]"])

lemma only_sendsD:
  "only_sends sy sy' \<Longrightarrow> sy_position sy' = sy_position sy \<and> sy_utxos sy' = sy_utxos sy \<and> sy_tree sy' = sy_tree sy
    \<and> sy_protocol sy' = sy_protocol sy \<and> sy_keys sy' = sy_keys sy \<and> sy_pool sy' = sy_pool sy"
  by (auto simp: only_sends_def)

lemma only_sends_place_note: "steps only_sends (place_note lib p base cb tx n)"
  unfolding place_note_def Let_def by (auto split: prod.split option.split intro!: os.steps_andthen)

lemma only_sends_place_all: "(\<And>n. steps only_sends (f n)) \<Longrightarrow> steps only_sends (place_all f ns)"
  by (induction ns) (auto intro!: os.steps_andthen)

lemma only_sends_place_notes: "steps only_sends (place_notes lib p rows base ns txs)"
  by (induction txs arbitrary: base ns)
    (auto simp: Let_def intro!: os.steps_andthen only_sends_place_all only_sends_place_note)

lemma place_note_ok:
  "place_note lib p base cb tx (n, nk) w = (Inr m, w') \<Longrightarrow>
   wn_position m = add32 base (wn_vout n) \<and> wn_cmx m = wn_cmx n"
  by (auto simp: place_note_def Let_def andthen_Inr)

lemma place_all_ok:
  "place_all (place_note lib p base cb tx) ns w = (Inr ms, w') \<Longrightarrow> m \<in> set ms \<Longrightarrow>
   \<exists>(n, nk) \<in> set ns. wn_position m = add32 base (wn_vout n) \<and> wn_cmx m = wn_cmx n"
proof (induction ns arbitrary: w ms)
  case Nil
  then show ?case by (simp add: ret_def)
next
  case (Cons n ns)
  obtain m1 w1 ms1 where h: "place_note lib p base cb tx n w = (Inr m1, w1)"
    "place_all (place_note lib p base cb tx) ns w1 = (Inr ms1, w')" "ms = m1 # ms1"
    using Cons.prems(1) by (auto simp: andthen_Inr)
  show ?case
  proof (cases "m = m1")
    case True
    then show ?thesis using place_note_ok [of lib p base cb tx "fst n" "snd n"] h(1) by (cases n) auto
  next
    case False
    then show ?thesis using Cons.IH [OF h(2)] Cons.prems(2) h(3) by auto
  qed
qed

text \<open>The notes that a transaction leaves for the ones after it belong to those.\<close>

lemma later_notes:
  fixes ns :: "(warp_note \<times> blob option) list"
  assumes "sorted_wrt key_less (map tx_key (t # txs))"
    and "sorted_wrt (\<lambda>m n. key_le (note_place (fst m)) (note_place (fst n))) ns"
    and "\<forall>z \<in> set ns. \<exists>t' \<in> set (t # txs). note_of lib p t' (fst z)"
    and "z \<in> set (dropWhile (\<lambda>z. note_place (fst z) = tx_key t) ns)"
  shows "\<exists>t' \<in> set txs. note_of lib p t' (fst z)"
proof -
  let ?here = "\<lambda>z :: warp_note \<times> blob option. note_place (fst z) = tx_key t"
  obtain d ds where d: "dropWhile ?here ns = d # ds" using assms(4) by (cases "dropWhile ?here ns") auto
  have sub: "set (d # ds) \<subseteq> set ns" using d set_dropWhileD [of _ ?here ns] by auto
  have split: "ns = takeWhile ?here ns @ (d # ds)" using d by (metis takeWhile_dropWhile_id)
  have "sorted_wrt (\<lambda>m n. key_le (note_place (fst m)) (note_place (fst n))) (d # ds)"
    using assms(2) split by (metis sorted_wrt_append)
  then have le: "key_le (note_place (fst d)) (note_place (fst z))"
    using assms(4) d by (auto simp: key_le_def)
  have "dropWhile ?here ns \<noteq> []" using d by simp
  then have "\<not> ?here d" using hd_dropWhile [of ?here ns] d by simp
  moreover obtain t1 where t1: "t1 \<in> set (t # txs)" "note_place (fst d) = tx_key t1"
  proof -
    have "d \<in> set ns" using sub by simp
    then show ?thesis using assms(3) that unfolding note_of_def by blast
  qed
  ultimately have "t1 \<in> set txs" by auto
  then have "key_less (tx_key t) (note_place (fst d))" using assms(1) t1(2) by simp
  then have "note_place (fst z) \<noteq> tx_key t" using le by (auto simp: key_le_def key_less_def)
  moreover have "z \<in> set ns" using assms(4) sub d by auto
  ultimately show ?thesis using assms(3) by (auto simp: note_of_def)
qed

lemma here_notes:
  assumes "sorted_wrt key_less (map tx_key (t # txs))"
    and "\<forall>z \<in> set ns. \<exists>t' \<in> set (t # txs). note_of lib p t' (fst z)"
    and "z \<in> set (takeWhile (\<lambda>z. note_place (fst z) = tx_key t) ns)"
  shows "note_of lib p t (fst z)"
proof -
  have z: "note_place (fst z) = tx_key t" "z \<in> set ns" using set_takeWhileD [OF assms(3)] by auto
  then obtain t' where t': "t' \<in> set (t # txs)" "note_of lib p t' (fst z)" using assms(2) by blast
  have "t' \<notin> set txs"
  proof
    assume "t' \<in> set txs"
    then have "key_less (tx_key t) (tx_key t')" using assms(1) by simp
    moreover have "tx_key t' = tx_key t" using t'(2) z(1) by (simp add: note_of_def)
    ultimately show False by (simp add: key_less_def)
  qed
  then show ?thesis using t' by simp
qed

lemma place_notes_Cons:
  "place_notes lib p rows base ns (t # txs) =
     andthen (place_all (place_note lib p base (fst t) (snd (snd t))) (takeWhile (\<lambda>z. note_place (fst z) = tx_key t) ns)) (\<lambda>placed.
     andthen (place_notes lib p rows (add32 base (tx_size p rows t)) (dropWhile (\<lambda>z. note_place (fst z) = tx_key t) ns) txs) (\<lambda>rest.
       ret (placed @ rest)))"
proof -
  have "(\<lambda>(n, _). wn_height n = block_height (fst t) \<and> wn_ivtx n = fst (snd t)) =
      (\<lambda>z :: warp_note \<times> blob option. note_place (fst z) = tx_key t)"
    by (cases t) (auto simp: fun_eq_iff note_place_def tx_key_def)
  then show ?thesis by (simp only: place_notes.simps Let_def)
qed

lemma place_notes_ok:
  assumes "place_notes lib p rows base ns txs w = (Inr ms, w')"
    and "sorted_wrt key_less (map tx_key txs)"
    and "sorted_wrt (\<lambda>m n. key_le (note_place (fst m)) (note_place (fst n))) ns"
    and "\<forall>z \<in> set ns. \<exists>t \<in> set txs. note_of lib p t (fst z)"
    and "\<forall>t \<in> set txs. tx_size p rows t = length (tx_commitments lib p (tx_of t))"
    and "base + length (concat (map (tx_commitments lib p \<circ> tx_of) txs)) < 2 ^ 32"
    and "m \<in> set ms"
  shows "base \<le> wn_position m \<and> wn_position m < base + length (concat (map (tx_commitments lib p \<circ> tx_of) txs))
    \<and> wn_cmx m = concat (map (tx_commitments lib p \<circ> tx_of) txs) ! (wn_position m - base)"
  using assms
proof (induction txs arbitrary: base ns w ms)
  case Nil
  then have "ns = []" by (cases ns) auto
  then show ?case using Nil by (simp add: ret_def)
next
  case (Cons t txs)
  let ?c = "tx_commitments lib p (tx_of t)" and ?rest = "concat (map (tx_commitments lib p \<circ> tx_of) txs)"
  let ?here = "\<lambda>z :: warp_note \<times> blob option. note_place (fst z) = tx_key t"
  obtain placed w1 ms1 where run:
    "place_all (place_note lib p base (fst t) (snd (snd t))) (takeWhile ?here ns) w = (Inr placed, w1)"
    "place_notes lib p rows (add32 base (tx_size p rows t)) (dropWhile ?here ns) txs w1 = (Inr ms1, w')"
    "ms = placed @ ms1"
    using Cons.prems(1) unfolding place_notes_Cons andthen_Inr by (auto simp: ret_def)
  have size: "tx_size p rows t = length ?c" using Cons.prems(5) by simp
  have bound: "base + length ?c + length ?rest < 2 ^ 32" using Cons.prems(6) by (simp add: comp_def)
  show ?case
  proof (cases "m \<in> set placed")
    case True
    obtain z where z: "z \<in> set (takeWhile ?here ns)" "wn_position m = add32 base (wn_vout (fst z))" "wn_cmx m = wn_cmx (fst z)"
      using place_all_ok [OF run(1) True] by auto
    from here_notes [OF Cons.prems(2,4) z(1)]
    have v: "wn_vout (fst z) < length ?c" "wn_cmx (fst z) = ?c ! wn_vout (fst z)" by (simp_all add: note_of_def)
    then have "wn_position m = base + wn_vout (fst z)" using bound z(2) by (simp add: add32_def)
    then show ?thesis using z(3) v by (simp add: nth_append)
  next
    case False
    have "sorted_wrt (\<lambda>m n. key_le (note_place (fst m)) (note_place (fst n))) (dropWhile ?here ns)"
      using Cons.prems(3) by (metis sorted_wrt_append takeWhile_dropWhile_id)
    moreover have "\<forall>z \<in> set (dropWhile ?here ns). \<exists>t' \<in> set txs. note_of lib p t' (fst z)"
      using later_notes [OF Cons.prems(2,3,4)] by blast
    moreover have "add32 base (tx_size p rows t) = base + length ?c" using bound size by (simp add: add32_def)
    moreover have "sorted_wrt key_less (map tx_key txs)" using Cons.prems(2) by simp
    moreover have "\<forall>t \<in> set txs. tx_size p rows t = length (tx_commitments lib p (tx_of t))" using Cons.prems(5) by simp
    moreover have "m \<in> set ms1" using False Cons.prems(7) run(3) by simp
    ultimately have "base + length ?c \<le> wn_position m \<and> wn_position m < base + length ?c + length ?rest
        \<and> wn_cmx m = ?rest ! (wn_position m - (base + length ?c))"
      using run(2) bound by (intro Cons.IH [of "base + length ?c" "dropWhile ?here ns" w1 ms1]) (simp_all add: comp_def)
    then show ?thesis by (auto simp: nth_append comp_def)
  qed
qed

end
