(* ===== verification/Warp_Witness.thy ===== *)
theory Warp_Witness
  imports Warp_Notes
begin

text \<open>
  A chunk from end to end: after it the position, the edge of the tree and every witness are
  those of the tree with the commitments of the chunk.
\<close>

section \<open>The state of a scanner\<close>

definition tracked :: "hash \<Rightarrow> warp_lib \<Rightarrow> blob list \<Rightarrow> synchronizer \<Rightarrow> bool" where
  "tracked h lib L sy = (sy_position sy = length L \<and> tree_ok h (wl_depth lib) L (sy_tree sy)
     \<and> (\<forall>u \<in> set (sy_utxos sy). witness_ok h (wl_depth lib) L u))"

lemma tracked_only_sends: "only_sends sy sy' \<Longrightarrow> tracked h lib L sy' = tracked h lib L sy"
  by (auto simp: tracked_def dest: only_sendsD)

section \<open>The leaves\<close>

lemma those_hash32: "those (map (hash32 \<circ> co_cmx) cos) = Some cs \<Longrightarrow> cs = map co_cmx cos"
  by (induction cos arbitrary: cs) (auto simp: hash32_def split: if_splits option.splits)

lemma chunk_leaves_ok:
  assumes "chunk_leaves p rows blocks = Some leaves"
    and "\<forall>t \<in> set (chunk_txs blocks). issued_cmxs rows (tx_key t) = issued_by lib p (tx_of t)"
  shows "leaves = commitments lib p blocks"
proof -
  have one: "tx_leaves p rows t = Some cs \<Longrightarrow> issued_cmxs rows (tx_key t) = issued_by lib p (tx_of t) \<Longrightarrow>
      cs = tx_commitments lib p (tx_of t)" for t cs
    by (cases t) (auto simp: tx_leaves_def tx_commitments_def tx_key_def tx_of_def dest: those_hash32)
  have "those (map (tx_leaves p rows) ts) = Some css \<Longrightarrow>
      \<forall>t \<in> set ts. issued_cmxs rows (tx_key t) = issued_by lib p (tx_of t) \<Longrightarrow>
      css = map (tx_commitments lib p \<circ> tx_of) ts" for ts css
  proof (induction ts arbitrary: css)
    case (Cons t ts)
    then obtain cs css' where "tx_leaves p rows t = Some cs" "those (map (tx_leaves p rows) ts) = Some css'" "css = cs # css'"
      by (auto split: option.splits)
    then show ?case using Cons one by simp
  qed simp
  then show ?thesis using assms by (auto simp: chunk_leaves_def commitments_chunk)
qed

lemma tx_size_ok:
  "issued_cmxs rows (tx_key t) = issued_by lib p (tx_of t) \<Longrightarrow> tx_size p rows t = length (tx_commitments lib p (tx_of t))"
  by (cases t) (simp add: tx_size_def tx_commitments_def tx_key_def tx_of_def)

section \<open>The unspent notes\<close>

lemma insert_utxo_subset: "set (insert_utxo us u) \<subseteq> set us \<union> {u}"
  by (auto simp: insert_utxo_def)

lemma insert_utxos_subset: "set (foldl insert_utxo us vs) \<subseteq> set us \<union> set vs"
proof (induction vs arbitrary: us)
  case (Cons v vs)
  show ?case using Cons.IH [of "insert_utxo us v"] insert_utxo_subset [of us v] by auto
qed simp

text \<open>Reporting the spends only takes notes away.\<close>

definition only_removes :: "synchronizer \<Rightarrow> synchronizer \<Rightarrow> bool" where
  "only_removes sy sy' = (sy_position sy' = sy_position sy \<and> sy_tree sy' = sy_tree sy \<and> sy_protocol sy' = sy_protocol sy
     \<and> sy_keys sy' = sy_keys sy \<and> sy_pool sy' = sy_pool sy \<and> set (sy_utxos sy') \<subseteq> set (sy_utxos sy)
     \<and> set (sy_sent sy) \<subseteq> set (sy_sent sy'))"

interpretation ors: two_state only_removes
proof
  show "only_removes sy sy" for sy by (simp add: only_removes_def)
  show "only_removes u w" if "only_removes u v" and "only_removes v w" for u v w
    using that by (auto simp: only_removes_def)
qed

lemma only_removes_send [intro, simp]: "steps only_removes (send m)"
  by (auto simp: steps_def send_def modify_def only_removes_def)

lemma only_removes_spend_input: "steps only_removes (spend_input cb tx nf account)"
proof -
  have "steps only_removes (remove_utxo k)" for k
    by (auto simp: steps_def remove_utxo_def only_removes_def)
  then show ?thesis
    unfolding spend_input_def by (intro ors.steps_andthen) (auto split: option.split intro!: ors.steps_andthen)
qed

lemma only_removes_spend_tx: "steps only_removes (spend_tx p accounts t)"
  by (cases t) (auto simp: spend_tx_def intro!: ors.steps_for_each ors.steps_andthen only_removes_spend_input)

lemma tracked_only_removes: "only_removes sy sy' \<Longrightarrow> tracked h lib L sy \<Longrightarrow> tracked h lib L sy'"
  by (auto simp: tracked_def only_removes_def)

section \<open>The witnesses\<close>

lemma list_all2_set2: "list_all2 R xs ys \<Longrightarrow> y \<in> set ys \<Longrightarrow> \<exists>x \<in> set xs. R x y"
  by (induction rule: list_all2_induct) auto

lemma update_witnesses_ok:
  assumes "combines lib h" and "0 < wl_depth lib" and "tracked h lib L sy"
    and "length (L @ M) < 2 ^ 32" and "chunk_leaves (sy_protocol sy) rows blocks = Some M"
    and "\<forall>n \<in> set ns. length L \<le> wn_position n \<and> wn_position n < length (L @ M) \<and> wn_cmx n = (L @ M) ! wn_position n"
  shows "\<exists>lv :: level. update_witnesses lib rows blocks ns sy = (Inr (length M),
      sy\<lparr> sy_tree := lv_tree lv, sy_utxos := foldl insert_utxo (lv_old lv) (lv_new lv) \<rparr>)
    \<and> map utxo_key (lv_old lv) = map utxo_key (sy_utxos sy)
    \<and> map utxo_key (lv_new lv) = map (utxo_key \<circ> new_utxo lib (sy_pool sy)) ns
    \<and> tracked h lib (L @ M) (sy\<lparr> sy_tree := lv_tree lv, sy_utxos := foldl insert_utxo (lv_old lv) (lv_new lv),
        sy_position := length (L @ M) \<rparr>)"
proof -
  have t: "sy_position sy = length L" "tree_ok h (wl_depth lib) L (sy_tree sy)"
    "\<forall>u \<in> set (sy_utxos sy). witness_ok h (wl_depth lib) L u"
    using assms(3) by (auto simp: tracked_def)
  have "\<forall>u \<in> set (map (new_utxo lib (sy_pool sy)) ns). new_ok L M u"
    using assms(6) by (auto simp: new_ok_def new_utxo_def)
  from levels_ok [OF assms(1) t(2,3) this assms(4,2)] obtain lv where lv:
    "foldM (level_step lib (length L) M) \<lparr> lv_nodes = [], lv_new = map (new_utxo lib (sy_pool sy)) ns,
       lv_old = sy_utxos sy, lv_tree = sy_tree sy \<rparr> [0..<wl_depth lib] = Some lv"
    "tree_ok h (wl_depth lib) (L @ M) (lv_tree lv)"
    "list_all2 (\<lambda>u v. v\<lparr> ut_witness := ut_witness u \<rparr> = u \<and> witness_ok h (wl_depth lib) (L @ M) v)
       (map (new_utxo lib (sy_pool sy)) ns) (lv_new lv)"
    "list_all2 (\<lambda>u v. v\<lparr> ut_witness := ut_witness u \<rparr> = u \<and> witness_ok h (wl_depth lib) (L @ M) v)
       (sy_utxos sy) (lv_old lv)"
    by blast
  have key: "utxo_key v = utxo_key u" if "v\<lparr> ut_witness := w \<rparr> = u" for u v w
    using that by (cases v) (auto simp: utxo_key_def)
  have keys: "list_all2 (\<lambda>u v. v\<lparr> ut_witness := ut_witness u \<rparr> = u \<and> witness_ok h (wl_depth lib) (L @ M) v) us vs \<Longrightarrow>
      map utxo_key vs = map utxo_key us" for us vs
    by (induction rule: list_all2_induct) (auto dest: key)
  have "witness_ok h (wl_depth lib) (L @ M) v" if "v \<in> set (foldl insert_utxo (lv_old lv) (lv_new lv))" for v
  proof -
    have "v \<in> set (lv_old lv) \<or> v \<in> set (lv_new lv)" using insert_utxos_subset that by blast
    then show ?thesis using list_all2_set2 [OF lv(3)] list_all2_set2 [OF lv(4)] by blast
  qed
  then have "tracked h lib (L @ M) (sy\<lparr> sy_tree := lv_tree lv, sy_utxos := foldl insert_utxo (lv_old lv) (lv_new lv),
      sy_position := length (L @ M) \<rparr>)"
    using lv(2) by (simp add: tracked_def)
  moreover have "update_witnesses lib rows blocks ns sy = (Inr (length M),
      sy\<lparr> sy_tree := lv_tree lv, sy_utxos := foldl insert_utxo (lv_old lv) (lv_new lv) \<rparr>)"
    using lv(1) assms(5) t(1)
    by (simp add: update_witnesses_def andthen_def gets_def the_or_def ret_def modify_def)
  ultimately show ?thesis using keys [OF lv(3)] keys [OF lv(4)] by (intro exI [of _ lv]) simp
qed

section \<open>Spends\<close>

definition spend_reported :: "u32 \<times> blob \<Rightarrow> synchronizer \<Rightarrow> bool" where
  "spend_reported k sy = (\<exists>u. MsgSpend u \<in> set (sy_sent sy) \<and> utxo_key u = k)"

text \<open>A note that goes is reported.\<close>

definition accounted :: "synchronizer \<Rightarrow> synchronizer \<Rightarrow> bool" where
  "accounted sy sy' = (only_removes sy sy'
     \<and> (\<forall>k \<in> set (map utxo_key (sy_utxos sy)). k \<in> set (map utxo_key (sy_utxos sy')) \<or> spend_reported k sy'))"

lemma accounted_two_state: "two_state accounted"
proof
  show "accounted sy sy" for sy by (simp add: accounted_def ors.refl)
  show "accounted u w" if "accounted u v" and "accounted v w" for u v w
  proof -
    have "spend_reported k v \<Longrightarrow> spend_reported k w" for k
      using that(2) by (auto simp: accounted_def only_removes_def spend_reported_def)
    then show ?thesis
      using that ors.trans [of u v w] unfolding accounted_def by blast
  qed
qed

interpretation acc: two_state accounted
  by (rule accounted_two_state)

definition unspent_key :: "u32 \<times> blob \<Rightarrow> synchronizer \<Rightarrow> bool" where
  "unspent_key k sy = (k \<in> set (map utxo_key (sy_utxos sy)))"

lemma spend_input_run:
  assumes "spend_input cb tx nf account sy = (r, sy')"
  shows "r = Inr () \<and> accounted sy sy' \<and> \<not> unspent_key (account, nf) sy'"
proof (cases "List.find (\<lambda>u. utxo_key u = (account, nf)) (sy_utxos sy)")
  case None
  then have "\<forall>u \<in> set (sy_utxos sy). utxo_key u \<noteq> (account, nf)" by (auto simp: find_None_iff)
  moreover from this have "filter (\<lambda>u. utxo_key u \<noteq> (account, nf)) (sy_utxos sy) = sy_utxos sy" by (simp add: filter_id_conv)
  ultimately show ?thesis
    using assms None by (auto simp: spend_input_def andthen_def remove_utxo_def ret_def acc.refl unspent_key_def)
next
  case (Some u)
  then have u: "u \<in> set (sy_utxos sy)" "utxo_key u = (account, nf)" by (auto simp: find_Some_iff)
  have "r = Inr ()" and s: "sy' = sy\<lparr> sy_utxos := filter (\<lambda>u. utxo_key u \<noteq> (account, nf)) (sy_utxos sy),
      sy_sent := sy_sent sy @ [MsgTransaction (ut_account u) (block_height cb) (cb_time cb) (ct_hash tx),
        MsgSpend (u\<lparr> ut_txid := ct_hash tx \<rparr>)] \<rparr>"
    using assms Some by (auto simp: spend_input_def andthen_def remove_utxo_def send_def modify_def)
  moreover have "spend_reported (account, nf) sy'"
    using u(2) unfolding s spend_reported_def by (intro exI [of _ "u\<lparr> ut_txid := ct_hash tx \<rparr>"]) (simp add: utxo_key_def)
  moreover have "only_removes sy sy'" unfolding s only_removes_def by auto
  moreover have "k \<in> utxo_key ` set (sy_utxos sy) \<Longrightarrow> k \<noteq> (account, nf) \<Longrightarrow> k \<in> utxo_key ` set (sy_utxos sy')" for k
    unfolding s by auto
  ultimately show ?thesis unfolding accounted_def unspent_key_def s by auto
qed

lemma spend_tx_steps: "steps accounted (spend_tx p accounts t)"
proof -
  have "steps accounted (spend_input cb tx nf account)" for cb tx nf account
    using spend_input_run by (metis prod.collapse steps_def)
  then show ?thesis
    by (cases t) (auto simp: spend_tx_def intro!: acc.steps_for_each acc.steps_andthen)
qed

lemma gone_stays_gone: "accounted sy sy' \<Longrightarrow> \<not> unspent_key k sy \<Longrightarrow> \<not> unspent_key k sy'"
  by (auto simp: accounted_def only_removes_def unspent_key_def)

lemma spends_remove:
  assumes "for_each (spend_tx p accounts) txs sy = (Inr (), sy')" and "t \<in> set txs"
    and "nf \<in> set (extract_nullifiers p (tx_of t))" and "account \<in> set accounts"
  shows "\<not> unspent_key (account, nf) sy'"
proof -
  obtain b ivtx tx where t: "t = (b, ivtx, tx)" by (cases t) auto
  let ?one = "\<lambda>nf. andthen (the_or WarpPanic (hash32 nf)) (\<lambda>nf. for_each (spend_input b tx nf) accounts)"
  have in_steps: "steps accounted (spend_input b tx nf account)" for nf account
    using spend_input_run by (metis prod.collapse steps_def)
  have one_steps: "steps accounted (?one nf)" for nf
    by (intro acc.steps_andthen acc.steps_for_each in_steps) simp
  from for_each_member [OF assms(1,2) accounted_two_state spend_tx_steps] obtain u v where
    1: "spend_tx p accounts t u = (Inr (), v)" "accounted v sy'" by blast
  then have f: "for_each ?one (extract_nullifiers p tx) u = (Inr (), v)" by (simp add: spend_tx_def t)
  have m: "nf \<in> set (extract_nullifiers p tx)" using assms(3) by (simp add: tx_of_def t)
  have "\<exists>u1 v1. accounted u u1 \<and> ?one nf u1 = (Inr (), v1) \<and> accounted v1 v"
    by (rule for_each_member [OF f m accounted_two_state]) (rule one_steps)
  then obtain u1 v1 where 2: "?one nf u1 = (Inr (), v1)" "accounted v1 v" by blast
  then have "for_each (spend_input b tx nf) accounts u1 = (Inr (), v1)"
    by (auto simp: andthen_Inr hash32_def split: if_splits)
  from for_each_member [OF this assms(4) accounted_two_state in_steps] obtain u2 v2 where
    3: "spend_input b tx nf account u2 = (Inr (), v2)" "accounted v2 v1" by blast
  from 3 have "\<not> unspent_key (account, nf) v2" using spend_input_run by blast
  then show ?thesis using 1(2) 2(2) 3(2) gone_stays_gone by blast
qed

section \<open>A chunk\<close>

lemma gets_id_run: "andthen (gets id) f w = f w w"
  by simp

lemma insert_utxo_keys: "set (map utxo_key (insert_utxo us u)) = set (map utxo_key us) \<union> {utxo_key u}"
proof (cases "utxo_key u \<in> set (map utxo_key us)")
  case True
  have "map utxo_key (map (\<lambda>v. if utxo_key v = utxo_key u then u else v) us) = map utxo_key us" by simp
  then have "map utxo_key (insert_utxo us u) = map utxo_key us" using True by (simp only: insert_utxo_def if_True)
  then show ?thesis using True by (simp only: insert_absorb Un_insert_right Un_empty_right)
next
  case False
  then show ?thesis by (auto simp: insert_utxo_def)
qed

lemma insert_utxos_keys:
  "set (map utxo_key (foldl insert_utxo us vs)) = set (map utxo_key us) \<union> set (map utxo_key vs)"
proof (induction vs arbitrary: us)
  case (Cons v vs)
  show ?case using Cons.IH [of "insert_utxo us v"] insert_utxo_keys [of us v] by auto
qed simp

definition chunk_bound :: "warp_lib \<Rightarrow> protocol \<Rightarrow> blob list \<Rightarrow> compact_block list \<Rightarrow> bool" where
  "chunk_bound lib p L blocks = (rising blocks \<and> length L + length (commitments lib p blocks) < 2 ^ 32)"

lemma placed_notes:
  assumes "rising blocks" and "decrypted_notes lib p keys blocks = Some ds"
    and "issue_chunk lib p keys blocks w = (Inr (ins, rows), w1)"
    and "place_notes lib p rows (length L) (sort_chunk_notes (ds @ ins)) (chunk_txs blocks) w2 = (Inr ns, w3)"
    and "length L + length (commitments lib p blocks) < 2 ^ 32" and "n \<in> set ns"
  shows "length L \<le> wn_position n \<and> wn_position n < length (L @ commitments lib p blocks)
    \<and> wn_cmx n = (L @ commitments lib p blocks) ! wn_position n"
proof -
  note rows = issue_chunk_ok [OF assms(3)]
  have keys: "sorted_wrt key_less (map tx_key (chunk_txs blocks))" using assms(1) by (rule chunk_keys_sorted)
  have sizes: "\<forall>t \<in> set (chunk_txs blocks). tx_size p rows t = length (tx_commitments lib p (tx_of t))"
    using rows issued_cmxs_rows [OF keys_distinct [OF keys]] by (auto intro: tx_size_ok)
  have ours: "\<forall>z \<in> set (sort_chunk_notes (ds @ ins)). \<exists>t \<in> set (chunk_txs blocks). note_of lib p t (fst z)"
    using rows decrypted_note_of [OF assms(2)] by fastforce
  show ?thesis
    using place_notes_ok [OF assms(4) keys sort_chunk_notes_sorted ours sizes _ assms(6)] assms(5)
    by (auto simp: commitments_chunk nth_append)
qed

lemma add_unfold:
  "blocks \<noteq> [] \<Longrightarrow> add lib blocks sy =
     andthen (the_or WarpPanic (decrypted_notes lib (sy_protocol sy) (sy_keys sy) blocks)) (\<lambda>decrypted.
     andthen (issue_chunk lib (sy_protocol sy) (sy_keys sy) blocks) (\<lambda>(issued_notes, rows).
     andthen (place_notes lib (sy_protocol sy) rows (sy_position sy) (sort_chunk_notes (decrypted @ issued_notes)) (chunk_txs blocks))
       (finish_chunk lib rows blocks (sy_protocol sy) (sy_keys sy) (sy_pool sy)))) sy"
  by (simp add: add_def)

lemma sends_witnesses: "for_each (\<lambda>u. send (g u)) us sy = (Inr (), sy\<lparr> sy_sent := sy_sent sy @ map g us \<rparr>)"
  by (induction us arbitrary: sy) (simp_all add: andthen_def send_def modify_def ret_def)

text \<open>The scanner between its witnesses and the spends: everything is in place but the spends.\<close>

lemma finish_chunk_run:
  assumes "combines lib h" and "0 < wl_depth lib" and "tracked h lib L sy"
    and "length (L @ M) < 2 ^ 32" and "chunk_leaves (sy_protocol sy) rows blocks = Some M"
    and "\<forall>n \<in> set ns. length L \<le> wn_position n \<and> wn_position n < length (L @ M) \<and> wn_cmx n = (L @ M) ! wn_position n"
  shows "\<exists>sy2. tracked h lib (L @ M) sy2 \<and> sy_protocol sy2 = sy_protocol sy
    \<and> set (sy_sent sy) \<subseteq> set (sy_sent sy2)
    \<and> (\<forall>k. unspent_key k sy2 \<longleftrightarrow> unspent_key k sy \<or> (\<exists>n \<in> set ns. k = (wn_account n, wn_nf n)))
    \<and> finish_chunk lib rows blocks p keys pool ns sy =
        andthen (for_each (spend_tx p (map sk_account keys)) (chunk_txs blocks))
          (\<lambda>_. send (MsgCheckpoint (map sk_account keys) pool (block_height (last blocks)))) sy2"
proof -
  obtain lv :: level where lv: "update_witnesses lib rows blocks ns sy = (Inr (length M),
      sy\<lparr> sy_tree := lv_tree lv, sy_utxos := foldl insert_utxo (lv_old lv) (lv_new lv) \<rparr>)"
    "map utxo_key (lv_old lv) = map utxo_key (sy_utxos sy)"
    "map utxo_key (lv_new lv) = map (utxo_key \<circ> new_utxo lib (sy_pool sy)) ns"
    "tracked h lib (L @ M) (sy\<lparr> sy_tree := lv_tree lv, sy_utxos := foldl insert_utxo (lv_old lv) (lv_new lv),
        sy_position := length (L @ M) \<rparr>)"
    using update_witnesses_ok [OF assms] by blast
  let ?us = "foldl insert_utxo (lv_old lv) (lv_new lv)"
  let ?g = "\<lambda>u. MsgWitness (ut_account u) (block_height (last blocks)) (ut_cmx u) (ut_witness u)"
  let ?sy2 = "sy\<lparr> sy_tree := lv_tree lv, sy_utxos := ?us, sy_sent := sy_sent sy @ map ?g ?us, sy_position := length (L @ M) \<rparr>"
  have "sy_position sy = length L" using assms(3) by (simp add: tracked_def)
  then have "add32 (sy_position sy) (length M mod 2 ^ 32) = length (L @ M)"
    using assms(4) by (simp add: add32_def)
  then have "finish_chunk lib rows blocks p keys pool ns sy =
        andthen (for_each (spend_tx p (map sk_account keys)) (chunk_txs blocks))
          (\<lambda>_. send (MsgCheckpoint (map sk_account keys) pool (block_height (last blocks)))) ?sy2"
    unfolding finish_chunk_def
    by (simp add: andthen_def [of "update_witnesses lib rows blocks ns"] lv(1)
        andthen_def [of "for_each (\<lambda>u. send (?g u)) ?us"] sends_witnesses)
  moreover have "set (map utxo_key ?us) = set (map utxo_key (sy_utxos sy)) \<union> set (map (utxo_key \<circ> new_utxo lib (sy_pool sy)) ns)"
    unfolding insert_utxos_keys lv(2,3) by simp
  then have "\<forall>k. unspent_key k ?sy2 \<longleftrightarrow> unspent_key k sy \<or> (\<exists>n \<in> set ns. k = (wn_account n, wn_nf n))"
    by (auto simp: unspent_key_def utxo_key_def new_utxo_def)
  moreover have "tracked h lib (L @ M) ?sy2" using lv(4) by (simp add: tracked_def)
  ultimately show ?thesis by (intro exI [of _ ?sy2]) simp
qed

end
