(* ===== verification/Warp_Properties.thy ===== *)
theory Warp_Properties
  imports Warp_Witness
begin

text \<open>
  What a chunk guarantees: it does not panic on well-formed blocks, it leaves every witness at the
  tree of all commitments, it loses no note, and a spend that it sees takes its note and is reported.
\<close>

section \<open>Every note that is found is placed and sent\<close>

definition placed :: "warp_lib \<Rightarrow> protocol \<Rightarrow> u32 \<Rightarrow> compact_tx \<Rightarrow> warp_note \<times> blob option \<Rightarrow> warp_note" where
  "placed lib p base tx z = (fst z)\<lparr> wn_position := add32 base (wn_vout (fst z)),
     wn_nf := (case snd z of None \<Rightarrow> wn_cmx (fst z)
       | Some key \<Rightarrow> wl_nullifier lib p key (add32 base (wn_vout (fst z))) (wn_raw (fst z))),
     wn_txid := ct_hash tx \<rparr>"

definition placed_sends :: "warp_lib \<Rightarrow> protocol \<Rightarrow> u32 \<Rightarrow> compact_block \<Rightarrow> compact_tx \<Rightarrow> warp_note \<times> blob option \<Rightarrow> warp_message list" where
  "placed_sends lib p base cb tx z =
     [MsgTransaction (wn_account (fst z)) (block_height cb) (cb_time cb) (ct_hash tx), MsgNote (placed lib p base tx z)]"

lemma place_note_run:
  "place_note lib p base cb tx z w = (Inr (placed lib p base tx z), w\<lparr> sy_sent := sy_sent w @ placed_sends lib p base cb tx z \<rparr>)"
  by (cases z) (auto simp: place_note_def placed_def placed_sends_def Let_def andthen_def send_def modify_def split: option.split)

lemma place_all_run:
  "place_all (place_note lib p base cb tx) zs w = (Inr (map (placed lib p base tx) zs),
     w\<lparr> sy_sent := sy_sent w @ concat (map (placed_sends lib p base cb tx) zs) \<rparr>)"
  by (induction zs arbitrary: w) (simp_all add: andthen_def place_note_run)

text \<open>The row of the writer is the note that was found, with its place.\<close>

definition row_of :: "warp_note \<Rightarrow> warp_note \<Rightarrow> bool" where
  "row_of n m = (m\<lparr> wn_position := wn_position n, wn_nf := wn_nf n, wn_txid := wn_txid n \<rparr> = n)"

lemma row_of_placed: "row_of (fst z) (placed lib p base tx z)"
  by (simp add: row_of_def placed_def)

lemma place_notes_run:
  assumes "sorted_wrt key_less (map tx_key txs)"
    and "sorted_wrt (\<lambda>m n. key_le (note_place (fst m)) (note_place (fst n))) ns"
    and "\<forall>z \<in> set ns. \<exists>t \<in> set txs. note_of lib p t (fst z)"
  shows "\<exists>ms w'. place_notes lib p rows base ns txs w = (Inr ms, w') \<and> only_sends w w'
    \<and> set (sy_sent w) \<subseteq> set (sy_sent w') \<and> (\<forall>m \<in> set ms. MsgNote m \<in> set (sy_sent w'))
    \<and> (\<forall>z \<in> set ns. \<exists>m \<in> set ms. row_of (fst z) m)"
  using assms
proof (induction txs arbitrary: base ns w)
  case Nil
  then have "ns = []" by (cases ns) auto
  then show ?case by (simp add: os.refl)
next
  case (Cons t txs)
  let ?here = "\<lambda>z :: warp_note \<times> blob option. note_place (fst z) = tx_key t"
  let ?now = "takeWhile ?here ns" and ?later = "dropWhile ?here ns"
  let ?g = "placed lib p base (snd (snd t))"
  let ?w1 = "w\<lparr> sy_sent := sy_sent w @ concat (map (placed_sends lib p base (fst t) (snd (snd t))) ?now) \<rparr>"
  have sorted: "sorted_wrt (\<lambda>m n. key_le (note_place (fst m)) (note_place (fst n))) ?later"
    using Cons.prems(2) by (metis sorted_wrt_append takeWhile_dropWhile_id)
  have keys: "sorted_wrt key_less (map tx_key txs)" using Cons.prems(1) by simp
  have later: "\<forall>z \<in> set ?later. \<exists>t' \<in> set txs. note_of lib p t' (fst z)"
    using later_notes [OF Cons.prems] by blast
  obtain ms w' where m: "place_notes lib p rows (add32 base (tx_size p rows t)) ?later txs ?w1 = (Inr ms, w')"
    "only_sends ?w1 w'" "set (sy_sent ?w1) \<subseteq> set (sy_sent w')" "\<forall>m \<in> set ms. MsgNote m \<in> set (sy_sent w')"
    "\<forall>z \<in> set ?later. \<exists>m \<in> set ms. row_of (fst z) m"
    using Cons.IH [OF keys sorted later, of "add32 base (tx_size p rows t)" ?w1] by blast
  have run: "place_notes lib p rows base ns (t # txs) w = (Inr (map ?g ?now @ ms), w')"
    unfolding place_notes_Cons by (simp add: andthen_def place_all_run m(1))
  have "only_sends w ?w1" unfolding only_sends_def by blast
  then have sends: "only_sends w w'" using m(2) by (rule os.trans)
  have old: "set (sy_sent w) \<subseteq> set (sy_sent w')" using m(3) by simp
  have "MsgNote (?g z) \<in> set (sy_sent w')" if "z \<in> set ?now" for z
  proof -
    have "MsgNote (?g z) \<in> set (placed_sends lib p base (fst t) (snd (snd t)) z)" by (simp add: placed_sends_def)
    then have "MsgNote (?g z) \<in> set (sy_sent ?w1)" using that by auto
    then show ?thesis using m(3) by blast
  qed
  then have sent: "\<forall>m \<in> set (map ?g ?now @ ms). MsgNote m \<in> set (sy_sent w')" using m(4) by simp blast
  have "\<exists>m \<in> set (map ?g ?now @ ms). row_of (fst z) m" if "z \<in> set ns" for z
  proof (cases "z \<in> set ?later")
    case True
    then have "\<exists>m \<in> set ms. row_of (fst z) m" using m(5) by blast
    then show ?thesis by (simp only: set_append) blast
  next
    case False
    then have "z \<in> set ?now" using that by (metis Un_iff set_append takeWhile_dropWhile_id)
    then have "?g z \<in> set (map ?g ?now @ ms)" by simp
    then show ?thesis using row_of_placed by blast
  qed
  then show ?case using run sends old sent by blast
qed

section \<open>The outcomes of a chunk\<close>

definition only_errors :: "warp_error set \<Rightarrow> 'a warp \<Rightarrow> bool" where
  "only_errors E m = (\<forall>w e. fst (m w) = Inl e \<longrightarrow> e \<in> E)"

lemma only_errors_andthen: "only_errors E m \<Longrightarrow> (\<And>x. only_errors E (f x)) \<Longrightarrow> only_errors E (andthen m f)"
  unfolding only_errors_def andthen_def by (auto split: prod.split sum.split) (metis fst_conv)+

lemma only_errors_base [simp]:
  "only_errors E (ret x)" "e \<in> E \<Longrightarrow> only_errors E (the_or e y)" "e \<in> E \<Longrightarrow> only_errors E (ensure b e)"
  by (auto simp: only_errors_def the_or_def ensure_def ret_def fail_def split: option.splits)

lemma only_errors_fold: "(\<And>s x. only_errors E (f s x)) \<Longrightarrow> only_errors E (fold_prog f s xs)"
  by (induction xs arbitrary: s) (auto intro: only_errors_andthen)

lemma issue_chunk_errors: "only_errors {WarpError} (issue_chunk lib p keys blocks)"
  unfolding issue_chunk_def issue_tx_def issue_action_def issue_one_def
  by (auto intro!: only_errors_fold only_errors_andthen split: prod.split)

lemma for_each_succeeds:
  assumes "\<And>x w. x \<in> set xs \<Longrightarrow> fst (f x w) = Inr ()"
  shows "fst (for_each f xs w) = Inr ()"
  using assms
proof (induction xs arbitrary: w)
  case (Cons x xs)
  have "fst (f x w) = Inr ()" using Cons.prems by simp
  then obtain w1 where "f x w = (Inr (), w1)" by (cases "f x w") auto
  then show ?case using Cons by (simp add: andthen_def)
qed (simp add: ret_def)

lemma spends_succeed:
  assumes "\<forall>t \<in> set txs. \<forall>nf \<in> set (extract_nullifiers p (tx_of t)). length nf = 32"
  shows "fst (for_each (spend_tx p accounts) txs sy) = Inr ()"
proof (rule for_each_succeeds)
  fix t w assume t: "t \<in> set txs"
  obtain b ivtx tx where tx: "t = (b, ivtx, tx)" by (cases t) auto
  have "fst (for_each (spend_input b tx nf) accounts w) = Inr ()" for nf w
    by (rule for_each_succeeds) (metis fst_conv spend_input_run surj_pair)
  then show "fst (spend_tx p accounts t w) = Inr ()"
    using assms t unfolding spend_tx_def tx prod.case
    by (intro for_each_succeeds) (auto simp: tx_of_def hash32_def tx)
qed

section \<open>A chunk\<close>

text \<open>A chunk whose outputs decrypt without a panic and whose hashes have 32 bytes.\<close>

definition well_formed :: "warp_lib \<Rightarrow> synchronizer \<Rightarrow> compact_block list \<Rightarrow> bool" where
  "well_formed lib sy blocks = (decrypted_notes lib (sy_protocol sy) (sy_keys sy) blocks \<noteq> None
     \<and> (\<forall>t \<in> set (chunk_txs blocks). (\<forall>co \<in> set (extract_outputs (sy_protocol sy) (tx_of t)). length (co_cmx co) = 32)
         \<and> (\<forall>nf \<in> set (extract_nullifiers (sy_protocol sy) (tx_of t)). length nf = 32)))"

lemma chunk_leaves_some:
  assumes "\<forall>t \<in> set (chunk_txs blocks). \<forall>co \<in> set (extract_outputs p (tx_of t)). length (co_cmx co) = 32"
  shows "\<exists>M. chunk_leaves p rows blocks = Some M"
proof -
  have one: "\<exists>cs. tx_leaves p rows t = Some cs" if "t \<in> set (chunk_txs blocks)" for t
  proof -
    have "\<forall>co \<in> set cos. length (co_cmx co) = 32 \<Longrightarrow> \<exists>cs. those (map (hash32 \<circ> co_cmx) cos) = Some cs" for cos
      by (induction cos) (auto simp: hash32_def)
    then show ?thesis using assms that by (cases t) (force simp: tx_leaves_def tx_of_def)
  qed
  have "(\<And>t. t \<in> set ts \<Longrightarrow> \<exists>cs. tx_leaves p rows t = Some cs) \<Longrightarrow> \<exists>css. those (map (tx_leaves p rows) ts) = Some css" for ts
    by (induction ts) fastforce+
  from this [OF one] show ?thesis by (auto simp: chunk_leaves_def)
qed

text \<open>The stages of a chunk whose issuance is well-formed: everything before the spends has succeeded.\<close>

lemma add_stages:
  assumes "combines lib h" and "0 < wl_depth lib" and "tracked h lib L sy" and "blocks \<noteq> []"
    and "chunk_bound lib (sy_protocol sy) L blocks"
    and "decrypted_notes lib (sy_protocol sy) (sy_keys sy) blocks = Some ds"
    and "issue_chunk lib (sy_protocol sy) (sy_keys sy) blocks sy = (Inr (ins, rows), sy1)"
    and "chunk_leaves (sy_protocol sy) rows blocks = Some M"
  shows "\<exists>sy2 ns. tracked h lib (L @ commitments lib (sy_protocol sy) blocks) sy2
    \<and> set (sy_sent sy) \<subseteq> set (sy_sent sy2)
    \<and> (\<forall>k. unspent_key k sy2 \<longleftrightarrow> unspent_key k sy \<or> (\<exists>n \<in> set ns. k = (wn_account n, wn_nf n)))
    \<and> (\<forall>n \<in> set ns. MsgNote n \<in> set (sy_sent sy2) \<and> length L \<le> wn_position n
        \<and> wn_position n < length (L @ commitments lib (sy_protocol sy) blocks)
        \<and> wn_cmx n = (L @ commitments lib (sy_protocol sy) blocks) ! wn_position n)
    \<and> (\<forall>z \<in> set (ds @ ins). \<exists>n \<in> set ns. row_of (fst z) n)
    \<and> add lib blocks sy =
        andthen (for_each (spend_tx (sy_protocol sy) (map sk_account (sy_keys sy))) (chunk_txs blocks))
          (\<lambda>_. send (MsgCheckpoint (map sk_account (sy_keys sy)) (sy_pool sy) (block_height (last blocks)))) sy2"
proof -
  let ?p = "sy_protocol sy"
  let ?M = "commitments lib ?p blocks"
  have rising: "rising blocks" and bound: "length (L @ ?M) < 2 ^ 32"
    using assms(5) by (auto simp: chunk_bound_def)
  note rows = issue_chunk_ok [OF assms(7)]
  then have sy1: "sy1 = sy" by simp
  have keys: "sorted_wrt key_less (map tx_key (chunk_txs blocks))" using rising by (rule chunk_keys_sorted)
  have M: "M = ?M"
    using chunk_leaves_ok [OF assms(8)] rows issued_cmxs_rows [OF keys_distinct [OF keys]] by auto
  have ours: "\<forall>z \<in> set (sort_chunk_notes (ds @ ins)). \<exists>t \<in> set (chunk_txs blocks). note_of lib ?p t (fst z)"
    using rows decrypted_note_of [OF assms(6)] by fastforce
  have pos: "sy_position sy = length L" using assms(3) by (simp add: tracked_def)
  obtain ns w where ns: "place_notes lib ?p rows (sy_position sy) (sort_chunk_notes (ds @ ins)) (chunk_txs blocks) sy = (Inr ns, w)"
    "only_sends sy w" "set (sy_sent sy) \<subseteq> set (sy_sent w)" "\<forall>n \<in> set ns. MsgNote n \<in> set (sy_sent w)"
    "\<forall>z \<in> set (sort_chunk_notes (ds @ ins)). \<exists>n \<in> set ns. row_of (fst z) n"
    using place_notes_run [OF keys sort_chunk_notes_sorted ours] by blast
  have at: "\<forall>n \<in> set ns. length L \<le> wn_position n \<and> wn_position n < length (L @ ?M) \<and> wn_cmx n = (L @ ?M) ! wn_position n"
    using placed_notes [OF rising assms(6,7) ns(1) [unfolded pos]] bound by simp
  have same: "tracked h lib L w" "sy_protocol w = ?p" "sy_utxos w = sy_utxos sy"
    using ns(2) assms(3) tracked_only_sends only_sendsD by blast+
  obtain sy2 where sy2: "tracked h lib (L @ ?M) sy2" "set (sy_sent w) \<subseteq> set (sy_sent sy2)"
    "\<forall>k. unspent_key k sy2 \<longleftrightarrow> unspent_key k w \<or> (\<exists>n \<in> set ns. k = (wn_account n, wn_nf n))"
    "finish_chunk lib rows blocks ?p (sy_keys sy) (sy_pool sy) ns w =
        andthen (for_each (spend_tx ?p (map sk_account (sy_keys sy))) (chunk_txs blocks))
          (\<lambda>_. send (MsgCheckpoint (map sk_account (sy_keys sy)) (sy_pool sy) (block_height (last blocks)))) sy2"
    using finish_chunk_run [OF assms(1,2) same(1) bound _ at] assms(8) M same(2) by metis
  have "add lib blocks sy = finish_chunk lib rows blocks ?p (sy_keys sy) (sy_pool sy) ns w"
    using assms(4,6,7) ns(1) sy1 by (simp add: add_unfold andthen_def)
  moreover have "\<forall>k. unspent_key k sy2 \<longleftrightarrow> unspent_key k sy \<or> (\<exists>n \<in> set ns. k = (wn_account n, wn_nf n))"
    using sy2(3) same(3) by (simp add: unspent_key_def)
  moreover have "\<forall>n \<in> set ns. MsgNote n \<in> set (sy_sent sy2)" using ns(4) sy2(2) by blast
  moreover have "set (sy_sent sy) \<subseteq> set (sy_sent sy2)" using ns(3) sy2(2) by blast
  moreover have "\<forall>z \<in> set (ds @ ins). \<exists>n \<in> set ns. row_of (fst z) n" using ns(5) by simp
  ultimately show ?thesis using sy2(1,4) at by (intro exI [of _ sy2] exI [of _ ns]) simp
qed

lemma add_Inr_stages:
  assumes "add lib blocks sy = (Inr (), sy')" and "blocks \<noteq> []"
  shows "\<exists>ds ins rows sy1 M. decrypted_notes lib (sy_protocol sy) (sy_keys sy) blocks = Some ds
    \<and> issue_chunk lib (sy_protocol sy) (sy_keys sy) blocks sy = (Inr (ins, rows), sy1)
    \<and> chunk_leaves (sy_protocol sy) rows blocks = Some M"
proof -
  obtain ds ins rows sy1 ns w where r: "decrypted_notes lib (sy_protocol sy) (sy_keys sy) blocks = Some ds"
    "issue_chunk lib (sy_protocol sy) (sy_keys sy) blocks sy = (Inr (ins, rows), sy1)"
    "place_notes lib (sy_protocol sy) rows (sy_position sy) (sort_chunk_notes (ds @ ins)) (chunk_txs blocks) sy1 = (Inr ns, w)"
    "finish_chunk lib rows blocks (sy_protocol sy) (sy_keys sy) (sy_pool sy) ns w = (Inr (), sy')"
    using assms by (auto simp: add_unfold andthen_Inr)
  have "only_sends sy1 w" using only_sends_place_notes r(3) unfolding steps_def by (metis snd_conv)
  moreover have "sy1 = sy" using issue_chunk_ok [OF r(2)] by simp
  ultimately have "sy_protocol w = sy_protocol sy" using only_sendsD by blast
  then obtain M where "chunk_leaves (sy_protocol sy) rows blocks = Some M"
    using r(4) by (auto simp: finish_chunk_def update_witnesses_def andthen_Inr)
  then show ?thesis using r(1,2) by blast
qed

text \<open>The end of a chunk: the spends, then the checkpoint.\<close>

lemma spends_and_checkpoint:
  assumes "andthen (for_each (spend_tx p accounts) txs) (\<lambda>_. send m) sy2 = (Inr (), sy')"
  shows "\<exists>sy3. for_each (spend_tx p accounts) txs sy2 = (Inr (), sy3) \<and> accounted sy2 sy3
    \<and> sy' = sy3\<lparr> sy_sent := sy_sent sy3 @ [m] \<rparr>"
proof -
  obtain sy3 where r: "for_each (spend_tx p accounts) txs sy2 = (Inr (), sy3)" "send m sy3 = (Inr (), sy')"
    using assms by (auto simp: andthen_Inr)
  have "steps accounted (for_each (spend_tx p accounts) txs)" by (intro acc.steps_for_each spend_tx_steps)
  then have "accounted sy2 sy3" using r(1) unfolding steps_def by (metis snd_conv)
  then show ?thesis using r by (auto simp: send_def modify_def)
qed

lemma add_outcome:
  assumes "combines lib h" and "0 < wl_depth lib" and "tracked h lib L sy" and "blocks \<noteq> []"
    and "chunk_bound lib (sy_protocol sy) L blocks" and "add lib blocks sy = (Inr (), sy')"
  shows "tracked h lib (L @ commitments lib (sy_protocol sy) blocks) sy'
    \<and> (\<forall>t \<in> set (chunk_txs blocks). \<forall>nf \<in> set (extract_nullifiers (sy_protocol sy) (tx_of t)). \<forall>key \<in> set (sy_keys sy).
         \<not> unspent_key (sk_account key, nf) sy')
    \<and> (\<forall>k. unspent_key k sy \<longrightarrow> unspent_key k sy' \<or> spend_reported k sy')
    \<and> (\<forall>ds z. decrypted_notes lib (sy_protocol sy) (sy_keys sy) blocks = Some ds \<longrightarrow> z \<in> set ds \<longrightarrow>
        (\<exists>n. row_of (fst z) n \<and> MsgNote n \<in> set (sy_sent sy')
          \<and> wn_position n < length (L @ commitments lib (sy_protocol sy) blocks)
          \<and> wn_cmx n = (L @ commitments lib (sy_protocol sy) blocks) ! wn_position n
          \<and> (unspent_key (wn_account n, wn_nf n) sy' \<or> spend_reported (wn_account n, wn_nf n) sy')))"
proof -
  let ?p = "sy_protocol sy" and ?L = "L @ commitments lib (sy_protocol sy) blocks"
  let ?spends = "for_each (spend_tx ?p (map sk_account (sy_keys sy))) (chunk_txs blocks)"
  obtain ds ins rows sy1 M where st: "decrypted_notes lib ?p (sy_keys sy) blocks = Some ds"
    "issue_chunk lib ?p (sy_keys sy) blocks sy = (Inr (ins, rows), sy1)" "chunk_leaves ?p rows blocks = Some M"
    using add_Inr_stages [OF assms(6,4)] by blast
  obtain sy2 ns where sy2: "tracked h lib ?L sy2"
    "\<forall>k. unspent_key k sy2 \<longleftrightarrow> unspent_key k sy \<or> (\<exists>n \<in> set ns. k = (wn_account n, wn_nf n))"
    "\<forall>n \<in> set ns. MsgNote n \<in> set (sy_sent sy2) \<and> length L \<le> wn_position n \<and> wn_position n < length ?L
        \<and> wn_cmx n = ?L ! wn_position n"
    "\<forall>z \<in> set (ds @ ins). \<exists>n \<in> set ns. row_of (fst z) n"
    "add lib blocks sy = andthen ?spends
        (\<lambda>_. send (MsgCheckpoint (map sk_account (sy_keys sy)) (sy_pool sy) (block_height (last blocks)))) sy2"
    using add_stages [OF assms(1-5) st] by blast
  obtain sy3 where sy3: "?spends sy2 = (Inr (), sy3)" "accounted sy2 sy3"
    "sy' = sy3\<lparr> sy_sent := sy_sent sy3 @ [MsgCheckpoint (map sk_account (sy_keys sy)) (sy_pool sy) (block_height (last blocks))] \<rparr>"
    using spends_and_checkpoint assms(6) sy2(5) by metis
  have up: "unspent_key k sy' \<longleftrightarrow> unspent_key k sy3" "spend_reported k sy3 \<Longrightarrow> spend_reported k sy'" for k
    using sy3(3) by (auto simp: unspent_key_def spend_reported_def)
  have fate: "unspent_key k sy' \<or> spend_reported k sy'" if "unspent_key k sy2" for k
    using sy3(2) that up unfolding accounted_def unspent_key_def by blast
  have "tracked h lib ?L sy3"
    by (rule tracked_only_removes [OF _ sy2(1)]) (use sy3(2) in \<open>simp add: accounted_def\<close>)
  then have "tracked h lib ?L sy'" unfolding sy3(3) tracked_def by simp
  moreover have "\<not> unspent_key (sk_account key, nf) sy'"
    if "t \<in> set (chunk_txs blocks)" "nf \<in> set (extract_nullifiers ?p (tx_of t))" "key \<in> set (sy_keys sy)" for t nf key
    using spends_remove [OF sy3(1) that(1,2)] that(3) up(1) by simp
  moreover have "\<exists>n. row_of (fst z) n \<and> MsgNote n \<in> set (sy_sent sy') \<and> wn_position n < length ?L
      \<and> wn_cmx n = ?L ! wn_position n
      \<and> (unspent_key (wn_account n, wn_nf n) sy' \<or> spend_reported (wn_account n, wn_nf n) sy')" if z: "z \<in> set ds" for z
  proof -
    obtain n where n: "n \<in> set ns" "row_of (fst z) n" using sy2(4) z by auto
    have "MsgNote n \<in> set (sy_sent sy')"
      using sy2(3) n(1) sy3(2,3) by (auto simp: accounted_def only_removes_def)
    moreover have "unspent_key (wn_account n, wn_nf n) sy2" using sy2(2) n(1) by blast
    ultimately show ?thesis using n sy2(3) fate by blast
  qed
  ultimately show ?thesis using sy2(2) st(1) fate by (metis option.inject)
qed

section \<open>Outputs of the wrong shape\<close>

text \<open>
  The pool of a decrypted note follows the lead byte of its plaintext, not the pool that is
  scanned: an Orchard action with the lead byte of Ironwood is filed as an Ironwood note.
\<close>

lemma orchard_scan_files_ironwood_note:
  assumes "length (co_epk co) = 32" and "wl_point lib OrchardProtocol (co_epk co)" and "length (co_ciphertext co) = 52"
    and "lead_byte (wl_plain lib OrchardProtocol (sk_ivk key) (co_epk co) (co_ciphertext co)) = 3"
    and "length (co_nullifier co) = 32" and "wl_rho lib (co_nullifier co)" and "length (co_cmx co) = 32" and "wl_cmx lib (co_cmx co)"
    and "wl_parse lib IronwoodDomain (sk_ivk key) (co_nullifier co)
      (wl_plain lib OrchardProtocol (sk_ivk key) (co_epk co) (co_ciphertext co)) = Some pn" and "pn_cmx pn = co_cmx co"
  shows "\<exists>n. try_decrypt OrchardProtocol lib key height ivtx vout co = Some (Some n) \<and> wn_pool n = 3
    \<and> ut_pool (new_utxo lib 2 n) = 2"
  using assms by (simp add: try_orchard_decrypt_def try_vanilla_note_def matching_def found_note_def new_utxo_def)

text \<open>A Sapling output with a malformed ephemeral key panics; the same key in an action is an error that is logged.\<close>

lemma malformed_key_panics_in_sapling:
  assumes "length (co_epk co) \<noteq> 32 \<or> (\<forall>p. \<not> wl_point lib p (co_epk co))"
  shows "try_decrypt SaplingProtocol lib key height ivtx vout co = None
    \<and> try_decrypt OrchardProtocol lib key height ivtx vout co = Some None"
  using assms by (auto simp: try_sapling_decrypt_def try_orchard_decrypt_def)

section \<open>A scan on which the witnesses evaluate\<close>

text \<open>A tree of height two with one note of ours in it; the block spends it and pays us another.\<close>

definition ex_hash :: hash where
  "ex_hash d a b = d # take 2 a @ take 2 b"

definition ex_parse :: "note_domain \<Rightarrow> blob \<Rightarrow> blob \<Rightarrow> blob \<Rightarrow> parsed_note option" where
  "ex_parse d ivk rho pt = (if d = ZsaDomain
     then Some \<lparr> pn_raw = [7], pn_value = 500, pn_rcm = [], pn_diversifier = [], pn_asset = [], pn_cmx = replicate 32 (pt ! 1) \<rparr>
     else None)"

definition ex_warp_lib :: warp_lib where
  "ex_warp_lib = \<lparr> wl_canopy = None, wl_grace = 0, wl_point = (\<lambda>_ _. True), wl_plain = (\<lambda>_ _ _ ct. ct),
     wl_version = (\<lambda>_ _. True), wl_rho = (\<lambda>_. True), wl_cmx = (\<lambda>_. True), wl_rseed = (\<lambda>_ _. True),
     wl_address = (\<lambda>_. False), wl_owns = (\<lambda>_ _. False), wl_parse = ex_parse, wl_issue = (\<lambda>_ _. None),
     wl_nullifier = (\<lambda>_ _ pos _. replicate 32 (100 + pos)), wl_asset_base = (\<lambda>_ _. None),
     wl_witness = \<lparr> wi_position = 0, wi_value = [], wi_ommers = (\<lambda>_. None) \<rparr>, wl_depth = 2,
     wl_combine = (\<lambda>d nodes n. map (\<lambda>i. Some (ex_hash d (the (nodes ! (2 * i))) (the (nodes ! (2 * i + 1))))) [0..<n]) \<rparr>"

definition ex_scan_key :: scan_key where
  "ex_scan_key = \<lparr> sk_account = 1, sk_scope = 0, sk_ivk = [1], sk_nk = Some [2] \<rparr>"

definition ex_block :: compact_block where
  "ex_block = \<lparr> cb_height = 200, cb_hash = [200], cb_prev_hash = [199], cb_time = 3000, cb_vtx =
     [\<lparr> ct_hash = [70], ct_spends = [], ct_outputs = [], ct_actions =
         [\<lparr> co_nullifier = replicate 32 9, co_cmx = replicate 32 1, co_epk = replicate 32 0, co_ciphertext = replicate 52 0 \<rparr>,
          \<lparr> co_nullifier = replicate 32 8, co_cmx = replicate 32 2, co_epk = replicate 32 0,
            co_ciphertext = 3 # 2 # replicate 82 0 \<rparr>],
        ct_ironwood = [], ct_issuances = [] \<rparr>] \<rparr>"

definition ex_scanner :: synchronizer where
  "ex_scanner = \<lparr> sy_protocol = OrchardProtocol, sy_pool = 2, sy_keys = [ex_scan_key], sy_position = 1,
     sy_utxos = [\<lparr> ut_id = 1, ut_account = 1, ut_pool = 2, ut_position = 0, ut_nullifier = replicate 32 9, ut_value = 900,
       ut_cmx = replicate 32 5, ut_txid = [], ut_witness = \<lparr> wi_position = 0, wi_value = replicate 32 5,
         wi_ommers = (\<lambda>_. None) \<rparr> \<rparr>],
     sy_tree = (\<lambda>d. if d = 0 then Some (replicate 32 5) else None), sy_sent = [] \<rparr>"

abbreviation ex_leaves :: "blob list" where
  "ex_leaves \<equiv> [replicate 32 5]"

abbreviation ex_scanned :: synchronizer where
  "ex_scanned \<equiv> snd (add ex_warp_lib [ex_block] ex_scanner)"

lemma ex_combines: "combines ex_warp_lib ex_hash"
  by (simp add: combines_def ex_warp_lib_def)

lemma ex_depth: "0 < wl_depth ex_warp_lib"
  by (simp add: ex_warp_lib_def)

lemma ex_tracked: "tracked ex_hash ex_warp_lib ex_leaves ex_scanner"
  by (auto simp: tracked_def tree_ok_def witness_ok_def ex_scanner_def ex_warp_lib_def less_2_cases_iff edge_at_def
      complete_nodes_def ommer_at_def sibling_def)

lemma ex_chunk_bound: "chunk_bound ex_warp_lib (sy_protocol ex_scanner) ex_leaves [ex_block]"
  by code_simp

lemma ex_added: "add ex_warp_lib [ex_block] ex_scanner = (Inr (), ex_scanned)"
proof -
  have "fst (add ex_warp_lib [ex_block] ex_scanner) = Inr ()" by code_simp
  then show ?thesis by (metis prod.collapse)
qed

definition ex_found :: warp_note where
  "ex_found = found_note 2 ex_scan_key 200 0 1 (replicate 32 8) (the (ex_parse ZsaDomain [] [] [3, 2]))"

lemma ex_decrypted:
  "decrypted_notes ex_warp_lib (sy_protocol ex_scanner) (sy_keys ex_scanner) [ex_block] = Some [(ex_found, Some [2])]"
  by code_simp

lemma ex_well_formed: "well_formed ex_warp_lib ex_scanner [ex_block]"
  by code_simp

lemma ex_commitments: "commitments ex_warp_lib (sy_protocol ex_scanner) [ex_block] = [replicate 32 1, replicate 32 2]"
  by code_simp

lemma ex_txs: "chunk_txs [ex_block] = [(ex_block, 0, hd (cb_vtx ex_block))]"
  by code_simp

lemma ex_revealed: "replicate 32 9 \<in> set (extract_nullifiers (sy_protocol ex_scanner) (hd (cb_vtx ex_block)))"
  by code_simp

lemma ex_keys: "ex_scan_key \<in> set (sy_keys ex_scanner)"
  by (simp add: ex_scanner_def)

lemmas ex_scan = ex_combines ex_depth ex_tracked ex_chunk_bound ex_added

section \<open>Properties\<close>

lemma add_keeps_tracked:
  assumes "combines lib h" and "0 < wl_depth lib" and "tracked h lib L sy"
    and "chunk_bound lib (sy_protocol sy) L blocks" and "add lib blocks sy = (Inr (), sy')"
  shows "tracked h lib (L @ commitments lib (sy_protocol sy) blocks) sy'"
proof (cases "blocks = []")
  case True
  then show ?thesis using assms(3,5) by (simp add: add_def commitments_def)
next
  case False
  then show ?thesis using add_outcome [OF assms(1-3) _ assms(4,5)] by blast
qed

text \<open>
  C32: after a chunk the position, the edge of the tree and the ommers of every unspent note,
  old and new, are those of the commitment tree with the commitments of the chunk appended: the
  level-by-level update of the code agrees with the tree recomputed from all its leaves.
\<close>

theorem witnesses_track_the_tree:
  assumes "combines lib h" and "0 < wl_depth lib" and "tracked h lib L sy"
    and "chunk_bound lib (sy_protocol sy) L blocks" and "add lib blocks sy = (Inr (), sy')"
  shows "tracked h lib (L @ commitments lib (sy_protocol sy) blocks) sy'"
  by (rule add_keeps_tracked [OF assms])

lemma witnesses_track_the_tree_witness:
  "tracked ex_hash ex_warp_lib [replicate 32 5, replicate 32 1, replicate 32 2] ex_scanned"
  using witnesses_track_the_tree [OF ex_scan] by (simp add: ex_commitments)

text \<open>
  C33: a note that the trial decryption finds is never lost: it is sent to the writer, with its
  transaction and at the position of its own commitment in the tree, and at the end of the chunk it is
  unspent or its spend was reported.
\<close>

theorem found_note_is_kept:
  assumes "combines lib h" and "0 < wl_depth lib" and "tracked h lib L sy"
    and "chunk_bound lib (sy_protocol sy) L blocks" and "add lib blocks sy = (Inr (), sy')"
    and "decrypted_notes lib (sy_protocol sy) (sy_keys sy) blocks = Some ds" and "(n, nk) \<in> set ds"
  shows "\<exists>m. row_of n m \<and> MsgNote m \<in> set (sy_sent sy')
    \<and> wn_position m < length (L @ commitments lib (sy_protocol sy) blocks)
    \<and> wn_cmx m = (L @ commitments lib (sy_protocol sy) blocks) ! wn_position m
    \<and> (unspent_key (wn_account m, wn_nf m) sy' \<or> spend_reported (wn_account m, wn_nf m) sy')"
proof -
  have "blocks \<noteq> []" using assms(6,7) by (auto simp: decrypted_notes_def chunk_outputs_def)
  from add_outcome [OF assms(1-3) this assms(4,5)] assms(6,7) show ?thesis by fastforce
qed

lemma found_note_is_kept_witness:
  "\<exists>m. row_of ex_found m \<and> MsgNote m \<in> set (sy_sent ex_scanned)"
  using found_note_is_kept [OF ex_scan ex_decrypted, of ex_found "Some [2]"] by auto

text \<open>
  C34: a nullifier that the chunk reveals leaves no unspent note behind in any account of the
  scan, and an unspent note goes away only with its spend reported to the writer.
\<close>

theorem revealed_spend_is_reported:
  assumes "combines lib h" and "0 < wl_depth lib" and "tracked h lib L sy"
    and "chunk_bound lib (sy_protocol sy) L blocks" and "add lib blocks sy = (Inr (), sy')"
    and "(b, ivtx, tx) \<in> set (chunk_txs blocks)" and "nf \<in> set (extract_nullifiers (sy_protocol sy) tx)"
    and "key \<in> set (sy_keys sy)"
  shows "\<not> unspent_key (sk_account key, nf) sy'
    \<and> (unspent_key k sy \<longrightarrow> unspent_key k sy' \<or> spend_reported k sy')"
proof -
  have "blocks \<noteq> []" using assms(6) by (auto simp: chunk_txs_def)
  from add_outcome [OF assms(1-3) this assms(4,5)] assms(6-8) show ?thesis by (fastforce simp: tx_of_def)
qed

lemma revealed_spend_is_reported_witness:
  "\<not> unspent_key (1, replicate 32 9) ex_scanned \<and> spend_reported (1, replicate 32 9) ex_scanned"
proof -
  have "(ex_block, 0, hd (cb_vtx ex_block)) \<in> set (chunk_txs [ex_block])" by (simp add: ex_txs)
  moreover have "unspent_key (1, replicate 32 9) ex_scanner" by code_simp
  moreover have "sk_account ex_scan_key = 1" by (simp add: ex_scan_key_def)
  ultimately show ?thesis
    using revealed_spend_is_reported [OF ex_scan _ ex_revealed ex_keys, of ex_block 0 "(1, replicate 32 9)"] by simp blast
qed

text \<open>
  C35: on a chunk whose outputs decrypt without a panic and whose commitments and nullifiers have
  32 bytes, no \<open>unwrap\<close>, index or \<open>assert\<close> of the scanner panics.
\<close>

theorem scan_never_panics:
  assumes "combines lib h" and "0 < wl_depth lib" and "tracked h lib L sy"
    and "chunk_bound lib (sy_protocol sy) L blocks" and "well_formed lib sy blocks"
  shows "fst (add lib blocks sy) \<noteq> Inl WarpPanic"
proof (cases "blocks = []")
  case True
  then show ?thesis by (simp add: add_def ret_def)
next
  case False
  let ?p = "sy_protocol sy"
  obtain ds where ds: "decrypted_notes lib ?p (sy_keys sy) blocks = Some ds" using assms(5) by (auto simp: well_formed_def)
  show ?thesis
  proof (cases "issue_chunk lib ?p (sy_keys sy) blocks sy")
    case (Pair r sy1)
    show ?thesis
    proof (cases r)
      case (Inl e)
      then have "e = WarpError"
        using issue_chunk_errors [of lib ?p "sy_keys sy" blocks, unfolded only_errors_def, rule_format, of sy e] Pair by simp
      then show ?thesis using False ds Pair Inl by (simp add: add_unfold andthen_def)
    next
      case (Inr v)
      obtain ins rows where v: "v = (ins, rows)" by (cases v) auto
      obtain M where M: "chunk_leaves ?p rows blocks = Some M"
        using chunk_leaves_some [of blocks ?p rows] assms(5) by (auto simp: well_formed_def)
      obtain sy2 where sy2: "add lib blocks sy = andthen (for_each (spend_tx ?p (map sk_account (sy_keys sy))) (chunk_txs blocks))
          (\<lambda>_. send (MsgCheckpoint (map sk_account (sy_keys sy)) (sy_pool sy) (block_height (last blocks)))) sy2"
        using add_stages [OF assms(1-3) False assms(4) ds _ M] Pair Inr v by blast
      have "fst (for_each (spend_tx ?p (map sk_account (sy_keys sy))) (chunk_txs blocks) sy2) = Inr ()"
        by (rule spends_succeed) (use assms(5) in \<open>auto simp: well_formed_def\<close>)
      then show ?thesis
        unfolding sy2 by (cases "for_each (spend_tx ?p (map sk_account (sy_keys sy))) (chunk_txs blocks) sy2")
          (simp add: andthen_def send_def modify_def)
    qed
  qed
qed

lemma scan_never_panics_witness: "fst (add ex_warp_lib [ex_block] ex_scanner) \<noteq> Inl WarpPanic"
  by (rule scan_never_panics [OF ex_combines ex_depth ex_tracked ex_chunk_bound ex_well_formed])

end
