(* ===== verification/Warp_Stream.thy ===== *)
theory Warp_Stream
  imports Warp_Sync Warp_Properties
begin

text \<open>
  What a scan guarantees: only blocks that connect reach the scanners, a scan that ends as
  completed has taken the whole stream up to its end, with every pool's witnesses at the tree of all of
  it, and a reorg is reported with the rewind as the last message.
\<close>

section \<open>The blocks of a stream\<close>

fun arrived :: "reader_event list \<Rightarrow> compact_block list" where
  "arrived [] = []"
| "arrived (Arrived b # evs) = b # arrived evs"
| "arrived (_ # evs) = arrived evs"

fun chunks :: "block_message list \<Rightarrow> compact_block list" where
  "chunks [] = []"
| "chunks (BlockChunk bs # ms) = bs @ chunks ms"
| "chunks (_ # ms) = chunks ms"

fun plain :: "block_message \<Rightarrow> bool" where
  "plain (BlockChunk bs) = (bs \<noteq> [])"
| "plain (SaveHeader h x t) = True"
| "plain _ = False"

text \<open>Each block names the one before it; the first names the block that every account stands at.\<close>

fun connected :: "blob list \<Rightarrow> blob option \<Rightarrow> compact_block list \<Rightarrow> bool" where
  "connected frontier prev [] = True"
| "connected frontier prev (b # bs) = ((case prev of Some h \<Rightarrow> cb_prev_hash b = h
     | None \<Rightarrow> \<forall>h \<in> set frontier. h = cb_prev_hash b) \<and> connected frontier (Some (cb_hash b)) bs)"

definition reached :: "u32 \<Rightarrow> compact_block list \<Rightarrow> u32" where
  "reached h bs = (if bs = [] then h else block_height (last bs))"

lemma chunks_append [simp]: "chunks (ms @ ms') = chunks ms @ chunks ms'"
  by (induction ms rule: chunks.induct) auto

lemma arrived_append [simp]: "arrived (evs @ evs') = arrived evs @ arrived evs'"
  by (induction evs rule: arrived.induct) auto

lemma reached_Cons: "reached h (b # bs) = reached (block_height b) bs"
  by (simp add: reached_def)

lemma connected_Cons:
  "connected (rc_frontier rc) (rd_prev_hash rd) (b # bs) =
     (\<not> discontinuity rc rd b \<and> connected (rc_frontier rc) (Some (cb_hash b)) bs)"
  by (auto simp: discontinuity_def list_ex_iff split: option.split)

section \<open>The reader\<close>

definition header_message :: "reader \<Rightarrow> compact_block \<Rightarrow> block_message list" where
  "header_message rd b = (if block_height b \<in> rd_no_time rd then [SaveHeader (block_height b) (cb_hash b) (cb_time b)] else [])"

lemma chunks_header [simp]: "chunks (header_message rd b) = []" "\<forall>m \<in> set (header_message rd b). plain m"
  by (simp_all add: header_message_def)

lemma read_block_cases:
  obtains "discontinuity rc rd b" "read_block rc rd b = ([ReorgMessage (rc_accounts rc) (sub32 (block_height b) 1)], None)"
  | rd' where "\<not> discontinuity rc rd b" "read_block rc rd b = (header_message rd b, Some rd')"
      "rd_blocks rd' = rd_blocks rd @ [b]" "rd_height rd' = block_height b" "rd_prev_hash rd' = Some (cb_hash b)"
  | rd' where "\<not> discontinuity rc rd b" "read_block rc rd b = (header_message rd b @ [BlockChunk (rd_blocks rd @ [b])], Some rd')"
      "rd_blocks rd' = []" "rd_height rd' = block_height b" "rd_prev_hash rd' = Some (cb_hash b)"
proof (cases "discontinuity rc rd b")
  case True
  then show ?thesis using that(1) by (simp add: read_block_def Let_def)
next
  case False
  show ?thesis
  proof (cases "rc_actions rc \<le> rd_count rd + block_actions b")
    case True
    then show ?thesis using False that(3) by (simp add: read_block_def Let_def header_message_def)
  next
    case f: False
    then show ?thesis using False that(2) by (simp add: read_block_def Let_def header_message_def)
  qed
qed

lemma pending_chunk_chunks [simp]: "chunks (pending_chunk rd) = rd_blocks rd" "\<forall>m \<in> set (pending_chunk rd). plain m"
  by (simp_all add: pending_chunk_def)

text \<open>What the reader hands over is a connected prefix of what it received.\<close>

lemma read_stream_prefix:
  "read_stream rc rd evs = (ms, over) \<Longrightarrow>
   \<exists>pre post rest. evs = pre @ post \<and> rd_blocks rd @ arrived pre = chunks ms @ rest
     \<and> connected (rc_frontier rc) (rd_prev_hash rd) (arrived pre)"
proof (induction evs arbitrary: rd ms)
  case Nil
  then have "chunks ms = []" by auto
  then show ?case by (intro exI [of _ "[]"] exI [of _ "rd_blocks rd"]) simp
next
  case (Cons ev evs)
  have stop: ?case if c: "chunks ms = rd_blocks rd \<or> chunks ms = []"
  proof -
    obtain rest where "rd_blocks rd = chunks ms @ rest" using c by (elim disjE) auto
    then show ?thesis by (intro exI [of _ "[]"] exI [of _ "ev # evs"] exI [of _ rest]) simp
  qed
  show ?case
  proof (cases ev)
    case TimerTick
    show ?thesis
    proof (cases "rd_prev_height rd = rd_height rd")
      case True
      then show ?thesis using Cons.prems TimerTick stop by auto
    next
      case False
      let ?rd = "rd\<lparr> rd_prev_height := rd_height rd \<rparr>"
      obtain ms' where "read_stream rc ?rd evs = (ms', over)" "ms = ms'"
        using Cons.prems TimerTick False by (auto split: prod.splits)
      from Cons.IH [OF this(1)] this(2) obtain pre post rest where "evs = pre @ post"
        "rd_blocks rd @ arrived pre = chunks ms @ rest" "connected (rc_frontier rc) (rd_prev_hash rd) (arrived pre)"
        by auto
      then show ?thesis using TimerTick by (intro exI [of _ "ev # pre"] exI [of _ post]) auto
    qed
  next
    case (Arrived b)
    show ?thesis
    proof (cases rule: read_block_cases [of rc rd b])
      case 1
      then show ?thesis using Cons.prems Arrived stop by auto
    next
      case (2 rd')
      obtain ms' where m: "read_stream rc rd' evs = (ms', over)" "ms = header_message rd b @ ms'"
        using Cons.prems Arrived 2 by (auto split: prod.splits)
      from Cons.IH [OF m(1)] obtain pre post rest where p: "evs = pre @ post"
        "rd_blocks rd' @ arrived pre = chunks ms' @ rest" "connected (rc_frontier rc) (rd_prev_hash rd') (arrived pre)"
        by blast
      have "connected (rc_frontier rc) (rd_prev_hash rd) (b # arrived pre)" using p(3) 2 unfolding connected_Cons by simp
      then show ?thesis using p 2 m(2) Arrived by (intro exI [of _ "ev # pre"] exI [of _ post] exI [of _ rest]) simp
    next
      case (3 rd')
      obtain ms' where m: "read_stream rc rd' evs = (ms', over)" "ms = header_message rd b @ BlockChunk (rd_blocks rd @ [b]) # ms'"
        using Cons.prems Arrived 3 by (auto split: prod.splits)
      from Cons.IH [OF m(1)] obtain pre post rest where p: "evs = pre @ post"
        "rd_blocks rd' @ arrived pre = chunks ms' @ rest" "connected (rc_frontier rc) (rd_prev_hash rd') (arrived pre)"
        by blast
      have "connected (rc_frontier rc) (rd_prev_hash rd) (b # arrived pre)" using p(3) 3 unfolding connected_Cons by simp
      then show ?thesis using p 3 m(2) Arrived by (intro exI [of _ "ev # pre"] exI [of _ post] exI [of _ rest]) simp
    qed
  qed (use Cons.prems stop in auto)
qed

text \<open>A reader that ends without a verdict has had the whole stream, up to its end.\<close>

lemma read_stream_whole:
  "read_stream rc rd evs = (ms, True) \<Longrightarrow> \<forall>m \<in> set ms. plain m \<Longrightarrow>
   \<exists>pre post. evs = pre @ StreamEnded # post \<and> rd_blocks rd @ arrived pre = chunks ms
     \<and> connected (rc_frontier rc) (rd_prev_hash rd) (arrived pre) \<and> rc_end rc \<le> reached (rd_height rd) (arrived pre)"
proof (induction evs arbitrary: rd ms)
  case (Cons ev evs)
  show ?case
  proof (cases ev)
    case TimerTick
    then have f: "rd_prev_height rd \<noteq> rd_height rd" using Cons.prems by auto
    let ?rd = "rd\<lparr> rd_prev_height := rd_height rd \<rparr>"
    obtain ms' where "read_stream rc ?rd evs = (ms', True)" "ms = ms'"
      using Cons.prems TimerTick f by (auto split: prod.splits)
    from Cons.IH [OF this(1)] this(2) Cons.prems(2) obtain pre post where "evs = pre @ StreamEnded # post"
      "rd_blocks rd @ arrived pre = chunks ms" "connected (rc_frontier rc) (rd_prev_hash rd) (arrived pre)"
      "rc_end rc \<le> reached (rd_height rd) (arrived pre)" by auto
    then show ?thesis using TimerTick by (intro exI [of _ "ev # pre"] exI [of _ post]) auto
  next
    case (Arrived b)
    show ?thesis
    proof (cases rule: read_block_cases [of rc rd b])
      case 1
      then show ?thesis using Cons.prems Arrived by auto
    next
      case (2 rd')
      obtain ms' where m: "read_stream rc rd' evs = (ms', True)" "ms = header_message rd b @ ms'"
        using Cons.prems Arrived 2 by (auto split: prod.splits)
      then have "\<forall>m \<in> set ms'. plain m" using Cons.prems(2) by simp
      from Cons.IH [OF m(1) this] obtain pre post where p: "evs = pre @ StreamEnded # post"
        "rd_blocks rd' @ arrived pre = chunks ms'" "connected (rc_frontier rc) (rd_prev_hash rd') (arrived pre)"
        "rc_end rc \<le> reached (rd_height rd') (arrived pre)" by blast
      have "connected (rc_frontier rc) (rd_prev_hash rd) (b # arrived pre)" using p(3) 2 unfolding connected_Cons by simp
      then show ?thesis using p 2 m(2) Arrived by (intro exI [of _ "ev # pre"] exI [of _ post]) (simp add: reached_Cons)
    next
      case (3 rd')
      obtain ms' where m: "read_stream rc rd' evs = (ms', True)" "ms = header_message rd b @ BlockChunk (rd_blocks rd @ [b]) # ms'"
        using Cons.prems Arrived 3 by (auto split: prod.splits)
      then have "\<forall>m \<in> set ms'. plain m" using Cons.prems(2) by simp
      from Cons.IH [OF m(1) this] obtain pre post where p: "evs = pre @ StreamEnded # post"
        "rd_blocks rd' @ arrived pre = chunks ms'" "connected (rc_frontier rc) (rd_prev_hash rd') (arrived pre)"
        "rc_end rc \<le> reached (rd_height rd') (arrived pre)" by blast
      have "connected (rc_frontier rc) (rd_prev_hash rd) (b # arrived pre)" using p(3) 3 unfolding connected_Cons by simp
      then show ?thesis using p 3 m(2) Arrived by (intro exI [of _ "ev # pre"] exI [of _ post]) (simp add: reached_Cons)
    qed
  next
    case StreamEnded
    then have "ms = pending_chunk rd" "rc_end rc \<le> rd_height rd" using Cons.prems by (auto split: if_splits)
    then show ?thesis using StreamEnded by (intro exI [of _ "[]"] exI [of _ evs]) (simp add: reached_def)
  qed (use Cons.prems in auto)
qed simp

text \<open>A reorg is the verdict on the first block that does not connect.\<close>

lemma read_stream_reorg:
  "read_stream rc rd evs = (ms, over) \<Longrightarrow> ReorgMessage accounts h \<in> set ms \<Longrightarrow>
   \<exists>pre b post. evs = pre @ Arrived b # post \<and> accounts = rc_accounts rc \<and> h = sub32 (block_height b) 1
     \<and> connected (rc_frontier rc) (rd_prev_hash rd) (arrived pre)
     \<and> \<not> connected (rc_frontier rc) (rd_prev_hash rd) (arrived pre @ [b])"
proof (induction evs arbitrary: rd ms)
  case (Cons ev evs)
  show ?case
  proof (cases ev)
    case TimerTick
    then have f: "rd_prev_height rd \<noteq> rd_height rd" using Cons.prems by auto
    let ?rd = "rd\<lparr> rd_prev_height := rd_height rd \<rparr>"
    obtain ms' where "read_stream rc ?rd evs = (ms', over)" "ms = ms'"
      using Cons.prems TimerTick f by (auto split: prod.splits)
    from Cons.IH [OF this(1)] this(2) Cons.prems(2) show ?thesis
      using TimerTick by (metis append_Cons arrived.simps(3) reader.simps(5) reader.surjective reader.update_convs(3))
  next
    case (Arrived b)
    have step: ?thesis if r: "read_block rc rd b = (hd, Some rd')" "\<not> discontinuity rc rd b" "rd_prev_hash rd' = Some (cb_hash b)"
      and none: "ReorgMessage accounts h \<notin> set hd" for hd rd'
    proof -
      obtain ms' where m: "read_stream rc rd' evs = (ms', over)" "ms = hd @ ms'"
        using Cons.prems Arrived r(1) by (auto split: prod.splits)
      then have "ReorgMessage accounts h \<in> set ms'" using Cons.prems(2) none by simp
      from Cons.IH [OF m(1) this] obtain pre b' post where p: "evs = pre @ Arrived b' # post" "accounts = rc_accounts rc"
        "h = sub32 (block_height b') 1" "connected (rc_frontier rc) (rd_prev_hash rd') (arrived pre)"
        "\<not> connected (rc_frontier rc) (rd_prev_hash rd') (arrived pre @ [b'])" by blast
      have "connected (rc_frontier rc) (rd_prev_hash rd) (b # arrived pre)"
        "\<not> connected (rc_frontier rc) (rd_prev_hash rd) (b # arrived pre @ [b'])"
        using p(4,5) r(2,3) unfolding connected_Cons by simp_all
      then show ?thesis using p(1-3) Arrived by (intro exI [of _ "ev # pre"] exI [of _ b'] exI [of _ post]) simp
    qed
    show ?thesis
    proof (cases rule: read_block_cases [of rc rd b])
      case 1
      then have "accounts = rc_accounts rc \<and> h = sub32 (block_height b) 1" using Cons.prems Arrived by auto
      moreover have "\<not> connected (rc_frontier rc) (rd_prev_hash rd) ([] @ [b])" using 1(1) by (simp only: append_Nil connected_Cons) simp
      ultimately show ?thesis using Arrived by (intro exI [of _ "[]"] exI [of _ b] exI [of _ evs]) simp
    next
      case (2 rd')
      then show ?thesis by (intro step [OF 2(2,1,5)]) (simp add: header_message_def)
    next
      case (3 rd')
      then show ?thesis by (intro step [OF 3(2,1,5)]) (simp add: header_message_def)
    qed
  qed (use Cons.prems in \<open>auto simp: pending_chunk_def split: if_splits\<close>)
qed simp

section \<open>The scanners\<close>

definition scanner_of :: "protocol \<Rightarrow> scanners \<Rightarrow> synchronizer option" where
  "scanner_of p w = (case p of SaplingProtocol \<Rightarrow> Some (sc_sapling w) | OrchardProtocol \<Rightarrow> Some (sc_orchard w)
     | IronwoodProtocol \<Rightarrow> sc_ironwood w)"

definition all_tracked :: "(protocol \<Rightarrow> hash) \<Rightarrow> (protocol \<Rightarrow> warp_lib) \<Rightarrow> (protocol \<Rightarrow> blob list) \<Rightarrow> scanners \<Rightarrow> bool" where
  "all_tracked hs lib L w = (\<forall>p sy. scanner_of p w = Some sy \<longrightarrow> sy_protocol sy = p \<and> tracked (hs p) (lib p) (L p) sy)"

definition trees :: "(protocol \<Rightarrow> hash) \<Rightarrow> (protocol \<Rightarrow> warp_lib) \<Rightarrow> bool" where
  "trees hs lib = (\<forall>p. combines (lib p) (hs p) \<and> 0 < wl_depth (lib p))"

definition all_bound :: "(protocol \<Rightarrow> warp_lib) \<Rightarrow> (protocol \<Rightarrow> blob list) \<Rightarrow> compact_block list \<Rightarrow> bool" where
  "all_bound lib L bs = (\<forall>p. chunk_bound (lib p) p (L p) bs)"

definition grown :: "(protocol \<Rightarrow> warp_lib) \<Rightarrow> (protocol \<Rightarrow> blob list) \<Rightarrow> compact_block list \<Rightarrow> protocol \<Rightarrow> blob list" where
  "grown lib L bs p = L p @ commitments (lib p) p bs"

lemma commitments_append: "commitments lib p (bs @ bs') = commitments lib p bs @ commitments lib p bs'"
  by (simp add: commitments_def)

lemma grown_append: "grown lib (grown lib L bs) bs' = grown lib L (bs @ bs')"
  by (simp add: grown_def commitments_append fun_eq_iff)

lemma chunk_bound_append:
  "chunk_bound lib p L (bs @ bs') \<Longrightarrow> chunk_bound lib p L bs \<and> chunk_bound lib p (L @ commitments lib p bs) bs'"
  by (auto simp: chunk_bound_def rising_def sorted_wrt_append commitments_append)

lemma all_bound_append:
  "all_bound lib L (bs @ bs') \<Longrightarrow> all_bound lib L bs \<and> all_bound lib (grown lib L bs) bs'"
  using chunk_bound_append unfolding all_bound_def grown_def by blast

text \<open>A chunk keeps the protocol, the pool and the keys of a scanner.\<close>

definition same_scan :: "synchronizer \<Rightarrow> synchronizer \<Rightarrow> bool" where
  "same_scan sy sy' = (sy_protocol sy' = sy_protocol sy \<and> sy_keys sy' = sy_keys sy \<and> sy_pool sy' = sy_pool sy)"

interpretation same: two_state same_scan
  by unfold_locales (simp_all add: same_scan_def)

lemma same_scan_fold: "(\<And>s x. steps same_scan (f s x)) \<Longrightarrow> steps same_scan (fold_prog f s xs)"
  by (induction xs arbitrary: s) auto

lemma same_scan_issue: "steps same_scan (issue_chunk lib p keys blocks)"
  unfolding issue_chunk_def issue_tx_def issue_action_def issue_one_def
  by (auto intro!: same_scan_fold same.steps_andthen split: prod.split)

lemma same_scan_finish: "steps same_scan (finish_chunk lib rows blocks p keys pool ns)"
proof -
  have sends: "steps same_scan (send m)" for m by (simp add: send_def same.steps_modify same_scan_def)
  have spends: "steps same_scan (spend_tx p accounts t)" for accounts t
    by (rule steps_mono [OF only_removes_spend_tx]) (simp add: only_removes_def same_scan_def)
  show ?thesis
    unfolding finish_chunk_def update_witnesses_def
    by (intro same.steps_andthen same.steps_for_each same.steps_pure same.steps_modify sends spends) (simp_all add: same_scan_def)
qed

lemma same_scan_add: "steps same_scan (add lib blocks)"
proof -
  have "steps same_scan (place_notes lib p rows base ns txs)" for p rows base ns txs
    by (rule steps_mono [OF only_sends_place_notes]) (simp add: only_sendsD same_scan_def)
  then show ?thesis
    unfolding add_def
    by (auto intro!: same.steps_andthen same_scan_issue same_scan_finish split: prod.split)
qed

lemma tracked_sent [simp]: "tracked h lib L (sy\<lparr> sy_sent := s \<rparr>) = tracked h lib L sy"
  by (simp add: tracked_def)

text \<open>The chunk in one scanner.\<close>

lemma add_tracks:
  assumes "trees hs lib" and "all_bound lib L bs" and "sy_protocol sy = p" and "tracked (hs p) (lib p) (L p) sy"
    and "add (lib p) bs (sy\<lparr> sy_sent := s \<rparr>) = (Inr (), sy')"
  shows "sy_protocol sy' = p \<and> tracked (hs p) (lib p) (grown lib L bs p) sy'"
proof -
  have "same_scan (sy\<lparr> sy_sent := s \<rparr>) sy'" using same_scan_add assms(5) unfolding steps_def by (metis snd_conv)
  then have "sy_protocol sy' = p" using assms(3) by (simp add: same_scan_def)
  moreover have "tracked (hs p) (lib p) (L p @ commitments (lib p) (sy_protocol (sy\<lparr> sy_sent := s \<rparr>)) bs) sy'"
  proof (rule add_keeps_tracked)
    show "combines (lib p) (hs p)" "0 < wl_depth (lib p)" using assms(1) by (simp_all add: trees_def)
    show "tracked (hs p) (lib p) (L p) (sy\<lparr> sy_sent := s \<rparr>)" using assms(4) by simp
    show "chunk_bound (lib p) (sy_protocol (sy\<lparr> sy_sent := s \<rparr>)) (L p) bs"
      using assms(2,3) by (simp add: all_bound_def)
    show "add (lib p) bs (sy\<lparr> sy_sent := s \<rparr>) = (Inr (), sy')" by fact
  qed
  ultimately show ?thesis using assms(3) by (simp add: grown_def)
qed

definition keeps_scanners :: "scanners \<Rightarrow> scanners \<Rightarrow> bool" where
  "keeps_scanners w w' = (\<forall>p. scanner_of p w' = scanner_of p w)"

interpretation ks: two_state keeps_scanners
  by unfold_locales (simp_all add: keeps_scanners_def)

lemma keeps_send_message [intro, simp]: "steps keeps_scanners (send_message m)"
  unfolding send_message_def
  by (rule ks.steps_modify) (simp add: keeps_scanners_def scanner_of_def split: protocol.split)

lemma keeps_tracked: "keeps_scanners w w' \<Longrightarrow> all_tracked hs lib L w' = all_tracked hs lib L w"
  by (simp add: keeps_scanners_def all_tracked_def)

lemma keeps_issuances: "steps keeps_scanners (for_each (\<lambda>(b, iss). send_issuance lib b iss) xs)"
  by (auto simp: send_issuance_def intro!: ks.steps_for_each ks.steps_andthen split: prod.split)

text \<open>One of the scanners moves to the end of the chunk.\<close>

definition moved_to :: "protocol set \<Rightarrow> (protocol \<Rightarrow> blob list) \<Rightarrow> (protocol \<Rightarrow> blob list) \<Rightarrow> protocol \<Rightarrow> blob list" where
  "moved_to P L L' p = (if p \<in> P then L' p else L p)"

lemma moved_to_ends [simp]: "moved_to {} L L' = L" "moved_to UNIV L L' = L'"
  by (simp_all add: moved_to_def fun_eq_iff)

lemma add_one:
  assumes "trees hs lib" and "all_bound lib L bs" and "p \<notin> P"
    and "all_tracked hs lib (moved_to P L (grown lib L bs)) w" and "scanner_of p w = Some sy"
    and "add (lib p) bs (sy\<lparr> sy_sent := sc_sent w \<rparr>) = (Inr (), sy')"
    and "scanner_of p w' = Some sy'" and "\<forall>q. q \<noteq> p \<longrightarrow> scanner_of q w' = scanner_of q w"
  shows "all_tracked hs lib (moved_to (insert p P) L (grown lib L bs)) w'"
proof -
  have "sy_protocol sy = p" "tracked (hs p) (lib p) (L p) sy"
    using assms(4) [unfolded all_tracked_def, rule_format, OF assms(5)] assms(3) by (simp_all add: moved_to_def)
  from add_tracks [OF assms(1,2) this assms(6)]
  have p: "sy_protocol sy' = p" "tracked (hs p) (lib p) (grown lib L bs p) sy'" by simp_all
  show ?thesis
    unfolding all_tracked_def
  proof (intro allI impI)
    fix q z assume z: "scanner_of q w' = Some z"
    show "sy_protocol z = q \<and> tracked (hs q) (lib q) (moved_to (insert p P) L (grown lib L bs) q) z"
    proof (cases "q = p")
      case True
      then show ?thesis using z assms(7) p by (simp add: moved_to_def)
    next
      case False
      then have "scanner_of q w = Some z" using z assms(8) by simp
      from assms(4) [unfolded all_tracked_def, rule_format, OF this] show ?thesis
        using False by (simp add: moved_to_def)
    qed
  qed
qed

lemma add_sapling_tracks:
  assumes "trees hs lib" and "all_bound lib L bs" and "SaplingProtocol \<notin> P"
    and "all_tracked hs lib (moved_to P L (grown lib L bs)) w" and "add_sapling (lib SaplingProtocol) bs w = (Inr (), w')"
  shows "all_tracked hs lib (moved_to (insert SaplingProtocol P) L (grown lib L bs)) w'"
proof -
  obtain r sy where a: "add (lib SaplingProtocol) bs ((sc_sapling w)\<lparr> sy_sent := sc_sent w \<rparr>) = (r, sy)" by fastforce
  then have e: "r = Inr ()" "w' = w\<lparr> sc_sapling := sy, sc_sent := sy_sent sy \<rparr>"
    using assms(5) by (simp_all add: add_sapling_def)
  show ?thesis
  proof (rule add_one [OF assms(1-4)])
    show "scanner_of SaplingProtocol w = Some (sc_sapling w)" by (simp add: scanner_of_def)
    show "add (lib SaplingProtocol) bs ((sc_sapling w)\<lparr> sy_sent := sc_sent w \<rparr>) = (Inr (), sy)" using a e(1) by simp
    show "scanner_of SaplingProtocol w' = Some sy" by (simp add: scanner_of_def e(2))
    show "\<forall>q. q \<noteq> SaplingProtocol \<longrightarrow> scanner_of q w' = scanner_of q w"
      by (simp add: scanner_of_def e(2) split: protocol.split)
  qed
qed

lemma add_orchard_tracks:
  assumes "trees hs lib" and "all_bound lib L bs" and "OrchardProtocol \<notin> P"
    and "all_tracked hs lib (moved_to P L (grown lib L bs)) w" and "add_orchard (lib OrchardProtocol) bs w = (Inr (), w')"
  shows "all_tracked hs lib (moved_to (insert OrchardProtocol P) L (grown lib L bs)) w'"
proof -
  obtain r sy where a: "add (lib OrchardProtocol) bs ((sc_orchard w)\<lparr> sy_sent := sc_sent w \<rparr>) = (r, sy)" by fastforce
  then have e: "r = Inr ()" "w' = w\<lparr> sc_orchard := sy, sc_sent := sy_sent sy \<rparr>"
    using assms(5) by (simp_all add: add_orchard_def)
  show ?thesis
  proof (rule add_one [OF assms(1-4)])
    show "scanner_of OrchardProtocol w = Some (sc_orchard w)" by (simp add: scanner_of_def)
    show "add (lib OrchardProtocol) bs ((sc_orchard w)\<lparr> sy_sent := sc_sent w \<rparr>) = (Inr (), sy)" using a e(1) by simp
    show "scanner_of OrchardProtocol w' = Some sy" by (simp add: scanner_of_def e(2))
    show "\<forall>q. q \<noteq> OrchardProtocol \<longrightarrow> scanner_of q w' = scanner_of q w"
      by (simp add: scanner_of_def e(2) split: protocol.split)
  qed
qed

lemma add_ironwood_tracks:
  assumes "trees hs lib" and "all_bound lib L bs" and "IronwoodProtocol \<notin> P"
    and "all_tracked hs lib (moved_to P L (grown lib L bs)) w" and "add_ironwood (lib IronwoodProtocol) bs w = (Inr (), w')"
  shows "all_tracked hs lib (moved_to (insert IronwoodProtocol P) L (grown lib L bs)) w'"
proof (cases "sc_ironwood w")
  case None
  then have "w' = w" using assms(5) by (simp add: add_ironwood_def)
  show ?thesis
    unfolding all_tracked_def \<open>w' = w\<close>
  proof (intro allI impI)
    fix q z assume z: "scanner_of q w = Some z"
    then have "q \<noteq> IronwoodProtocol" using None by (auto simp: scanner_of_def)
    with assms(4) [unfolded all_tracked_def, rule_format, OF z]
    show "sy_protocol z = q \<and> tracked (hs q) (lib q) (moved_to (insert IronwoodProtocol P) L (grown lib L bs) q) z"
      by (simp add: moved_to_def)
  qed
next
  case (Some sy0)
  obtain r sy where a: "add (lib IronwoodProtocol) bs (sy0\<lparr> sy_sent := sc_sent w \<rparr>) = (r, sy)" by fastforce
  then have e: "r = Inr ()" "w' = w\<lparr> sc_ironwood := Some sy, sc_sent := sy_sent sy \<rparr>"
    using assms(5) Some by (simp_all add: add_ironwood_def)
  show ?thesis
  proof (rule add_one [OF assms(1-4)])
    show "scanner_of IronwoodProtocol w = Some sy0" by (simp add: scanner_of_def Some)
    show "add (lib IronwoodProtocol) bs (sy0\<lparr> sy_sent := sc_sent w \<rparr>) = (Inr (), sy)" using a e(1) by simp
    show "scanner_of IronwoodProtocol w' = Some sy" by (simp add: scanner_of_def e(2))
    show "\<forall>q. q \<noteq> IronwoodProtocol \<longrightarrow> scanner_of q w' = scanner_of q w"
      by (simp add: scanner_of_def e(2) split: protocol.split)
  qed
qed

lemma keeps_run: "steps keeps_scanners m \<Longrightarrow> m w = (r, w') \<Longrightarrow> all_tracked hs lib L w \<Longrightarrow> all_tracked hs lib L w'"
  using keeps_tracked unfolding steps_def by (metis snd_conv)

lemma process_chunk_stages:
  assumes "process_chunk lib bs w = (Inr (), w')"
  shows "\<exists>w1 w2 w3 w4 w5. for_each (\<lambda>(b, iss). send_issuance (lib OrchardProtocol) b iss) (block_issuances bs) w = (Inr (), w1)
    \<and> add_sapling (lib SaplingProtocol) bs w1 = (Inr (), w2) \<and> add_orchard (lib OrchardProtocol) bs w2 = (Inr (), w3)
    \<and> add_ironwood (lib IronwoodProtocol) bs w3 = (Inr (), w4) \<and> bs \<noteq> []
    \<and> send_message (MsgBlockHeader (block_height (last bs)) (cb_hash (last bs)) (cb_time (last bs))) w4 = (Inr (), w5)
    \<and> send_message MsgCommit w5 = (Inr (), w')"
  using assms unfolding process_chunk_def Let_def andthen_Inr_unit ensure_Inr by blast

lemma process_chunk_tracks:
  assumes "trees hs lib" and "all_bound lib L bs" and "all_tracked hs lib L w" and "process_chunk lib bs w = (Inr (), w')"
  shows "bs \<noteq> [] \<and> all_tracked hs lib (grown lib L bs) w'"
proof -
  from process_chunk_stages [OF assms(4)] obtain w1 w2 w3 w4 w5 where r:
    "for_each (\<lambda>(b, iss). send_issuance (lib OrchardProtocol) b iss) (block_issuances bs) w = (Inr (), w1)"
    "add_sapling (lib SaplingProtocol) bs w1 = (Inr (), w2)" "add_orchard (lib OrchardProtocol) bs w2 = (Inr (), w3)"
    "add_ironwood (lib IronwoodProtocol) bs w3 = (Inr (), w4)" "bs \<noteq> []"
    "send_message (MsgBlockHeader (block_height (last bs)) (cb_hash (last bs)) (cb_time (last bs))) w4 = (Inr (), w5)"
    "send_message MsgCommit w5 = (Inr (), w')" by blast
  have "all_tracked hs lib (moved_to {} L (grown lib L bs)) w1"
    using keeps_run [OF keeps_issuances r(1) assms(3)] by simp
  from add_sapling_tracks [OF assms(1,2) _ this r(2)]
  have t2: "all_tracked hs lib (moved_to {SaplingProtocol} L (grown lib L bs)) w2" by simp
  from add_orchard_tracks [OF assms(1,2) _ t2 r(3)]
  have t3: "all_tracked hs lib (moved_to {OrchardProtocol, SaplingProtocol} L (grown lib L bs)) w3" by simp
  from add_ironwood_tracks [OF assms(1,2) _ t3 r(4)]
  have "all_tracked hs lib (moved_to {IronwoodProtocol, OrchardProtocol, SaplingProtocol} L (grown lib L bs)) w4" by simp
  moreover have "{IronwoodProtocol, OrchardProtocol, SaplingProtocol} = UNIV"
    using protocol.exhaust by blast
  ultimately have "all_tracked hs lib (grown lib L bs) w4" by simp
  from keeps_run [OF keeps_send_message r(7) keeps_run [OF keeps_send_message r(6) this]] r(5)
  show ?thesis by blast
qed

section \<open>The consumer\<close>

lemma consume_tracks:
  "consume lib ms w = (Inr None, w') \<Longrightarrow> trees hs lib \<Longrightarrow> all_bound lib L (chunks ms) \<Longrightarrow> all_tracked hs lib L w \<Longrightarrow>
   (\<forall>m \<in> set ms. plain m) \<and> all_tracked hs lib (grown lib L (chunks ms)) w'"
proof (induction lib ms arbitrary: L w rule: consume.induct)
  case (1 lib)
  then show ?case by (simp add: grown_def commitments_def)
next
  case (2 lib bs ms)
  obtain w1 where r: "process_chunk lib bs w = (Inr (), w1)" "consume lib ms w1 = (Inr None, w')"
    using 2(2) by (auto simp: andthen_Inr)
  have b: "all_bound lib L bs" "all_bound lib (grown lib L bs) (chunks ms)" using all_bound_append 2(4) by simp_all
  from process_chunk_tracks [OF 2(3) b(1) 2(5) r(1)] have "bs \<noteq> []" "all_tracked hs lib (grown lib L bs) w1" by simp_all
  with 2(1) [OF r(2) 2(3) b(2)] show ?case by (simp add: grown_append)
next
  case (3 lib height hash time ms)
  obtain w1 where r: "send_message (MsgBlockHeader height hash time) w = (Inr (), w1)" "consume lib ms w1 = (Inr None, w')"
    using 3(2) by (auto simp: andthen_Inr)
  have "keeps_scanners w w1" using keeps_send_message r(1) unfolding steps_def by (metis snd_conv)
  then have "all_tracked hs lib L w1" using 3(5) keeps_tracked by blast
  with 3(1) [OF r(2) 3(3)] 3(4) show ?case by simp
qed (simp_all add: andthen_Inr)

lemma consume_never_completes: "consume lib ms w = (Inr (Some e), w') \<Longrightarrow> e \<noteq> ScanCompleted"
  by (induction lib ms arbitrary: w rule: consume.induct) (auto simp: andthen_Inr)

lemma consume_reorg:
  "consume lib ms w = (Inr (Some (ScanReorg d)), w') \<Longrightarrow>
   \<exists>accounts h s. ReorgMessage accounts h \<in> set ms \<and> d = add32 h 1 \<and> sc_sent w' = s @ [MsgRewind accounts h]"
  by (induction lib ms arbitrary: w rule: consume.induct) (force simp: andthen_Inr send_message_def)+

section \<open>A malformed issuance\<close>

text \<open>The consumer panics on it before the scanners, which have an error for it, see the chunk.\<close>

lemma malformed_issuance_panics:
  assumes "block_issuances bs = (b, iss) # rest" and "length (is_desc_hash iss) \<noteq> 32"
  shows "fst (process_chunk lib bs w) = Inl WarpPanic \<and> fst (issue_action l p keys h i x iss sy) = Inl WarpError"
  using assms by (simp add: process_chunk_def send_issuance_def issue_action_def andthen_def hash32_def fail_def)

section \<open>A stream on which the witnesses evaluate\<close>

definition ex_sapling_scanner :: synchronizer where
  "ex_sapling_scanner = \<lparr> sy_protocol = SaplingProtocol, sy_pool = 1, sy_keys = [], sy_position = 0, sy_utxos = [],
     sy_tree = (\<lambda>_. None), sy_sent = [] \<rparr>"

definition ex_scanners :: scanners where
  "ex_scanners = \<lparr> sc_sapling = ex_sapling_scanner, sc_orchard = ex_scanner, sc_ironwood = None, sc_sent = [] \<rparr>"

definition ex_reader :: reader_config where
  "ex_reader = \<lparr> rc_end = 200, rc_actions = 50, rc_accounts = [1], rc_frontier = [[199]] \<rparr>"

definition ex_broken_block :: compact_block where
  "ex_broken_block = ex_block\<lparr> cb_height := 201, cb_prev_hash := [0] \<rparr>"

abbreviation ex_trees :: "protocol \<Rightarrow> blob list" where
  "ex_trees \<equiv> \<lambda>p. if p = OrchardProtocol then ex_leaves else []"

abbreviation ex_libs :: "protocol \<Rightarrow> warp_lib" where
  "ex_libs \<equiv> \<lambda>_. ex_warp_lib"

abbreviation ex_start :: reader where
  "ex_start \<equiv> reader_start 200 {}"

abbreviation ex_stream :: "scan_end option scan" where
  "ex_stream \<equiv> scan_blocks ex_libs ex_reader ex_start [Arrived ex_block, StreamEnded]"

abbreviation ex_broken_stream :: "scan_end option scan" where
  "ex_broken_stream \<equiv> scan_blocks ex_libs ex_reader ex_start [Arrived ex_block, Arrived ex_broken_block]"

lemma ex_trees: "trees (\<lambda>_. ex_hash) ex_libs"
  by (simp add: trees_def ex_combines ex_depth)

lemma ex_all_bound: "all_bound ex_libs ex_trees [ex_block]"
proof -
  have "chunk_bound ex_warp_lib SaplingProtocol [] [ex_block]" by code_simp
  moreover have "chunk_bound ex_warp_lib OrchardProtocol ex_leaves [ex_block]" by code_simp
  moreover have "chunk_bound ex_warp_lib IronwoodProtocol [] [ex_block]" by code_simp
  ultimately have "chunk_bound ex_warp_lib p (ex_trees p) [ex_block]" for p by (cases p) simp_all
  then show ?thesis by (simp add: all_bound_def)
qed

lemma ex_all_tracked: "all_tracked (\<lambda>_. ex_hash) ex_libs ex_trees ex_scanners"
proof -
  have "tracked ex_hash ex_warp_lib [] ex_sapling_scanner"
    by (simp add: tracked_def tree_ok_def ex_sapling_scanner_def edge_at_def complete_nodes_def)
  then show ?thesis
    using ex_tracked by (auto simp: all_tracked_def ex_scanners_def scanner_of_def ex_sapling_scanner_def ex_scanner_def
        split: protocol.splits)
qed

lemma ex_stream_completes: "ex_stream ex_scanners = (Inr (Some ScanCompleted), snd (ex_stream ex_scanners))"
proof -
  have "fst (ex_stream ex_scanners) = Inr (Some ScanCompleted)" by code_simp
  then show ?thesis by (metis prod.collapse)
qed

lemma ex_stream_breaks: "ex_broken_stream ex_scanners = (Inr (Some (ScanReorg 201)), snd (ex_broken_stream ex_scanners))"
proof -
  have "fst (ex_broken_stream ex_scanners) = Inr (Some (ScanReorg 201))" by code_simp
  then show ?thesis by (metis prod.collapse)
qed

section \<open>Properties\<close>

lemma completed_stages:
  assumes "scan_blocks lib rc rd events w = (Inr (Some ScanCompleted), w')" and "\<not> no_keys w"
  shows "\<exists>ms. read_stream rc rd events = (ms, True) \<and> consume lib ms w = (Inr None, w')"
proof -
  obtain ms over where r: "read_stream rc rd events = (ms, over)" by fastforce
  obtain v w1 where "consume lib ms w = (Inr v, w1)" "w1 = w'"
    "(case v of Some e \<Rightarrow> Some e | None \<Rightarrow> if over then Some ScanCompleted else None) = Some ScanCompleted"
    using assms r by (auto simp: scan_blocks_def andthen_Inr)
  then show ?thesis using consume_never_completes r by (cases v) (auto split: if_splits)
qed

text \<open>
  C36: a scan that reports completion has had the whole range: the stream of blocks ended by
  itself, at its end height or past it, every block of it connects to the one before and to what the
  accounts stand on, and in each of the three pools the position, the tree and every witness are at
  the commitments of all of these blocks. A stall, a cancellation, a failed or a short stream never
  looks finished.
\<close>

theorem completed_scan_is_whole:
  assumes "trees hs lib" and "all_tracked hs lib L w" and "\<not> no_keys w" and "all_bound lib L (arrived events)"
    and "scan_blocks lib rc (reader_start start no_time) events w = (Inr (Some ScanCompleted), w')"
  shows "\<exists>pre post. events = pre @ StreamEnded # post
    \<and> connected (rc_frontier rc) None (arrived pre) \<and> rc_end rc \<le> reached (sat_sub start 1) (arrived pre)
    \<and> all_tracked hs lib (grown lib L (arrived pre)) w'"
proof -
  obtain ms where ms: "read_stream rc (reader_start start no_time) events = (ms, True)" "consume lib ms w = (Inr None, w')"
    using completed_stages [OF assms(5,3)] by blast
  obtain pre' post' rest where p: "events = pre' @ post'"
    "rd_blocks (reader_start start no_time) @ arrived pre' = chunks ms @ rest"
    using read_stream_prefix [OF ms(1)] by blast
  then have "arrived events = chunks ms @ (rest @ arrived post')" by (simp add: reader_start_def)
  then have "all_bound lib L (chunks ms)" using assms(4) all_bound_append by metis
  from consume_tracks [OF ms(2) assms(1) this assms(2)]
  have c: "\<forall>m \<in> set ms. plain m" "all_tracked hs lib (grown lib L (chunks ms)) w'" by simp_all
  from read_stream_whole [OF ms(1) c(1)] c(2) show ?thesis by (auto simp: reader_start_def)
qed

lemma completed_scan_is_whole_witness:
  "all_tracked (\<lambda>_. ex_hash) ex_libs (grown ex_libs ex_trees [ex_block]) (snd (ex_stream ex_scanners))"
proof -
  have k: "\<not> no_keys ex_scanners" by code_simp
  have a: "all_bound ex_libs ex_trees (arrived [Arrived ex_block, StreamEnded])" using ex_all_bound by simp
  obtain pre post where p: "[Arrived ex_block, StreamEnded] = pre @ StreamEnded # post"
    "all_tracked (\<lambda>_. ex_hash) ex_libs (grown ex_libs ex_trees (arrived pre)) (snd (ex_stream ex_scanners))"
    using completed_scan_is_whole [OF ex_trees ex_all_tracked k a ex_stream_completes] by blast
  then have "pre = [Arrived ex_block]" by (auto simp: Cons_eq_append_conv)
  then show ?thesis using p(2) by simp
qed

text \<open>
  C37: a scan that ends in a reorg stopped at the first block that does not connect: the
  blocks before it connect, it does not, its height is the one reported, and the last message to the
  writer rewinds every account below that height.
\<close>

theorem reorg_is_the_first_break:
  assumes "scan_blocks lib rc (reader_start start no_time) events w = (Inr (Some (ScanReorg height)), w')"
  shows "\<exists>pre b post messages. events = pre @ Arrived b # post
    \<and> connected (rc_frontier rc) None (arrived pre) \<and> \<not> connected (rc_frontier rc) None (arrived pre @ [b])
    \<and> height = add32 (sub32 (block_height b) 1) 1
    \<and> sc_sent w' = messages @ [MsgRewind (rc_accounts rc) (sub32 (block_height b) 1)]"
proof -
  obtain ms over where r: "read_stream rc (reader_start start no_time) events = (ms, over)" by fastforce
  have "consume lib ms w = (Inr (Some (ScanReorg height)), w')"
    using assms r by (auto simp: scan_blocks_def andthen_Inr split: option.splits if_splits)
  from consume_reorg [OF this] obtain accounts h s where
    c: "ReorgMessage accounts h \<in> set ms" "height = add32 h 1" "sc_sent w' = s @ [MsgRewind accounts h]" by blast
  from read_stream_reorg [OF r c(1)] c(2,3) show ?thesis by (fastforce simp: reader_start_def)
qed

lemma reorg_is_the_first_break_witness:
  "\<exists>messages. sc_sent (snd (ex_broken_stream ex_scanners)) = messages @ [MsgRewind [1] 200]"
proof -
  obtain b messages where m: "201 = add32 (sub32 (block_height b) 1) 1"
    "sc_sent (snd (ex_broken_stream ex_scanners)) = messages @ [MsgRewind (rc_accounts ex_reader) (sub32 (block_height b) 1)]"
    using reorg_is_the_first_break [OF ex_stream_breaks] by blast
  have "sub32 (block_height b) 1 < 2 ^ 32" by (simp add: sub32_def)
  then have "sub32 (block_height b) 1 = 200"
    using m(1) unfolding add32_def by (cases "sub32 (block_height b) 1 + 1 < 2 ^ 32") (auto simp: mod_if)
  then show ?thesis using m(2) by (simp add: ex_reader_def)
qed

end
