(* ===== verification/Warp_Range.thy ===== *)
theory Warp_Range
  imports Warp_Writer Warp_Stream Chain_Example
begin

text \<open>
  What one range and the loop over the ranges guarantee: the database moves by whole batches,
  a range that completes has recorded every note that the scan found, and the loop ends.
\<close>

section \<open>Batches\<close>

lemma is_commit_eq [simp]: "is_commit m \<longleftrightarrow> m = MsgCommit"
  by (cases m) simp_all

definition payload :: "warp_message list \<Rightarrow> warp_message list" where
  "payload ms = filter (\<lambda>m. \<not> is_commit m) ms"

lemma write_batch_append:
  "write_batch env accounts (ms @ ms') db =
     (case write_batch env accounts ms db of Inl e \<Rightarrow> Inl e | Inr db' \<Rightarrow> write_batch env accounts ms' db')"
  by (induction ms arbitrary: db) (auto split: sum.split)

text \<open>What is written when a writer stops: everything up to a commit, or nothing of its batches.\<close>

lemma db_writer_batches:
  "db_writer env accounts pending db ms = (r, db') \<Longrightarrow>
   \<exists>written. write_batch env accounts written db = Inr db'
     \<and> (written = [] \<or> (\<exists>ms1 ms2. ms = ms1 @ MsgCommit # ms2 \<and> written = pending @ payload ms1))
     \<and> (\<forall>rest. r = Inr rest \<longrightarrow> written @ rest = pending @ payload ms)"
proof (induction env accounts pending db ms rule: db_writer.induct)
  case (1 env accounts pending db)
  then show ?case by (intro exI [of _ "[]"]) (auto simp: payload_def)
next
  case (2 env accounts pending db m ms)
  show ?case
  proof (cases "m = MsgCommit")
    case commit: True
    show ?thesis
    proof (cases "write_batch env accounts pending db")
      case (Inl e)
      then show ?thesis using 2(3) commit by (intro exI [of _ "[]"]) auto
    next
      case (Inr db1)
      then have "db_writer env accounts [] db1 ms = (r, db')" using 2(3) commit by simp
      from 2(1) [OF _ Inr this] commit obtain written where w: "write_batch env accounts written db1 = Inr db'"
        "written = [] \<or> (\<exists>ms1 ms2. ms = ms1 @ MsgCommit # ms2 \<and> written = payload ms1)"
        "\<forall>rest. r = Inr rest \<longrightarrow> written @ rest = payload ms" by auto
      have "write_batch env accounts (pending @ written) db = Inr db'" using Inr w(1) by (simp add: write_batch_append)
      moreover have "\<exists>ms1 ms2. m # ms = ms1 @ MsgCommit # ms2 \<and> pending @ written = pending @ payload ms1"
        using w(2)
      proof
        assume "written = []"
        then show ?thesis using commit by (intro exI [of _ "[]"] exI [of _ ms]) (simp add: payload_def)
      next
        assume "\<exists>ms1 ms2. ms = ms1 @ MsgCommit # ms2 \<and> written = payload ms1"
        then obtain ms1 ms2 where "ms = ms1 @ MsgCommit # ms2" "written = payload ms1" by blast
        then show ?thesis using commit by (intro exI [of _ "m # ms1"] exI [of _ ms2]) (simp add: payload_def)
      qed
      moreover have "\<forall>rest. r = Inr rest \<longrightarrow> (pending @ written) @ rest = pending @ payload (m # ms)"
        using w(3) commit by (simp add: payload_def)
      ultimately show ?thesis by blast
    qed
  next
    case False
    then have "db_writer env accounts (pending @ [m]) db ms = (r, db')" using 2(3) by simp
    from 2(2) [OF False [folded is_commit_eq] this] obtain written where w: "write_batch env accounts written db = Inr db'"
      "written = [] \<or> (\<exists>ms1 ms2. ms = ms1 @ MsgCommit # ms2 \<and> written = (pending @ [m]) @ payload ms1)"
      "\<forall>rest. r = Inr rest \<longrightarrow> written @ rest = (pending @ [m]) @ payload ms" by blast
    have "written = [] \<or> (\<exists>ms1 ms2. m # ms = ms1 @ MsgCommit # ms2 \<and> written = pending @ payload ms1)"
      using w(2)
    proof
      assume "\<exists>ms1 ms2. ms = ms1 @ MsgCommit # ms2 \<and> written = (pending @ [m]) @ payload ms1"
      then obtain ms1 ms2 where "ms = ms1 @ MsgCommit # ms2" "written = (pending @ [m]) @ payload ms1" by blast
      then have "m # ms = (m # ms1) @ MsgCommit # ms2 \<and> written = pending @ payload (m # ms1)"
        using False by (simp add: payload_def)
      then show ?thesis by blast
    qed simp
    then show ?thesis using w(1,3) False by (auto simp: payload_def)
  qed
qed

text \<open>How a range ends without an error: the whole of its messages is in the database.\<close>

lemma run_range_Inr:
  assumes "run_range env accounts scan messages db = Some (Inr e, db')"
  shows "write_batch env accounts (payload messages) db = Inr db' \<and> (\<exists>v. scan = Inr (Some v))
    \<and> (e = RangeCompleted \<longrightarrow> scan = Inr (Some ScanCompleted))"
proof -
  let ?ms = "messages @ (if scan = Inl WarpError then [MsgError] else [])"
  obtain pending db1 where w: "db_writer env accounts [] db ?ms = (Inr pending, db1)"
    using assms by (auto simp: run_range_def split: prod.splits sum.splits)
  obtain v where c: "close_writer env accounts pending db1 = (Inr (), db')" "scan = Inr (Some v)"
    "e = RangeCompleted \<longrightarrow> v = ScanCompleted"
    using assms w by (auto simp: run_range_def split: prod.splits sum.splits if_splits option.splits scan_end.splits warp_error.splits)
  obtain written where "write_batch env accounts written db = Inr db1" "written @ pending = payload ?ms"
    using db_writer_batches [OF w] by auto
  moreover have "write_batch env accounts pending db1 = Inr db'"
    using c(1) by (auto simp: close_writer_def split: sum.splits)
  ultimately have "write_batch env accounts (payload ?ms) db = Inr db'" by (metis write_batch_append sum.case(2))
  then show ?thesis using c(2,3) by simp
qed

section \<open>The notes of a range\<close>

definition recorded :: "warp_note \<Rightarrow> db \<Rightarrow> bool" where
  "recorded n db = (\<exists>r \<in> set (db_notes db). nt_account r = wn_account n \<and> nt_nullifier r = wn_nf n
     \<and> nt_cmx r = Some (wn_cmx n) \<and> nt_position r = Some (wn_position n) \<and> nt_value r = as_i64 (wn_value n)
     \<and> nt_pool r = wn_pool n \<and> nt_height r = wn_height n)"

text \<open>A message other than a rewind takes no note away; it may unlock one.\<close>

definition keeps_notes :: "db \<Rightarrow> db \<Rightarrow> bool" where
  "keeps_notes db db' = (\<forall>r \<in> set (db_notes db). \<exists>l. set_locked l r \<in> set (db_notes db'))"

lemma keeps_notes_same: "db_notes db' = db_notes db \<Longrightarrow> keeps_notes db db'"
proof -
  have "set_locked (nt_locked r) r = r" for r :: note_row by (simp add: set_locked_def)
  then show "db_notes db' = db_notes db \<Longrightarrow> keeps_notes db db'" unfolding keeps_notes_def by metis
qed

lemma keeps_notes_trans: "keeps_notes db db1 \<Longrightarrow> keeps_notes db1 db2 \<Longrightarrow> keeps_notes db db2"
proof -
  have "set_locked k (set_locked l r) = set_locked k r" for k l and r :: note_row by (simp add: set_locked_def)
  then show "keeps_notes db db1 \<Longrightarrow> keeps_notes db1 db2 \<Longrightarrow> keeps_notes db db2" unfolding keeps_notes_def by metis
qed

lemma recorded_kept: "keeps_notes db db' \<Longrightarrow> recorded n db \<Longrightarrow> recorded n db'"
proof -
  assume k: "keeps_notes db db'" and "recorded n db"
  then obtain r where r: "r \<in> set (db_notes db)" "nt_account r = wn_account n" "nt_nullifier r = wn_nf n"
    "nt_cmx r = Some (wn_cmx n)" "nt_position r = Some (wn_position n)" "nt_value r = as_i64 (wn_value n)"
    "nt_pool r = wn_pool n" "nt_height r = wn_height n" unfolding recorded_def by blast
  from k r(1) obtain l where "set_locked l r \<in> set (db_notes db')" unfolding keeps_notes_def by blast
  then show "recorded n db'" using r(2-) unfolding recorded_def by (intro bexI [of _ "set_locked l r"]) (simp_all add: set_locked_def)
qed

lemma keeps_notes_record_note: "keeps_notes db (snd (record_note a n db))"
proof -
  have "set (db_notes db) \<subseteq> set (db_notes (snd (record_note a n db)))" by (auto simp: record_note_def Let_def)
  moreover have "set_locked (nt_locked r) r = r" for r :: note_row by (simp add: set_locked_def)
  ultimately show ?thesis unfolding keeps_notes_def by (metis subsetD)
qed

lemma keeps_notes_unlock:
  assumes "db_notes db' = update_where P (set_locked False) (db_notes db)"
  shows "keeps_notes db db'"
proof -
  have "\<exists>l. set_locked l r \<in> set (update_where P (set_locked False) (db_notes db))" if "r \<in> set (db_notes db)" for r
  proof (cases "P r")
    case True
    then show ?thesis using that by (intro exI [of _ False]) (force simp: update_where_def)
  next
    case False
    have "set_locked (nt_locked r) r = r" by (simp add: set_locked_def)
    then show ?thesis using that False by (intro exI [of _ "nt_locked r"]) (force simp: update_where_def)
  qed
  then show ?thesis unfolding keeps_notes_def assms by blast
qed

lemma keeps_notes_record_spend: "record_spend a s db = Inr (b, db') \<Longrightarrow> keeps_notes db db'"
  by (auto simp: record_spend_def Let_def intro: keeps_notes_unlock split: option.splits)

lemma record_issuance_notes:
  assumes "record_issuance iss db = Inr db'"
  shows "db_notes db' = db_notes db"
proof -
  have a: "record_asset x d = Inr d' \<Longrightarrow> db_notes d' = db_notes d" for x d d'
    by (auto simp: record_asset_def Let_def split: option.splits if_splits)
  show ?thesis
    using assms by (auto simp: record_issuance_def dest: a split: sum.splits if_splits)
qed

lemma db_notes_simps [simp]:
  "db_notes (snd (record_transaction a t db)) = db_notes db"
  "db_notes (set_block_time a h tm om db) = db_notes db"
  "db_notes (record_relevant_header a hdr db) = db_notes db"
  "db_notes (snd (asset_id_for_base base h db)) = db_notes db"
  by (simp_all add: record_transaction_def set_block_time_def record_relevant_header_def store_header_def
      asset_id_for_base_def Let_def)

lemma each_account_notes:
  assumes "\<And>a db db'. f a db = Inr db' \<Longrightarrow> db_notes db' = db_notes db" and "each_account f as db = Inr db'"
  shows "db_notes db' = db_notes db"
  using assms(2)
proof (induction as arbitrary: db)
  case (Cons a as)
  then obtain db1 where "f a db = Inr db1" "each_account f as db1 = Inr db'" by (auto split: sum.splits)
  then show ?case using Cons.IH assms(1) by metis
qed simp

lemma write_note_recorded:
  assumes "write_note env n db = Inr db'"
  shows "keeps_notes db db' \<and> recorded n db'"
proof -
  obtain id_asset db1 where a: "asset_id_for_base (wn_asset n) (wn_height n) db = (id_asset, db1)" by fastforce
  then have same: "db_notes db1 = db_notes db" using db_notes_simps(4) by (metis snd_conv)
  obtain id_tx row i where r: "record_note (wn_account n) row db1 = (Some i, db')"
    "nt_nullifier row = wn_nf n" "nt_cmx row = Some (wn_cmx n)" "nt_position row = Some (wn_position n)"
    "nt_value row = as_i64 (wn_value n)" "nt_pool row = wn_pool n" "nt_height row = wn_height n"
    using assms a by (force simp: write_note_def split: sum.splits prod.splits option.splits)
  have "keeps_notes db1 db'" using keeps_notes_record_note r(1) by (metis snd_conv)
  then have "keeps_notes db db'" using same unfolding keeps_notes_def by simp
  moreover have "recorded n db'"
    using r unfolding recorded_def by (auto simp: record_note_def Let_def split: if_splits)
  ultimately show ?thesis ..
qed

lemma write_spend_keeps:
  assumes "write_spend u db = Inr db'"
  shows "keeps_notes db db'"
proof -
  obtain s where "record_spend (ut_account u) s db = Inr (True, db')"
    using assms by (auto simp: write_spend_def split: sum.splits prod.splits if_splits)
  then show ?thesis by (rule keeps_notes_record_spend)
qed

lemma record_witness_notes: "record_witness a k h w db = Inr db' \<Longrightarrow> db_notes db' = db_notes db"
  by (auto simp: record_witness_def split: option.splits if_splits)

lemma write_checkpoint_notes: "write_checkpoint p h a db = Inr db' \<Longrightarrow> db_notes db' = db_notes db"
  by (auto simp: write_checkpoint_def checkpoint_def set_checkpoint_def split: option.splits bind_splits if_splits)

lemma write_header_notes: "db_notes (write_header as h x t db) = db_notes db"
  by (induction as arbitrary: db) (simp_all add: write_header_def)

lemma map_sum_Inr: "map_sum f id r = Inr x \<longleftrightarrow> r = Inr x"
  by (cases r) auto

lemma handle_message_keeps:
  assumes "handle_warp_message env accounts m db = Inr db'" and "\<forall>as h. m \<noteq> MsgRewind as h"
  shows "keeps_notes db db'"
proof (cases m)
  case (MsgNote n)
  then show ?thesis using assms(1) write_note_recorded by simp
next
  case (MsgSpend u)
  then show ?thesis using assms(1) write_spend_keeps by simp
next
  case (MsgIssuance a b c d e)
  then show ?thesis using assms(1) record_issuance_notes keeps_notes_same by (simp add: map_sum_Inr)
next
  case (MsgWitness a h c w)
  then show ?thesis using assms(1) record_witness_notes keeps_notes_same by (simp add: map_sum_Inr)
next
  case (MsgCheckpoint as p h)
  then have "each_account (write_checkpoint p h) as db = Inr db'" using assms(1) by simp
  then have "db_notes db' = db_notes db" by (rule each_account_notes [rotated]) (rule write_checkpoint_notes)
  then show ?thesis by (rule keeps_notes_same)
next
  case (MsgTransaction a h t x)
  then have "db' = snd (record_transaction a (transaction_chain x h t) db)" using assms(1) by simp
  then show ?thesis by (intro keeps_notes_same) simp
next
  case (MsgBlockHeader h x t)
  then have "db' = write_header accounts h x t db" using assms(1) by simp
  then show ?thesis by (intro keeps_notes_same) (simp add: write_header_notes)
next
  case MsgCommit
  then show ?thesis using assms(1) by (simp add: keeps_notes_same)
next
  case MsgError
  then show ?thesis using assms(1) by simp
next
  case (MsgRewind as h)
  then show ?thesis using assms(2) by blast
qed

lemma write_batch_records:
  "write_batch env accounts ms db = Inr db' \<Longrightarrow> \<forall>as h. MsgRewind as h \<notin> set ms \<Longrightarrow>
   keeps_notes db db' \<and> (\<forall>n. MsgNote n \<in> set ms \<longrightarrow> recorded n db')"
proof (induction ms arbitrary: db)
  case Nil
  then show ?case by (simp add: keeps_notes_same)
next
  case (Cons m ms)
  then obtain db1 where h: "handle_warp_message env accounts m db = Inr db1" "write_batch env accounts ms db1 = Inr db'"
    by (auto split: sum.splits)
  have "\<forall>as h. m \<noteq> MsgRewind as h" using Cons.prems(2) by auto
  note now = handle_message_keeps [OF h(1) this]
  have noted: "m = MsgNote n \<Longrightarrow> recorded n db1" for n using h(1) write_note_recorded by simp
  have later: "keeps_notes db1 db'" "\<And>n. MsgNote n \<in> set ms \<Longrightarrow> recorded n db'"
    using Cons.IH [OF h(2)] Cons.prems(2) by auto
  have "recorded n db'" if "MsgNote n \<in> set (m # ms)" for n
  proof (cases "m = MsgNote n")
    case True
    then show ?thesis using noted recorded_kept [OF later(1)] by blast
  next
    case False
    then show ?thesis using that later(2) by simp
  qed
  then show ?case using keeps_notes_trans now later(1) by blast
qed

section \<open>What a scan sends\<close>

definition ordinary :: "warp_message \<Rightarrow> bool" where
  "ordinary m = (\<forall>as h. m \<noteq> MsgRewind as h)"

definition more_ordinary :: "warp_message list \<Rightarrow> warp_message list \<Rightarrow> bool" where
  "more_ordinary s s' = (\<exists>ms. s' = s @ ms \<and> (\<forall>m \<in> set ms. ordinary m))"

lemma more_ordinary_refl [simp]: "more_ordinary s s"
  by (simp add: more_ordinary_def)

lemma more_ordinary_trans: "more_ordinary s t \<Longrightarrow> more_ordinary t u \<Longrightarrow> more_ordinary s u"
  unfolding more_ordinary_def by (metis Un_iff append_assoc set_append)

lemma more_ordinary_snoc: "ordinary m \<Longrightarrow> more_ordinary s (s @ [m])"
  by (simp add: more_ordinary_def)

definition sends_ordinary :: "synchronizer \<Rightarrow> synchronizer \<Rightarrow> bool" where
  "sends_ordinary sy sy' = more_ordinary (sy_sent sy) (sy_sent sy')"

interpretation so: two_state sends_ordinary
  by unfold_locales (auto simp: sends_ordinary_def intro: more_ordinary_trans)

lemma ordinary_send: "ordinary m \<Longrightarrow> steps sends_ordinary (send m)"
  by (simp add: send_def so.steps_modify sends_ordinary_def more_ordinary_snoc)

lemma ordinary_fold: "(\<And>s x. steps sends_ordinary (f s x)) \<Longrightarrow> steps sends_ordinary (fold_prog f s xs)"
  by (induction xs arbitrary: s) auto

lemma ordinary_issue: "steps sends_ordinary (issue_chunk lib p keys blocks)"
  unfolding issue_chunk_def issue_tx_def issue_action_def issue_one_def
  by (auto intro!: ordinary_fold so.steps_andthen split: prod.split)

lemma ordinary_place_notes: "steps sends_ordinary (place_notes lib p rows base ns txs)"
proof -
  have one: "steps sends_ordinary (place_note lib p base cb tx z)" for base cb tx z
    unfolding place_note_def Let_def
    by (auto simp: ordinary_def split: prod.split option.split intro!: so.steps_andthen ordinary_send)
  have all: "steps sends_ordinary (place_all (place_note lib p base cb tx) zs)" for base cb tx zs
  proof (induction zs)
    case Nil
    show ?case unfolding place_all.simps by (rule so.steps_pure)
  next
    case (Cons z zs)
    then show ?case unfolding place_all.simps by (intro so.steps_andthen one so.steps_pure)
  qed
  show ?thesis by (induction txs arbitrary: base ns) (auto simp: Let_def intro!: so.steps_andthen all)
qed

lemma ordinary_spend_tx: "steps sends_ordinary (spend_tx p accounts t)"
proof -
  have r: "steps sends_ordinary (remove_utxo k)" for k
    by (simp add: steps_def remove_utxo_def sends_ordinary_def)
  have i: "steps sends_ordinary (spend_input cb tx nf a)" for cb tx nf a
    unfolding spend_input_def
    by (intro so.steps_andthen r) (auto simp: ordinary_def split: option.split intro!: so.steps_andthen ordinary_send)
  then show ?thesis by (cases t) (auto simp: spend_tx_def intro!: so.steps_for_each so.steps_andthen)
qed

lemma ordinary_add: "steps sends_ordinary (add lib blocks)"
proof -
  have "steps sends_ordinary (update_witnesses lib rows blocks ns)" for rows ns
    unfolding update_witnesses_def
    by (intro so.steps_andthen so.steps_pure so.steps_modify) (simp add: sends_ordinary_def)
  then have "steps sends_ordinary (finish_chunk lib rows blocks p keys pool ns)" for rows p keys pool ns
    unfolding finish_chunk_def
    by (intro so.steps_andthen so.steps_for_each so.steps_pure so.steps_modify ordinary_send ordinary_spend_tx)
      (simp_all add: sends_ordinary_def ordinary_def)
  then show ?thesis
    unfolding add_def by (auto intro!: so.steps_andthen ordinary_issue ordinary_place_notes split: prod.split)
qed

lemma ordinary_add_run: "add lib bs sy = (r, sy') \<Longrightarrow> more_ordinary (sy_sent sy) (sy_sent sy')"
  using ordinary_add unfolding steps_def sends_ordinary_def by (metis snd_conv)

definition scans_ordinary :: "scanners \<Rightarrow> scanners \<Rightarrow> bool" where
  "scans_ordinary w w' = more_ordinary (sc_sent w) (sc_sent w')"

interpretation sco: two_state scans_ordinary
  by unfold_locales (auto simp: scans_ordinary_def intro: more_ordinary_trans)

lemma ordinary_send_message: "ordinary m \<Longrightarrow> steps scans_ordinary (send_message m)"
  by (simp add: send_message_def sco.steps_modify scans_ordinary_def more_ordinary_snoc)

lemma ordinary_pools:
  "steps scans_ordinary (add_sapling l bs)" "steps scans_ordinary (add_orchard l bs)" "steps scans_ordinary (add_ironwood l bs)"
  by (auto simp: steps_def scans_ordinary_def add_sapling_def add_orchard_def add_ironwood_def
      split: prod.split option.split dest: ordinary_add_run)

lemma ordinary_process: "steps scans_ordinary (process_chunk lib bs)"
proof -
  have "steps scans_ordinary (send_issuance l b iss)" for l b iss
    unfolding send_issuance_def by (auto simp: ordinary_def intro!: sco.steps_andthen ordinary_send_message)
  then show ?thesis
    unfolding process_chunk_def Let_def
    by (auto simp: ordinary_def intro!: sco.steps_andthen sco.steps_for_each ordinary_pools ordinary_send_message split: prod.split)
qed

lemma consume_ordinary: "consume lib ms w = (Inr None, w') \<Longrightarrow> scans_ordinary w w'"
proof (induction lib ms arbitrary: w rule: consume.induct)
  case (1 lib)
  then show ?case by (simp add: sco.refl)
next
  case (2 lib bs ms)
  obtain w1 where r: "process_chunk lib bs w = (Inr (), w1)" "consume lib ms w1 = (Inr None, w')"
    using 2(2) unfolding consume.simps andthen_Inr_unit by blast
  have "scans_ordinary w w1" using ordinary_process r(1) unfolding steps_def by (metis snd_conv)
  then show ?case using 2(1) [OF r(2)] sco.trans by blast
next
  case (3 lib height hash time ms)
  obtain w1 where r: "send_message (MsgBlockHeader height hash time) w = (Inr (), w1)" "consume lib ms w1 = (Inr None, w')"
    using 3(2) unfolding consume.simps andthen_Inr_unit by blast
  have "steps scans_ordinary (send_message (MsgBlockHeader height hash time))"
    by (rule ordinary_send_message) (simp add: ordinary_def)
  then have "scans_ordinary w w1" using r(1) unfolding steps_def by (metis snd_conv)
  then show ?case using 3(1) [OF r(2)] sco.trans by blast
qed (simp_all add: andthen_Inr)

lemma completed_scan_sends:
  assumes "warp_sync env start end' accounts no_time actions frontier db events = (Inr (Some ScanCompleted), messages)"
  shows "\<forall>m \<in> set messages. ordinary m"
proof -
  obtain w where w: "open_scanners env start accounts frontier db = Some w"
    using assms by (auto simp: warp_sync_def split: option.splits)
  then have "sc_sent w = []" by (auto simp: open_scanners_def Let_def split: bind_splits if_splits)
  obtain rc w' where s: "scan_blocks (se_lib env) rc (reader_start start no_time) events w = (Inr (Some ScanCompleted), w')"
    "messages = sc_sent w'"
    using assms w by (auto simp: warp_sync_def Let_def split: prod.splits)
  have "scans_ordinary w w'"
  proof (cases "no_keys w")
    case True
    then have "w' = w" using s(1) by (simp add: scan_blocks_def)
    then show ?thesis by (simp add: sco.refl)
  next
    case False
    then show ?thesis using completed_stages [OF s(1)] consume_ordinary by blast
  qed
  then show ?thesis using \<open>sc_sent w = []\<close> s(2) by (auto simp: scans_ordinary_def more_ordinary_def)
qed

section \<open>The loop\<close>

definition returns :: "(u32 \<Rightarrow> u32 \<Rightarrow> 'w \<Rightarrow> ((writer_error + range_end) \<times> 'w) option) \<Rightarrow> ('w \<Rightarrow> bool) \<Rightarrow> u32 \<Rightarrow> u32 \<Rightarrow> u32
    \<Rightarrow> u32 option \<Rightarrow> u32 \<Rightarrow> bool" where
  "returns scan_range cancelled start end' chunk_size last_reorg chunk_start =
     (\<forall>w. sync_ranges scan_range cancelled start end' chunk_size chunk_start last_reorg w \<noteq> None)"

lemma returns_step:
  assumes "\<And>a b w. scan_range a b w \<noteq> None" and "end' \<le> u32_max"
    and later: "\<And>s. chunk_start < s \<Longrightarrow> s \<le> end' \<Longrightarrow> returns scan_range cancelled start end' chunk_size last_reorg s"
    and reorg: "\<And>d s. (\<forall>previous. last_reorg = Some previous \<longrightarrow> d < previous) \<Longrightarrow>
      returns scan_range cancelled start end' chunk_size (Some d) s"
  shows "returns scan_range cancelled start end' chunk_size last_reorg chunk_start"
  unfolding returns_def
proof
  fix w
  obtain r w' where r: "scan_range chunk_start (chunk_end chunk_start chunk_size end') w = Some (r, w')"
    using assms(1) by (metis option.exhaust surj_pair)
  show "sync_ranges scan_range cancelled start end' chunk_size chunk_start last_reorg w \<noteq> None"
  proof (cases r)
    case (Inl e)
    then show ?thesis using r by (simp add: sync_ranges.simps)
  next
    case (Inr e)
    show ?thesis
    proof (cases e)
      case RangeCancelled
      then show ?thesis using r Inr by (simp add: sync_ranges.simps)
    next
      case (RangeReorg d s)
      have "(case last_reorg of None \<Rightarrow> False | Some previous \<Rightarrow> previous \<le> d)
          \<or> sync_ranges scan_range cancelled start end' chunk_size (max s start) (Some d) w' \<noteq> None"
      proof (cases "\<exists>previous. last_reorg = Some previous \<and> previous \<le> d")
        case True
        then show ?thesis by auto
      next
        case False
        then have "\<forall>previous. last_reorg = Some previous \<longrightarrow> d < previous" using not_le by blast
        then show ?thesis using reorg [of d "max s start"] unfolding returns_def by blast
      qed
      then show ?thesis using r Inr RangeReorg by (subst sync_ranges.simps) auto
    next
      case RangeCompleted
      let ?e = "chunk_end chunk_start chunk_size end'"
      have "end' \<le> ?e \<or> sync_ranges scan_range cancelled start end' chunk_size (add32 ?e 1) last_reorg w' \<noteq> None"
      proof (cases "end' \<le> ?e")
        case False
        then have "chunk_start \<le> ?e" "?e < end'" using assms(2) by (auto simp: chunk_end_def sat_add32_def)
        moreover from this have "add32 ?e 1 = ?e + 1" using assms(2) by (simp add: add32_def u32_max_def)
        ultimately show ?thesis using later [of "add32 ?e 1"] by (simp add: returns_def)
      qed simp
      then show ?thesis using r Inr RangeCompleted by (subst sync_ranges.simps) auto
    qed
  qed
qed

lemma returns_after_reorg:
  assumes "\<And>a b w. scan_range a b w \<noteq> None" and "end' \<le> u32_max"
  shows "returns scan_range cancelled start end' chunk_size (Some d) chunk_start"
proof (induction d arbitrary: chunk_start rule: less_induct)
  case (less d)
  show ?case
  proof (induction "end' - chunk_start" arbitrary: chunk_start rule: less_induct)
    case inner: less
    show ?case
      by (rule returns_step [OF assms]) (use inner less in auto)
  qed
qed

lemma sync_ranges_returns:
  assumes "\<And>a b w. scan_range a b w \<noteq> None" and "end' \<le> u32_max"
  shows "returns scan_range cancelled start end' chunk_size last_reorg chunk_start"
proof (induction "end' - chunk_start" arbitrary: chunk_start rule: less_induct)
  case less
  show ?case
    by (rule returns_step [OF assms]) (use less returns_after_reorg [OF assms] in auto)
qed

text \<open>A stream that ends, fails or is cancelled ends the reader.\<close>

definition ends :: "reader_event list \<Rightarrow> bool" where
  "ends events = list_ex (\<lambda>ev. ev = StreamEnded \<or> ev = StreamFailed \<or> ev = CancelRequested) events"

lemma read_stream_over:
  "ends events \<Longrightarrow> snd (read_stream rc rd events)"
proof (induction events arbitrary: rd)
  case (Cons ev events)
  have go: "snd (case (ms, o') of (ms, None) \<Rightarrow> (ms, True) | (ms, Some rd') \<Rightarrow>
      (let (rest, over) = read_stream rc rd' events in (ms @ rest, over)))" if "ends events" for ms o'
  proof (cases o')
    case (Some rd')
    then show ?thesis using Cons.IH [OF that, of rd'] by (cases "read_stream rc rd' events") simp
  qed simp
  show ?case
  proof (cases "ends events")
    case True
    then show ?thesis using go by (cases "read_event rc rd ev") simp
  next
    case False
    then have "ev = StreamEnded \<or> ev = StreamFailed \<or> ev = CancelRequested" using Cons.prems by (auto simp: ends_def)
    then show ?thesis by auto
  qed
qed (simp add: ends_def)

lemma scan_ends:
  assumes "ends events" and "warp_sync env start end' accounts no_time actions frontier db events = (scan, messages)"
  shows "scan \<noteq> Inr None"
proof (cases "open_scanners env start accounts frontier db")
  case None
  then show ?thesis using assms(2) by (auto simp: warp_sync_def)
next
  case (Some w)
  obtain rc w' where s: "scan_blocks (se_lib env) rc (reader_start start no_time) events w = (scan, w')"
    using assms(2) Some by (auto simp: warp_sync_def Let_def split: prod.splits)
  obtain ms over where r: "read_stream rc (reader_start start no_time) events = (ms, over)" by fastforce
  then have "over" using read_stream_over [OF assms(1), of rc "reader_start start no_time"] by simp
  then show ?thesis
    using s r by (auto simp: scan_blocks_def andthen_Inr split: option.splits if_splits)
qed

lemma range_returns:
  assumes "\<And>events. sv_events sv = Some events \<Longrightarrow> ends events"
  shows "shielded_sync_range senv env sv accounts start end' actions db \<noteq> None"
proof (cases "get_tree_state env sv (sub32 start 1)")
  case (Some t)
  show ?thesis
  proof (cases t)
    case trees: (Some trees)
    show ?thesis
    proof (cases "sv_events sv")
      case ev: (Some events)
      obtain scan messages where w: "warp_sync senv start end' accounts (get_heights_without_time (map fst accounts) start end' db)
          actions trees db events = (scan, messages)" by fastforce
      then have "scan \<noteq> Inr None" using scan_ends assms ev by blast
      then show ?thesis
        using Some trees ev w by (auto simp: shielded_sync_range_def run_range_def Let_def split: prod.splits sum.splits)
    qed (use Some trees in \<open>simp add: shielded_sync_range_def\<close>)
  qed (use Some in \<open>simp add: shielded_sync_range_def\<close>)
qed (simp add: shielded_sync_range_def)

section \<open>A range on which the witnesses evaluate\<close>

text \<open>The wallet of \<open>Chain_Example\<close> with an Orchard key; the server's block pays its account 1.\<close>

definition ex_writer_env :: writer_env where
  "ex_writer_env = \<lparr> we_encode = (\<lambda>w. wi_value w), we_sapling_index = (\<lambda>_ _ _. None), we_orchard_index = (\<lambda>_ _ _. Some 3),
     we_activation = (\<lambda>_. Some 10), we_empty_tree = (0, \<lambda>_. None), we_debug = False \<rparr>"

definition ex_scan_env :: scan_env where
  "ex_scan_env = \<lparr> se_lib = (\<lambda>_. ex_warp_lib),
     se_ivk = (\<lambda>p account scope. if p = OrchardProtocol \<and> account = 1 \<and> scope = 0 then Some ([1], Some [2]) else None),
     se_decode = (\<lambda>_. None), se_activation = (\<lambda>u. if u = Nu6_3_Upgrade then None else Some 10) \<rparr>"

definition ex_wallet_db :: db where
  "ex_wallet_db = ex_db\<lparr> db_orchard_accounts := [1] \<rparr>"

definition ex_server_trees :: "protocol \<Rightarrow> u32 \<times> edge" where
  "ex_server_trees p = (if p = OrchardProtocol then (1, \<lambda>d. if d = 0 then Some (replicate 32 5) else None) else (0, \<lambda>_. None))"

definition ex_answer :: server_answer where
  "ex_answer = \<lparr> sv_trees = Some ex_server_trees, sv_events = Some [Arrived ex_block, StreamEnded] \<rparr>"

abbreviation ex_range :: "((writer_error + range_end) \<times> db) option" where
  "ex_range \<equiv> shielded_sync_range ex_scan_env ex_writer_env ex_answer [(1, False)] 200 200 50 ex_wallet_db"

abbreviation ex_sent :: "(warp_error + scan_end option) \<times> warp_message list" where
  "ex_sent \<equiv> warp_sync ex_scan_env 200 200 [(1, False)] (get_heights_without_time [1] 200 200 ex_wallet_db) 50 ex_server_trees
     ex_wallet_db [Arrived ex_block, StreamEnded]"

lemma ex_range_completes: "ex_range = Some (Inr RangeCompleted, snd (the ex_range))"
proof -
  have "map_option fst ex_range = Some (Inr RangeCompleted)" by code_simp
  then show ?thesis by (cases ex_range) auto
qed

lemma ex_sent_note: "\<exists>messages. ex_sent = (Inr (Some ScanCompleted), messages) \<and> (\<exists>n. MsgNote n \<in> set messages \<and> wn_account n = 1
    \<and> wn_position n = 2)"
proof -
  have "fst ex_sent = Inr (Some ScanCompleted)" by code_simp
  moreover have "list_ex (\<lambda>m. case m of MsgNote n \<Rightarrow> wn_account n = 1 \<and> wn_position n = 2 | _ \<Rightarrow> False) (snd ex_sent)" by code_simp
  then have "\<exists>n. MsgNote n \<in> set (snd ex_sent) \<and> wn_account n = 1 \<and> wn_position n = 2"
  proof -
    assume "list_ex (\<lambda>m. case m of MsgNote n \<Rightarrow> wn_account n = 1 \<and> wn_position n = 2 | _ \<Rightarrow> False) (snd ex_sent)"
    then obtain m where m: "m \<in> set (snd ex_sent)" "case m of MsgNote n \<Rightarrow> wn_account n = 1 \<and> wn_position n = 2 | _ \<Rightarrow> False"
      unfolding list_ex_iff by blast
    have "\<exists>n. m = MsgNote n \<and> wn_account n = 1 \<and> wn_position n = 2" using m(2) by (cases m) simp_all
    then show ?thesis using m(1) by blast
  qed
  ultimately show ?thesis by (metis prod.collapse)
qed

definition ex_failing :: "warp_message list" where
  "ex_failing = [MsgTransaction 1 300 5 [9], MsgCommit, MsgTransaction 1 301 6 [8]]"

lemma ex_failed_range: "\<exists>db'. run_range ex_writer_env [1] (Inl WarpError) ex_failing ex_wallet_db = Some (Inl WriterError, db')"
proof -
  have "map_option fst (run_range ex_writer_env [1] (Inl WarpError) ex_failing ex_wallet_db) = Some (Inl WriterError)" by code_simp
  then show ?thesis by auto
qed

section \<open>Properties\<close>

text \<open>
  C38: the database moves by whole batches. However a range ends, what it leaves is the result of
  writing a prefix of the messages in order, which stops at a commit (or holds nothing, or everything);
  a range that ends without an error has written everything, and one whose scan failed never writes
  what came after the last commit.
\<close>

theorem writer_commits_whole_batches:
  assumes "run_range env accounts scan messages db = Some (r, db')"
  shows "\<exists>written. write_batch env accounts written db = Inr db'
    \<and> (written = [] \<or> (\<exists>ms1 ms2. messages = ms1 @ MsgCommit # ms2 \<and> written = payload ms1)
        \<or> (written = payload messages \<and> scan \<noteq> Inl WarpError))
    \<and> (\<forall>e. r = Inr e \<longrightarrow> written = payload messages)"
proof (cases r)
  case (Inr e)
  then have "run_range env accounts scan messages db = Some (Inr e, db')" using assms by simp
  from run_range_Inr [OF this] Inr show ?thesis by (intro exI [of _ "payload messages"]) auto
next
  case (Inl e)
  let ?tail = "if scan = Inl WarpError then [MsgError] else []"
  obtain x db1 where w: "db_writer env accounts [] db (messages @ ?tail) = (x, db1)" by fastforce
  obtain written where wr: "write_batch env accounts written db = Inr db1"
    "written = [] \<or> (\<exists>ms1 ms2. messages @ ?tail = ms1 @ MsgCommit # ms2 \<and> written = payload ms1)"
    "\<forall>rest. x = Inr rest \<longrightarrow> written @ rest = payload (messages @ ?tail)"
    using db_writer_batches [OF w] by auto
  have commit: "written = [] \<or> (\<exists>ms1 ms2. messages = ms1 @ MsgCommit # ms2 \<and> written = payload ms1)"
    using wr(2)
  proof
    assume "\<exists>ms1 ms2. messages @ ?tail = ms1 @ MsgCommit # ms2 \<and> written = payload ms1"
    then obtain ms1 ms2 where m: "messages @ ?tail = ms1 @ MsgCommit # ms2" "written = payload ms1" by blast
    then have "\<exists>ms2. messages = ms1 @ MsgCommit # ms2"
      by (cases ms2 rule: rev_cases) (auto split: if_splits)
    then show ?thesis using m(2) by blast
  qed simp
  show ?thesis
  proof (cases "db' = db1")
    case True
    then show ?thesis using wr(1) commit Inl by blast
  next
    case False
    then obtain pending where x: "x = Inr pending"
      using assms w by (cases x) (auto simp: run_range_def)
    then obtain closed where c: "close_writer env accounts pending db1 = (closed, db')"
      using assms w by (auto simp: run_range_def split: prod.splits if_splits)
    then have b: "write_batch env accounts pending db1 = Inr db'"
      using False by (auto simp: close_writer_def split: sum.splits)
    then have all: "write_batch env accounts (payload (messages @ ?tail)) db = Inr db'"
      using wr(1,3) x by (metis write_batch_append sum.case(2))
    have "scan \<noteq> Inl WarpError"
    proof
      assume "scan = Inl WarpError"
      then have "payload (messages @ ?tail) = payload messages @ [MsgError]" by (simp add: payload_def)
      then show False using all by (simp add: write_batch_append split: sum.splits)
    qed
    then show ?thesis using all Inl by (intro exI [of _ "payload messages"]) auto
  qed
qed

lemma writer_commits_whole_batches_witness:
  "\<exists>db' written. run_range ex_writer_env [1] (Inl WarpError) ex_failing ex_wallet_db = Some (Inl WriterError, db')
     \<and> write_batch ex_writer_env [1] written ex_wallet_db = Inr db'
     \<and> (written = [] \<or> written = [MsgTransaction 1 300 5 [9]])"
proof -
  obtain db' where r: "run_range ex_writer_env [1] (Inl WarpError) ex_failing ex_wallet_db = Some (Inl WriterError, db')"
    using ex_failed_range by blast
  obtain written where w: "write_batch ex_writer_env [1] written ex_wallet_db = Inr db'"
    "written = [] \<or> (\<exists>ms1 ms2. ex_failing = ms1 @ MsgCommit # ms2 \<and> written = payload ms1)"
    using writer_commits_whole_batches [OF r] by blast
  have "written = [] \<or> written = [MsgTransaction 1 300 5 [9]]"
    using w(2) by (auto simp: ex_failing_def Cons_eq_append_conv payload_def)
  then show ?thesis using r w(1) by blast
qed

text \<open>
  C39: every note that a completed range sends is in the database afterwards: a row of its account
  with its nullifier, commitment, position, value, pool and height.
\<close>

theorem completed_range_records_every_note:
  assumes "get_tree_state env sv (sub32 start 1) = Some (Some frontiers)" and "sv_events sv = Some events"
    and "warp_sync senv start end' accounts (get_heights_without_time (map fst accounts) start end' db) actions frontiers db events
      = (scan, messages)"
    and "shielded_sync_range senv env sv accounts start end' actions db = Some (Inr RangeCompleted, db')"
    and "MsgNote n \<in> set messages"
  shows "recorded n db'"
proof -
  have run: "run_range env (map fst accounts) scan messages db = Some (Inr RangeCompleted, db')"
    using assms(1-4) by (simp add: shielded_sync_range_def)
  note r = run_range_Inr [OF run]
  then have "scan = Inr (Some ScanCompleted)" by simp
  then have "\<forall>m \<in> set messages. ordinary m" using completed_scan_sends assms(3) by blast
  then have "\<forall>as h. MsgRewind as h \<notin> set (payload messages)" unfolding payload_def ordinary_def by auto
  moreover have "MsgNote n \<in> set (payload messages)" using assms(5) by (simp add: payload_def)
  ultimately show ?thesis using write_batch_records r by blast
qed

lemma completed_range_records_every_note_witness:
  "\<exists>n. wn_account n = 1 \<and> wn_position n = 2 \<and> recorded n (snd (the ex_range))"
proof -
  obtain messages n where m: "ex_sent = (Inr (Some ScanCompleted), messages)" "MsgNote n \<in> set messages" "wn_account n = 1"
    "wn_position n = 2" using ex_sent_note by blast
  have t: "get_tree_state ex_writer_env ex_answer (sub32 200 1) = Some (Some ex_server_trees)"
    by (simp add: get_tree_state_def ex_writer_env_def ex_answer_def sub32_def)
  have e: "sv_events ex_answer = Some [Arrived ex_block, StreamEnded]" by (simp add: ex_answer_def)
  have w: "warp_sync ex_scan_env 200 200 [(1, False)] (get_heights_without_time (map fst [(1, False)]) 200 200 ex_wallet_db) 50
      ex_server_trees ex_wallet_db [Arrived ex_block, StreamEnded] = (Inr (Some ScanCompleted), messages)"
    using m(1) by simp
  from completed_range_records_every_note [OF t e w ex_range_completes m(2)] m(3,4) show ?thesis by blast
qed

text \<open>
  C40: a shielded sync returns: when every stream of blocks that the server opens ends, fails or
  is cancelled, the loop over the ranges ends, whatever reorgs it absorbs on the way, for a reorg must be
  detected strictly below the one before.
\<close>

theorem shielded_sync_returns:
  assumes "\<forall>i a b events. sv_events (server i a b) = Some events \<longrightarrow> ends events"
    and "we_activation env Sapling_Upgrade = Some activation_height" and "activation_height \<le> u32_max" and "end' \<le> u32_max"
  shows "\<exists>r. shielded_sync senv env server cancelled accounts start end' actions chunk_blocks db = Some (Some r)"
proof -
  let ?range = "run_scan_range senv env server accounts actions"
  have "?range a b w \<noteq> None" for a b w
    using range_returns [of "server (sr_asked w) a b"] assms(1) by (simp add: run_scan_range_def)
  from sync_ranges_returns [of ?range, OF this, of "max end' activation_height"] assms(3,4)
  have "sync_ranges ?range (cancelled \<circ> sr_asked) s (max end' activation_height) size s' None w \<noteq> None" for s size s' w
    unfolding returns_def by (simp add: u32_max_def)
  then show ?thesis
    unfolding shielded_sync_def Let_def assms(2) option.map option.inject not_None_eq by blast
qed

lemma shielded_sync_returns_witness:
  "\<exists>r. shielded_sync ex_scan_env ex_writer_env (\<lambda>_ _ _. ex_answer) (\<lambda>_. False) [(1, False)] 200 200 50 None ex_wallet_db
     = Some (Some r)"
proof (rule shielded_sync_returns)
  show "\<forall>i a b events. sv_events ((\<lambda>_ _ _. ex_answer) i a b) = Some events \<longrightarrow> ends events"
    by (simp add: ex_answer_def ends_def)
  show "we_activation ex_writer_env Sapling_Upgrade = Some 10" by (simp add: ex_writer_env_def)
qed (simp_all add: u32_max_def)

end
