(* ===== verification/Spec2Isabelle.thy ===== *)
theory Spec2Isabelle
  imports Select_Notes Sync_Properties Pay_Types Migrate_Properties Driver_Properties
    Dkg_Properties Dkg_Teardown Sign_Properties Warp_Range
begin

text \<open>
  Verification of the zkool wallet (the Rust crate under \<open>rust/src/\<close>).

  The wallet keeps its accounts, notes and protocol state in one SQLite database. A sync
  scans the chain and records what it finds; payments, the note migration and the FROST protocols
  plan from what is recorded, sign, lock the notes they spend and broadcast; a driver makes
  one of them at a time write. The theories follow that order.

  \<^bold>\<open>Theories and sources.\<close>
  \<^item> \<open>Zkool_Prelude\<close>: machine integers as naturals with the wrap-around, the checked and the
    saturating operations written out, panics as \<open>None\<close>, lists of rows with \<open>delete_where\<close> and
    \<open>update_where\<close>. \<open>Effects\<close>: an async function that writes the wallet and returns a
    \<open>Result\<close> is a function from the wallet to its outcome and the wallet it leaves; \<open>atomic\<close> is a
    transaction; \<open>steps\<close> and the locale \<open>two_state\<close> carry a relation between the wallet before and
    after through a program. \<open>Planner\<close>: the contract of a planner and the loop that runs its tasks.
  \<^item> \<open>Pools\<close> (\<open>pay/pool.rs\<close>), \<open>Fees\<close> (\<open>pay/fee.rs\<close>, \<open>api/coin.rs\<close>), \<open>Solver\<close>
    (\<open>pay/solve.rs\<close>): pool masks, the fee counter, and the note selection, a greedy baseline and a
    best-first branch and bound. \<open>Solver_Correct\<close> gives the states the search explores in closed
    form and the incumbent invariant; \<open>Select_Notes\<close> derives what a selection guarantees.
  \<^item> \<open>Chain_Log\<close> (\<open>sync/chain_log.rs\<close>), \<open>Chain_Log_Correct\<close>, \<open>Chain_Log_Steps\<close>: the
    tables that a sync writes, one operation each, their invariant, and the log as an inductive
    step relation. \<open>Sync_Plan\<close> (\<open>sync/plan.rs\<close>), \<open>Sync_Run\<close> (\<open>sync/mod.rs\<close>,
    \<open>account.rs\<close>): ranges to scan, rewinds, recovery, pruning and resets. \<open>Sync_Properties\<close> states
    the properties, on the wallet of \<open>Chain_Example\<close>.
  \<^item> \<open>Warp_Decrypt\<close> (\<open>lwd.rs\<close>, \<open>warp/decrypter.rs\<close>, \<open>warp/sync/shielded/\<close>): compact blocks
    and the trial decryption. \<open>Warp_Scan\<close> (\<open>warp/sync/shielded.rs\<close>): the scanner of one pool.
    \<open>Warp_Tree\<close>, \<open>Warp_Notes\<close>, \<open>Warp_Witness\<close>: the commitment tree as a function of all
    commitments, the place of every note in it, and a chunk from end to end; \<open>Warp_Properties\<close>
    states what a chunk guarantees. \<open>Warp_Sync\<close> (\<open>warp/sync.rs\<close>) is the reader of the stream
    with the consumer that feeds the scanners, \<open>Warp_Stream\<close> its properties; \<open>Warp_Writer\<close>
    (\<open>sync/shielded.rs\<close>) records what they send in the chain log, runs one range and loops over the
    ranges, \<open>Warp_Range\<close> its properties. \<open>Outcomes\<close>: running a program to its end.
  \<^item> \<open>Pay_Types\<close> (\<open>pay/mod.rs\<close>, \<open>pay/plan.rs\<close>): recipients and the unspent notes.
    \<open>Broadcast\<close> (\<open>pay/broadcast.rs\<close>): posting, recording and the locks on the notes a
    transaction spends.
  \<^item> \<open>Migrate_Denom\<close>, \<open>Migrate_Plan\<close>, \<open>Migrate_Run\<close> (\<open>migrate/\<close>, \<open>api/migrate.rs\<close>):
    denominations, observation and planner, the loop that drives it; \<open>Migrate_Correct\<close> and
    \<open>Migrate_Properties\<close> hold the lemmas and the properties.
  \<^item> \<open>Sync_Session\<close> (\<open>sync/session.rs\<close>), \<open>Sync_Driver\<close> (\<open>sync/driver.rs\<close>): the lock and
    the slot of the live run, and the actor with its callers as a step relation;
    \<open>Driver_Properties\<close> refines it to a first-in first-out server.
  \<^item> \<open>Frost_Store\<close>, \<open>Frost_Publish\<close> (\<open>frost/protocol.rs\<close>, \<open>db.rs\<close>): the tables of the
    protocols, and the write-ahead publish of a message. \<open>Dkg_Store\<close> (\<open>frost/dkg/mod.rs\<close>):
    parameters, addresses, helper accounts, ingest of the peers' packages, teardown.
    \<open>Dkg_Plan\<close> (\<open>plan.rs\<close>, \<open>task.rs\<close>), \<open>Dkg_Step\<close> (\<open>state.rs\<close>), \<open>Dkg_Exec\<close> (\<open>exec.rs\<close>,
    \<open>step.rs\<close>): the planner, the observation, the effects and the pass. \<open>Dkg_Correct\<close>,
    \<open>Dkg_Invariant\<close> and \<open>Dkg_Pass\<close> prove what a pass preserves; \<open>Dkg_Properties\<close> and
    \<open>Dkg_Teardown\<close> state the properties.
  \<^item> \<open>Sign_Store\<close>, \<open>Sign_Plan\<close>, \<open>Sign_Exec\<close> (\<open>frost/sign/\<close>): a signing session, its messages
    and their ingest; observation and planner; the effects and the pass. \<open>Sign_Correct\<close>,
    \<open>Sign_Safety\<close>, \<open>Sign_Pass\<close>, \<open>Sign_Step\<close> and \<open>Sign_Liveness\<close> prove what a pass preserves;
    \<open>Sign_Properties\<close> states the properties.

  \<^bold>\<open>What the lemmas show.\<close> A selection covers its outputs and its fee, takes only offered notes,
  always ends and finds a selection when the greedy pass does. The chain log keeps its
  constraints over every sequence of operations and works account by account, and a rewind undoes a
  sync. A split of the migration pays its fee and locked notes are never offered again. The driver
  serves in order and loses nothing. A message of a protocol is resendable from its marker until it
  is mined or expires; a key generation never runs ahead of a participant and never replaces a
  secret it has published. Where the code departs from what it states, a property says how and its
  witness shows it on a concrete wallet.

  \<^bold>\<open>Bounds and fuel.\<close> The best-first search runs at most \<open>max_nodes\<close> expansions, the code's
  own budget, and is shown to end within it. The loop of a split has its own measure. A pass of the
  key generation or of a signing session makes sixteen iterations, as the code does, and running out of
  them is the code's error. The loop over the ranges of a sync is a partial function that is shown to
  return when the server's streams end.

  \<^bold>\<open>Parameters.\<close> The cryptography (reading and building transactions, FROST, keys and addresses),
  the server and the clock are arguments of the definitions; where other tasks write the same wallet
  while a loop runs, what they do is an environment of each iteration.

  \<^bold>\<open>Not modelled.\<close> The building and signing of a transaction beyond note selection
  (\<open>pay/plan.rs\<close>, \<open>pay/sign.rs\<close>), the transparent scan and the sweep, account creation and keys,
  import and export, memos, swaps, voting, the ledger, and the API layers, most of which is
  cryptography, I/O or glue around the parts above. In the warp scanner the debug check of the
  anchors and the progress messages are left out.
\<close>

end
